(* ===== verification/Prelude.thy ===== *)
theory Prelude
  imports Main "HOL-Library.Multiset" "HOL-Library.Char_ord" "HOL-Library.List_Lexorder"
begin

text \<open>
  Shared vocabulary of the development: results with errors as values, decimal
  formatting as Go's \<^verbatim>\<open>strconv\<close> does it, self-delimiting encodings, and tables of
  rows with the two SQL statements the stores are written with
  (\<^verbatim>\<open>UPDATE .. WHERE .. RETURNING\<close> and \<^verbatim>\<open>DELETE .. WHERE\<close>).

  Go strings and byte slices are both sequences of bytes: here both are \<^typ>\<open>string\<close>
  (a \<^typ>\<open>char\<close> is a byte).  Times are integers; every theory says in which unit.
\<close>

named_theorems table_simps \<open>rewriting of table statements\<close>
named_theorems codec_simps \<open>rewriting of encoders and decoders\<close>

type_synonym bytes = string
type_synonym ('e, 'a) result = "'e + 'a"

subsection \<open>Decimal numbers (strconv.FormatInt, base 10)\<close>

definition digit :: "nat \<Rightarrow> char" where
  "digit d = char_of (48 + d)"

fun FormatUint :: "nat \<Rightarrow> string" where
  "FormatUint n = (if n < 10 then [digit n] else FormatUint (n div 10) @ [digit (n mod 10)])"

declare FormatUint.simps [simp del]

definition FormatInt :: "int \<Rightarrow> string" where
  "FormatInt i = (if i < 0 then CHR ''-'' # FormatUint (nat (- i)) else FormatUint (nat i))"

text \<open>The reading direction, used only to show that the printing direction loses nothing.\<close>

definition undigit :: "char \<Rightarrow> nat" where
  "undigit c = of_char c - 48"

definition parse_uint :: "string \<Rightarrow> nat" where
  "parse_uint s = foldl (\<lambda>a c. 10 * a + undigit c) 0 s"

lemma undigit_digit [codec_simps]: "d < 10 \<Longrightarrow> undigit (digit d) = d"
  by (simp add: undigit_def digit_def)

lemma parse_uint_FormatUint [codec_simps]: "parse_uint (FormatUint n) = n"
proof (induction n rule: FormatUint.induct)
  case (1 n)
  show ?case
  proof (cases "n < 10")
    case True
    then show ?thesis
      by (simp add: FormatUint.simps [of n] parse_uint_def undigit_digit)
  next
    case False
    with 1 have "parse_uint (FormatUint (n div 10)) = n div 10" by simp
    with False show ?thesis
      by (simp add: FormatUint.simps [of n] parse_uint_def undigit_digit)
  qed
qed

lemma FormatUint_inj: "FormatUint m = FormatUint n \<longleftrightarrow> m = n"
  by (metis parse_uint_FormatUint)

lemma FormatUint_nonempty [simp]: "FormatUint n \<noteq> []"
  by (simp add: FormatUint.simps [of n])

lemma digit_not_minus: "d < 10 \<Longrightarrow> digit d \<noteq> CHR ''-''"
proof
  assume "d < 10" "digit d = CHR ''-''"
  then have "of_char (digit d) = (45 :: nat)" by simp
  with \<open>d < 10\<close> show False by (simp add: digit_def)
qed

lemma minus_notin_FormatUint: "CHR ''-'' \<notin> set (FormatUint n)"
proof (induction n rule: FormatUint.induct)
  case (1 n)
  then show ?case
    using digit_not_minus [of n] digit_not_minus [of "n mod 10"]
    by (cases "n < 10") (auto simp: FormatUint.simps [of n])
qed

lemma FormatInt_inj [codec_simps]: "FormatInt i = FormatInt j \<longleftrightarrow> i = j"
proof -
  have "FormatUint m \<noteq> CHR ''-'' # s" for m s
    using minus_notin_FormatUint [of m] by force
  then show ?thesis
    by (auto simp: FormatInt_def FormatUint_inj nat_eq_iff2 split: if_splits dest: sym)
qed

subsection \<open>Self-delimiting encodings\<close>

text \<open>
  An encoder is self-delimiting when the reader of a stream knows from the stream alone
  where a value ends.  A sequence of such encodings is then unambiguous.
\<close>

locale self_delimiting =
  fixes enc :: "'a \<Rightarrow> string"
  assumes enc_append: "enc a @ r = enc b @ s \<Longrightarrow> a = b \<and> r = s"
    and enc_nonempty: "enc a \<noteq> []"
begin

lemma enc_inj: "enc a = enc b \<longleftrightarrow> a = b"
  using enc_append [of a "[]" b "[]"] by auto

lemma concat_inj: "concat (map enc xs) = concat (map enc ys) \<longleftrightarrow> xs = ys"
proof
  show "concat (map enc xs) = concat (map enc ys) \<Longrightarrow> xs = ys"
  proof (induction xs arbitrary: ys)
    case Nil
    then show ?case using enc_nonempty by (cases ys) auto
  next
    case (Cons x xs)
    then obtain y ys' where ys: "ys = y # ys'"
      using enc_nonempty by (cases ys) auto
    with Cons.prems have "x = y \<and> concat (map enc xs) = concat (map enc ys')"
      by (intro enc_append) simp
    with Cons.IH ys show ?case by simp
  qed
qed simp

end

subsection \<open>Tables\<close>

text \<open>
  A table is the list of its rows.  \<open>update_where P f\<close> is \<^verbatim>\<open>UPDATE .. SET f WHERE P\<close>,
  \<open>returning P f\<close> are the rows its \<^verbatim>\<open>RETURNING\<close> clause yields, \<open>affected P\<close> is the
  number of rows its command tag reports, and \<open>delete_where P\<close> is
  \<^verbatim>\<open>DELETE .. WHERE P\<close>.
\<close>

definition update_where :: "('r \<Rightarrow> bool) \<Rightarrow> ('r \<Rightarrow> 'r) \<Rightarrow> 'r list \<Rightarrow> 'r list" where
  "update_where P f rows = map (\<lambda>r. if P r then f r else r) rows"

definition returning :: "('r \<Rightarrow> bool) \<Rightarrow> ('r \<Rightarrow> 'r) \<Rightarrow> 'r list \<Rightarrow> 'r list" where
  "returning P f rows = map f (filter P rows)"

definition affected :: "('r \<Rightarrow> bool) \<Rightarrow> 'r list \<Rightarrow> nat" where
  "affected P rows = length (filter P rows)"

definition delete_where :: "('r \<Rightarrow> bool) \<Rightarrow> 'r list \<Rightarrow> 'r list" where
  "delete_where P rows = filter (\<lambda>r. \<not> P r) rows"

text \<open>\<^verbatim>\<open>QueryRow\<close>: the first row that matches, \<open>None\<close> for \<^verbatim>\<open>pgx.ErrNoRows\<close>.\<close>

definition query_row :: "('r \<Rightarrow> bool) \<Rightarrow> 'r list \<Rightarrow> 'r option" where
  "query_row P rows = (case filter P rows of [] \<Rightarrow> None | r # _ \<Rightarrow> Some r)"

lemma update_where_simps [table_simps, simp]:
  "update_where P f [] = []"
  "update_where P f (r # rs) = (if P r then f r else r) # update_where P f rs"
  by (simp_all add: update_where_def)

lemma set_update_where [table_simps]:
  "set (update_where P f rows) = (\<lambda>r. if P r then f r else r) ` set rows"
  by (simp add: update_where_def)

lemma in_update_whereE:
  assumes "r \<in> set (update_where P f rows)"
  obtains r0 where "r0 \<in> set rows" "r = (if P r0 then f r0 else r0)"
  using assms by (auto simp: update_where_def)

lemma update_where_length [simp]: "length (update_where P f rows) = length rows"
  by (simp add: update_where_def)

lemma update_where_none: "(\<And>r. r \<in> set rows \<Longrightarrow> \<not> P r) \<Longrightarrow> update_where P f rows = rows"
  by (induction rows) auto

lemma map_update_where:
  "(\<And>r. r \<in> set rows \<Longrightarrow> P r \<Longrightarrow> g (f r) = g r) \<Longrightarrow> map g (update_where P f rows) = map g rows"
  by (induction rows) auto

lemma query_row_Some: "query_row P rows = Some r \<Longrightarrow> r \<in> set rows \<and> P r"
  by (auto simp: query_row_def filter_eq_Cons_iff split: list.splits)

lemma query_row_None [table_simps]: "query_row P rows = None \<longleftrightarrow> (\<forall>r \<in> set rows. \<not> P r)"
  by (induction rows) (auto simp: query_row_def)

lemma query_row_Nil [simp]: "query_row P [] = None"
  by (simp add: query_row_def)

lemma query_row_Cons [simp]: "query_row P (r # rs) = (if P r then Some r else query_row P rs)"
  by (simp add: query_row_def)

text \<open>
  Rows with a key: when the keys of a table are distinct, a query by key is a lookup, and
  an update that keeps the key changes exactly the row with that key.
\<close>

lemma filter_key_unique:
  assumes "distinct (map key rows)" "r \<in> set rows"
  shows "filter (\<lambda>x. key x = key r \<and> Q x) rows = (if Q r then [r] else [])"
  using assms
proof (induction rows)
  case Nil
  then show ?case by simp
next
  case (Cons a rows)
  show ?case
  proof (cases "a = r")
    case True
    with Cons.prems have "\<forall>x \<in> set rows. key x \<noteq> key r" by (auto simp: image_iff)
    then have "filter (\<lambda>x. key x = key r \<and> Q x) rows = []" by (auto simp: filter_empty_conv)
    with True show ?thesis by simp
  next
    case False
    with Cons.prems have r: "r \<in> set rows" by auto
    with Cons.prems have "key a \<noteq> key r" by (auto simp: image_iff)
    with Cons r show ?thesis by auto
  qed
qed

lemma query_row_key_unique:
  assumes "distinct (map key rows)" "r \<in> set rows" "Q r"
  shows "query_row (\<lambda>x. key x = key r \<and> Q x) rows = Some r"
  using filter_key_unique [OF assms(1,2), of Q] assms(3) by (simp add: query_row_def)

lemma key_unique:
  assumes "distinct (map key rows)" "r \<in> set rows" "r' \<in> set rows" "key r = key r'"
  shows "r = r'"
  using assms by (auto simp: distinct_map inj_on_def)

lemma affected_key_le_1:
  assumes "distinct (map key rows)"
  shows "affected (\<lambda>x. key x = k \<and> Q x) rows \<le> 1"
proof (cases "\<exists>r \<in> set rows. key r = k")
  case True
  then obtain r where "r \<in> set rows" "key r = k" by auto
  with filter_key_unique [OF assms, of r Q] show ?thesis by (auto simp: affected_def)
next
  case False
  then have "filter (\<lambda>x. key x = k \<and> Q x) rows = []" by (auto simp: filter_empty_conv)
  then show ?thesis by (simp add: affected_def)
qed

subsection \<open>Lookup by key\<close>

text \<open>
  \<open>lookup key k\<close> is \<^verbatim>\<open>SELECT .. WHERE key = k\<close>.  How each statement changes what a lookup
  returns is all the store proofs need to know about a statement.
\<close>

definition lookup :: "('r \<Rightarrow> 'k) \<Rightarrow> 'k \<Rightarrow> 'r list \<Rightarrow> 'r option" where
  "lookup key k rows = query_row (\<lambda>r. key r = k) rows"

lemma lookup_Nil [simp]: "lookup key k [] = None"
  by (simp add: lookup_def)

lemma lookup_Cons [simp]: "lookup key k (r # rows) = (if key r = k then Some r else lookup key k rows)"
  by (simp add: lookup_def)

lemma lookup_Some: "lookup key k rows = Some r \<Longrightarrow> r \<in> set rows \<and> key r = k"
  unfolding lookup_def by (rule query_row_Some)

lemma lookup_None: "lookup key k rows = None \<longleftrightarrow> k \<notin> key ` set rows"
  by (induction rows) auto

lemma lookup_append [table_simps]:
  "lookup key k (xs @ ys) = (case lookup key k xs of None \<Rightarrow> lookup key k ys | Some r \<Rightarrow> Some r)"
  by (induction xs) auto

lemma lookup_update_where [table_simps]:
  "(\<And>r. P r \<Longrightarrow> key (f r) = key r) \<Longrightarrow>
   lookup key k (update_where P f rows) = map_option (\<lambda>r. if P r then f r else r) (lookup key k rows)"
  by (induction rows) auto

lemma lookup_unique:
  "distinct (map key rows) \<Longrightarrow> r \<in> set rows \<Longrightarrow> lookup key (key r) rows = Some r"
  by (induction rows) (auto simp: image_iff)

lemma lookup_delete_where [table_simps]:
  "distinct (map key rows) \<Longrightarrow>
   lookup key k (delete_where P rows) = (case lookup key k rows of None \<Rightarrow> None | Some r \<Rightarrow> if P r then None else Some r)"
proof (induction rows)
  case Nil
  then show ?case by (simp add: delete_where_def)
next
  case (Cons a rows)
  then have "key a \<notin> key ` set (filter (\<lambda>r. \<not> P r) rows)" by auto
  with Cons show ?case
    by (auto simp: delete_where_def lookup_None [symmetric])
qed

lemma query_row_lookup:
  "distinct (map key rows) \<Longrightarrow>
   query_row (\<lambda>r. key r = k \<and> Q r) rows = (case lookup key k rows of None \<Rightarrow> None | Some r \<Rightarrow> if Q r then Some r else None)"
proof (induction rows)
  case Nil
  then show ?case by simp
next
  case (Cons a rows)
  then show ?case by (auto simp: query_row_None split: option.splits dest!: lookup_Some)
qed

lemma length_filter_keys:
  assumes "distinct (map key rows)"
  shows "length (filter (\<lambda>r. key r \<in> set ks) rows) \<le> length ks"
proof -
  let ?f = "filter (\<lambda>r. key r \<in> set ks) rows"
  have "length ?f = card (set (map key ?f))"
    using assms by (metis distinct_card distinct_map_filter length_map)
  also have "\<dots> \<le> card (set ks)" by (rule card_mono) auto
  also have "\<dots> \<le> length ks" by (rule card_length)
  finally show ?thesis .
qed

text \<open>Keys stay distinct under the four statements.\<close>

lemma distinct_update_where [table_simps]:
  "(\<And>r. P r \<Longrightarrow> key (f r) = key r) \<Longrightarrow> distinct (map key (update_where P f rows)) = distinct (map key rows)"
  by (simp add: map_update_where)

lemma distinct_insert_row [table_simps]:
  "distinct (map key (rows @ [r])) \<longleftrightarrow> distinct (map key rows) \<and> lookup key (key r) rows = None"
  by (auto simp: lookup_None)

lemma distinct_delete_where [table_simps]: "distinct (map key rows) \<Longrightarrow> distinct (map key (delete_where P rows))"
  by (simp add: delete_where_def distinct_map_filter)

lemma set_delete_where [table_simps]: "set (delete_where P rows) = {r \<in> set rows. \<not> P r}"
  by (simp add: delete_where_def)

text \<open>
  \<open>query_first ord P\<close> is \<^verbatim>\<open>SELECT .. WHERE P ORDER BY ord LIMIT 1\<close>, and \<open>update_first\<close> the statement a
  queue is consumed with, \<^verbatim>\<open>UPDATE .. WHERE key = (SELECT key .. FOR UPDATE SKIP LOCKED LIMIT 1) RETURNING\<close>.
\<close>

definition query_first :: "('r \<Rightarrow> 'o::linorder) \<Rightarrow> ('r \<Rightarrow> bool) \<Rightarrow> 'r list \<Rightarrow> 'r option" where
  "query_first ord P rows = (case sort_key ord (filter P rows) of [] \<Rightarrow> None | r # _ \<Rightarrow> Some r)"

definition update_first :: "('r \<Rightarrow> 'k) \<Rightarrow> ('r \<Rightarrow> 'o::linorder) \<Rightarrow> ('r \<Rightarrow> bool) \<Rightarrow> ('r \<Rightarrow> 'r) \<Rightarrow> 'r list
    \<Rightarrow> 'r option \<times> 'r list" where
  "update_first key ord P f rows =
     (case query_first ord P rows of
        None \<Rightarrow> (None, rows)
      | Some r \<Rightarrow> (Some (f r), update_where (\<lambda>x. key x = key r) f rows))"

lemma query_first_Some:
  assumes "query_first ord P rows = Some r"
  shows "r \<in> set rows" "P r" "\<And>x. x \<in> set rows \<Longrightarrow> P x \<Longrightarrow> ord r \<le> ord x"
proof -
  from assms obtain rs where s: "sort_key ord (filter P rows) = r # rs"
    by (auto simp: query_first_def split: list.splits)
  then have m: "set (r # rs) = set (filter P rows)" by (metis set_sort)
  then show "r \<in> set rows" "P r" by auto
  have "sorted (map ord (r # rs))" using s by (metis sorted_sort_key)
  with m show "ord r \<le> ord x" if "x \<in> set rows" "P x" for x using that by auto
qed

lemma query_first_None [table_simps]: "query_first ord P rows = None \<longleftrightarrow> (\<forall>r \<in> set rows. \<not> P r)"
proof -
  have "sort_key ord (filter P rows) = [] \<longleftrightarrow> filter P rows = []"
    by (metis length_0_conv length_sort)
  then show ?thesis by (auto simp: query_first_def filter_empty_conv split: list.splits)
qed

subsection \<open>Leases\<close>

text \<open>
  The queues of the stores (tasks, memory jobs, notifications) hand out rows for a while.
  \<open>claimable now r\<close> is the condition of the \<^verbatim>\<open>SELECT\<close> and \<open>claim now l r\<close> what the \<^verbatim>\<open>UPDATE\<close> sets:
  a claimed row is not claimable before the lease \<open>l\<close> has passed.
\<close>

locale lease_queue =
  fixes key :: "'r \<Rightarrow> 'k"
    and ord :: "'r \<Rightarrow> 'o::linorder"
    and claimable :: "int \<Rightarrow> 'r \<Rightarrow> bool"
    and claim :: "'w \<Rightarrow> int \<Rightarrow> int \<Rightarrow> 'r \<Rightarrow> 'r"
  assumes claim_key: "key (claim w now l r) = key r"
    and claim_excludes: "now' \<le> now + l \<Longrightarrow> \<not> claimable now' (claim w now l r)"
begin

text \<open>A row handed out is one that was claimable, and its table entry is the row handed out.\<close>

lemma update_first_claims:
  assumes "distinct (map key rows)" "update_first key ord (claimable now) (claim w now l) rows = (Some r, rows')"
  shows "\<exists>r0 \<in> set rows. claimable now r0 \<and> r = claim w now l r0 \<and> lookup key (key r0) rows' = Some r"
proof -
  from assms(2) obtain r0 where q: "query_first ord (claimable now) rows = Some r0"
    and r: "r = claim w now l r0" "rows' = update_where (\<lambda>x. key x = key r0) (claim w now l) rows"
    by (auto simp: update_first_def split: option.splits)
  from query_first_Some [OF q] have "r0 \<in> set rows" "claimable now r0" by auto
  moreover have "lookup key (key r0) rows' = Some r"
    using lookup_unique [OF assms(1) \<open>r0 \<in> set rows\<close>] by (simp add: r lookup_update_where claim_key)
  ultimately show ?thesis using r(1) by blast
qed

text \<open>As long as the row stays as it was handed out, no worker gets it before the lease ends.\<close>

lemma update_first_excludes:
  assumes "distinct (map key rows)" "lookup key k rows = Some (claim w now l r0)" "now' \<le> now + l"
    and "update_first key ord (claimable now') (claim w' now' l') rows = (Some r, rows')"
  shows "key r \<noteq> k"
proof
  assume k: "key r = k"
  from update_first_claims [OF assms(1,4)] obtain r1 where
    r1: "r1 \<in> set rows" "claimable now' r1" "r = claim w' now' l' r1" by blast
  with k have "key r1 = k" by (simp add: claim_key)
  with lookup_unique [OF assms(1) r1(1)] assms(2) have "r1 = claim w now l r0" by simp
  with r1(2) claim_excludes [OF assms(3)] show False by simp
qed

text \<open>What is handed out is what has waited longest, and nothing is handed out only when nothing is claimable.\<close>

lemma update_first_oldest:
  assumes "update_first key ord (claimable now) (claim w now l) rows = (Some r, rows')" "x \<in> set rows" "claimable now x"
  shows "\<exists>r0 \<in> set rows. r = claim w now l r0 \<and> ord r0 \<le> ord x"
proof -
  from assms(1) obtain r0 where q: "query_first ord (claimable now) rows = Some r0" "r = claim w now l r0"
    by (auto simp: update_first_def split: option.splits)
  from query_first_Some [OF q(1)] assms(2,3) q(2) show ?thesis by blast
qed

lemma update_first_None:
  "fst (update_first key ord (claimable now) (claim w now l) rows) = None \<longleftrightarrow> (\<forall>r \<in> set rows. \<not> claimable now r)"
proof -
  have "fst (update_first key ord (claimable now) (claim w now l) rows) = None \<longleftrightarrow> query_first ord (claimable now) rows = None"
    by (simp add: update_first_def split: option.splits)
  then show ?thesis by (simp add: query_first_None)
qed

end

end
