(* ===== verification/AuditChain.thy ===== *)
theory AuditChain
  imports Prelude
begin

text \<open>
  The audit trail's hash chain: \<^verbatim>\<open>services/audit/internal/chain/chain.go\<close>.

  \<open>preimage prev e\<close> is the byte string \<^verbatim>\<open>Hash\<close> feeds to SHA-256, and
  \<open>Hash sha prev e\<close> its digest.  The compression function is the parameter \<open>sha\<close>.
  Times are nanoseconds since the Unix epoch.  A Go map has no order of its own: a
  \<^verbatim>\<open>map[string]string\<close> is the list of its entries in the order \<^verbatim>\<open>range\<close> happens to
  visit them, with distinct keys.
\<close>

record event =
  evTenantID :: string
  evSequence :: int
  evEventID :: string
  evOccurTime :: int
  evRecordTime :: int
  evActorKind :: string
  evActorID :: string
  evOnBehalfOf :: string
  evAction :: string
  evTargetType :: string
  evTargetID :: string
  evOutcome :: string
  evReason :: string
  evRequestID :: string
  evSource :: string
  evDetails :: "(string \<times> string) list"

definition chain_domain :: bytes where
  "chain_domain = ''jarvis.audit.v1'' @ [char_of (0 :: nat)]"

text \<open>\<^verbatim>\<open>time.Microsecond\<close>, in nanoseconds; \<^verbatim>\<open>Time.UnixMicro\<close> rounds down.\<close>

definition Precision :: int where
  "Precision = 1000"

definition UnixMicro :: "int \<Rightarrow> int" where
  "UnixMicro t = t div 1000"

text \<open>\<^verbatim>\<open>binary.PutUvarint\<close>: seven bits a byte, low bits first, the top bit set on all but the last.\<close>

fun PutUvarint :: "nat \<Rightarrow> bytes" where
  "PutUvarint x =
     (if x < 128 then [char_of x] else char_of (x mod 128 + 128) # PutUvarint (x div 128))"

declare PutUvarint.simps [simp del]

definition chain_field :: "string \<Rightarrow> bytes" where
  "chain_field s = PutUvarint (length s) @ s"

definition detail_fields :: "(string \<times> string) list \<Rightarrow> string list" where
  "detail_fields ds =
     (let keys = sort (map fst ds)
      in FormatInt (int (length keys)) # concat (map (\<lambda>k. [k, the (map_of ds k)]) keys))"

definition chain_fields :: "event \<Rightarrow> string list" where
  "chain_fields e =
     [evTenantID e, FormatInt (evSequence e), evEventID e,
      FormatInt (UnixMicro (evOccurTime e)), FormatInt (UnixMicro (evRecordTime e)),
      evActorKind e, evActorID e, evOnBehalfOf e, evAction e, evTargetType e, evTargetID e,
      evOutcome e, evReason e, evRequestID e, evSource e] @ detail_fields (evDetails e)"

definition preimage :: "bytes \<Rightarrow> event \<Rightarrow> bytes" where
  "preimage prev e = chain_domain @ prev @ concat (map chain_field (chain_fields e))"

definition Hash :: "(bytes \<Rightarrow> bytes) \<Rightarrow> bytes \<Rightarrow> event \<Rightarrow> bytes" where
  "Hash sha prev e = sha (preimage prev e)"

subsection \<open>The encoding is unambiguous\<close>

lemma PutUvarint_append:
  "PutUvarint x @ r = PutUvarint y @ s \<Longrightarrow> x = y \<and> r = s"
proof (induction x arbitrary: y rule: PutUvarint.induct)
  case (1 x)
  have byte: "of_char (char_of n :: char) = n" if "n < 256" for n :: nat
    using that by simp
  show ?case
  proof (cases "x < 128"; cases "y < 128")
    assume "x < 128" "y < 128"
    then show ?thesis
      using "1.prems" byte [of x] byte [of y] by (auto simp: PutUvarint.simps [of x] PutUvarint.simps [of y])
  next
    assume x: "x < 128" and y: "\<not> y < 128"
    then have "char_of x = (char_of (y mod 128 + 128) :: char)"
      using "1.prems" by (simp add: PutUvarint.simps [of x] PutUvarint.simps [of y])
    then have "x = y mod 128 + 128" using byte [of x] byte [of "y mod 128 + 128"] x by simp
    with x show ?thesis by simp
  next
    assume x: "\<not> x < 128" and y: "y < 128"
    then have "char_of y = (char_of (x mod 128 + 128) :: char)"
      using "1.prems" by (simp add: PutUvarint.simps [of x] PutUvarint.simps [of y])
    then have "y = x mod 128 + 128" using byte [of y] byte [of "x mod 128 + 128"] y by simp
    with y show ?thesis by simp
  next
    assume x: "\<not> x < 128" and y: "\<not> y < 128"
    with "1.prems" have hd: "char_of (x mod 128 + 128) = (char_of (y mod 128 + 128) :: char)"
      and tl: "PutUvarint (x div 128) @ r = PutUvarint (y div 128) @ s"
      by (simp_all add: PutUvarint.simps [of x] PutUvarint.simps [of y])
    from hd have "x mod 128 = y mod 128"
      using byte [of "x mod 128 + 128"] byte [of "y mod 128 + 128"] by simp
    moreover from "1.IH" [OF x tl] have "x div 128 = y div 128" "r = s" by simp_all
    ultimately show ?thesis by (metis div_mult_mod_eq)
  qed
qed

interpretation uvarint: self_delimiting PutUvarint
proof
  show "PutUvarint a @ r = PutUvarint b @ s \<Longrightarrow> a = b \<and> r = s" for a b r s
    by (rule PutUvarint_append)
  show "PutUvarint a \<noteq> []" for a
    by (simp add: PutUvarint.simps [of a])
qed

lemma chain_field_append:
  assumes "chain_field a @ r = chain_field b @ s"
  shows "a = b \<and> r = s"
proof -
  from assms have "PutUvarint (length a) @ (a @ r) = PutUvarint (length b) @ (b @ s)"
    by (simp add: chain_field_def)
  then have "length a = length b" "a @ r = b @ s"
    using PutUvarint_append by blast+
  then show ?thesis by simp
qed

interpretation lfield: self_delimiting chain_field
proof
  show "chain_field a @ r = chain_field b @ s \<Longrightarrow> a = b \<and> r = s" for a b r s
    by (rule chain_field_append)
  show "chain_field a \<noteq> []" for a
    using uvarint.enc_nonempty by (simp add: chain_field_def)
qed

text \<open>
  What the hash is about: the event with its times at the chain's precision and its details
  as a map.  \<open>canonical\<close> is that event, with the details listed in key order.
\<close>

definition canonical_details :: "(string \<times> string) list \<Rightarrow> (string \<times> string) list" where
  "canonical_details ds = map (\<lambda>k. (k, the (map_of ds k))) (sort (map fst ds))"

definition canonical :: "event \<Rightarrow> event" where
  "canonical e = e\<lparr>evOccurTime := UnixMicro (evOccurTime e) * Precision,
                   evRecordTime := UnixMicro (evRecordTime e) * Precision,
                   evDetails := canonical_details (evDetails e)\<rparr>"

lemma detail_fields_canonical:
  "detail_fields ds = FormatInt (int (length (canonical_details ds)))
     # concat (map (\<lambda>(k, v). [k, v]) (canonical_details ds))"
  by (simp add: detail_fields_def canonical_details_def Let_def comp_def case_prod_beta)

lemma concat_pairs_inj:
  "concat (map (\<lambda>(k, v). [k, v]) xs) = concat (map (\<lambda>(k, v). [k, v]) ys) \<longleftrightarrow> xs = ys"
proof
  show "concat (map (\<lambda>(k, v). [k, v]) xs) = concat (map (\<lambda>(k, v). [k, v]) ys) \<Longrightarrow> xs = ys"
  proof (induction xs arbitrary: ys)
    case Nil
    then show ?case by (cases ys) auto
  next
    case (Cons x xs)
    then show ?case by (cases x; cases ys) auto
  qed
qed simp

lemma detail_fields_inj:
  "detail_fields ds = detail_fields ds' \<longleftrightarrow> canonical_details ds = canonical_details ds'"
  by (auto simp: detail_fields_canonical concat_pairs_inj)

lemma chain_fields_canonical: "chain_fields e = chain_fields e' \<longleftrightarrow> canonical e = canonical e'"
  by (cases e; cases e')
    (auto simp: chain_fields_def canonical_def detail_fields_inj FormatInt_inj Precision_def)

lemma preimage_same_length:
  assumes "preimage p e = preimage p' e'" "length p = length p'"
  shows "p = p' \<and> canonical e = canonical e'"
  using assms by (simp add: preimage_def lfield.concat_inj chain_fields_canonical)

text \<open>
  The previous hash is not length-prefixed: a first event (no previous hash) and a later one
  (a 32-byte hash) are kept apart by the tenant id.  It is a 36-character UUID, so its length
  byte is 36, the dollar sign, which no UUID contains.
\<close>

definition uuid_chars :: "string \<Rightarrow> bool" where
  "uuid_chars s \<longleftrightarrow> length s = 36 \<and> (\<forall>c \<in> set s. c \<in> set ''0123456789abcdef-'')"

definition wf_prev :: "bytes \<Rightarrow> bool" where
  "wf_prev p \<longleftrightarrow> length p = 0 \<or> length p = 32"

lemma PutUvarint_36: "PutUvarint 36 = ''$''"
  by code_simp

lemma chain_field_uuid: "uuid_chars s \<Longrightarrow> chain_field s = CHR ''$'' # s"
  by (simp add: chain_field_def uuid_chars_def PutUvarint_36)

lemma preimage_uuid:
  "uuid_chars (evTenantID e) \<Longrightarrow>
     preimage p e = chain_domain @ p @ CHR ''$'' # evTenantID e @ concat (map chain_field (tl (chain_fields e)))"
  by (simp add: preimage_def chain_fields_def chain_field_uuid)

lemma preimage_first_later:
  assumes t: "uuid_chars (evTenantID e)" "uuid_chars (evTenantID e')" and p': "length p' = 32"
  shows "preimage [] e \<noteq> preimage p' e'"
proof
  assume "preimage [] e = preimage p' e'"
  then have eq: "CHR ''$'' # evTenantID e @ concat (map chain_field (tl (chain_fields e)))
      = p' @ CHR ''$'' # evTenantID e' @ concat (map chain_field (tl (chain_fields e')))"
    using t by (simp add: preimage_uuid)
  from arg_cong [OF eq, of "\<lambda>l. l ! 32"] have "evTenantID e ! 31 = CHR ''$''"
    using p' t(1) by (simp add: nth_append nth_Cons' uuid_chars_def)
  moreover have "evTenantID e ! 31 \<in> set (evTenantID e)"
    using t(1) by (simp add: uuid_chars_def)
  ultimately have "CHR ''$'' \<in> set ''0123456789abcdef-''"
    using t(1) by (metis uuid_chars_def)
  then show False by simp
qed

lemma preimage_inj:
  assumes "preimage p e = preimage p' e'" "wf_prev p" "wf_prev p'"
    "uuid_chars (evTenantID e)" "uuid_chars (evTenantID e')"
  shows "p = p' \<and> canonical e = canonical e'"
proof (cases "length p = length p'")
  case True
  with assms(1) show ?thesis by (rule preimage_same_length)
next
  case False
  with assms(2,3) consider "p = []" "length p' = 32" | "p' = []" "length p = 32"
    by (auto simp: wf_prev_def)
  then show ?thesis
  proof cases
    case 1
    with assms preimage_first_later [of e e' p'] show ?thesis by simp
  next
    case 2
    with assms preimage_first_later [of e' e p] show ?thesis by simp
  qed
qed

subsection \<open>The order of a map does not matter\<close>

lemma canonical_details_perm:
  assumes "distinct (map fst ds)" "mset ds = mset ds'"
  shows "canonical_details ds = canonical_details ds'"
proof -
  have k: "mset (map fst ds) = mset (map fst ds')"
    using assms(2) by (metis mset_map)
  then have "sort (map fst ds) = sort (map fst ds')"
    by (metis mset_sort sorted_sort properties_for_sort)
  moreover have "distinct (map fst ds')"
    using k assms(1) by (metis mset_eq_imp_distinct_iff)
  then have "map_of ds = map_of ds'"
    using assms by (intro map_of_inject_set [THEN iffD2]) (auto dest: mset_eq_setD)
  ultimately show ?thesis by (simp add: canonical_details_def)
qed

text \<open>A concrete event, for the examples that show the theorems at work.\<close>

definition sample_event :: event where
  "sample_event = \<lparr>evTenantID = ''6f1c2a34-0b7d-4c11-9a3e-52d0c8e7f001'', evSequence = 1,
     evEventID = ''11111111-2222-4333-8444-555555555555'', evOccurTime = 1700000000123456789,
     evRecordTime = 1700000001000000000, evActorKind = ''ACTOR_KIND_USER'', evActorID = ''u1'',
     evOnBehalfOf = [], evAction = ''key.created'', evTargetType = ''key'', evTargetID = ''k1'',
     evOutcome = ''OUTCOME_SUCCESS'', evReason = [], evRequestID = ''r1'', evSource = ''vault'',
     evDetails = [(''b'', ''2''), (''a'', ''1'')]\<rparr>"

lemma sample_event_wf: "uuid_chars (evTenantID sample_event)" "distinct (map fst (evDetails sample_event))"
  by (simp_all add: sample_event_def uuid_chars_def)

text \<open>
  C21.  The bytes that are hashed determine what was recorded: two events with the same
  preimage extend the same previous hash and agree on every field, on their times at
  microsecond precision and on their details as maps.  A previous hash is empty or 32 bytes,
  a tenant id a canonical UUID.
\<close>

theorem Hash_preimage_unambiguous:
  assumes "wf_prev p" "wf_prev p'" "uuid_chars (evTenantID e)" "uuid_chars (evTenantID e')"
  shows "preimage p e = preimage p' e' \<longleftrightarrow> p = p' \<and> canonical e = canonical e'"
proof
  assume "preimage p e = preimage p' e'"
  then show "p = p' \<and> canonical e = canonical e'" using assms by (rule preimage_inj)
next
  assume "p = p' \<and> canonical e = canonical e'"
  then show "preimage p e = preimage p' e'"
    by (simp add: preimage_def flip: chain_fields_canonical)
qed

theorem Hash_preimage_unambiguous_witness:
  "wf_prev [] \<and> wf_prev (replicate 32 (CHR ''a'')) \<and> uuid_chars (evTenantID sample_event) \<and>
   preimage [] sample_event \<noteq> preimage (replicate 32 (CHR ''a'')) sample_event"
proof -
  have p: "wf_prev []" "wf_prev (replicate 32 (CHR ''a''))" by (simp_all add: wf_prev_def)
  show ?thesis
    using p sample_event_wf(1) Hash_preimage_unambiguous [OF p sample_event_wf(1) sample_event_wf(1)] by simp
qed

text \<open>
  C22.  The hash does not depend on the order in which Go's map iteration visits the details.
\<close>

theorem Hash_iteration_order:
  assumes "distinct (map fst (evDetails e))" "mset ds = mset (evDetails e)"
  shows "Hash sha p (e\<lparr>evDetails := ds\<rparr>) = Hash sha p e"
proof -
  have "canonical (e\<lparr>evDetails := ds\<rparr>) = canonical e"
    using canonical_details_perm [OF assms(1), of ds] assms(2) by (simp add: canonical_def)
  then show ?thesis
    by (simp add: Hash_def preimage_def flip: chain_fields_canonical)
qed

theorem Hash_iteration_order_witness:
  "distinct (map fst (evDetails sample_event)) \<and> mset [(''a'', ''1''), (''b'', ''2'')] = mset (evDetails sample_event) \<and>
   Hash id [] (sample_event\<lparr>evDetails := [(''a'', ''1''), (''b'', ''2'')]\<rparr>) = Hash id [] sample_event"
proof -
  have m: "mset [(''a'', ''1''), (''b'', ''2'')] = mset (evDetails sample_event)"
    by (simp add: sample_event_def)
  show ?thesis
    using m sample_event_wf(2) Hash_iteration_order [OF sample_event_wf(2) m, of id "[]"] by simp
qed

end
