(* ===== verification/AuditStore.thy ===== *)
theory AuditStore
  imports AuditChain "HOL-Library.Product_Lexorder" "HOL-Library.Sublist"
begin

text \<open>
  The audit store: \<^verbatim>\<open>services/audit/internal/store/store.go\<close> over its two tables
  (\<^verbatim>\<open>chains\<close>: the head of each tenant's chain, \<^verbatim>\<open>events\<close>: the trail), with the keys and
  checks of \<^verbatim>\<open>migrations/0001\<close> as the conditions under which an \<^verbatim>\<open>INSERT\<close> succeeds.

  A transaction is a function of the database: \<open>None\<close> is a statement that failed, which rolls
  the transaction back.
\<close>

record row =
  rowEvent :: event
  rowHash :: bytes
  rowPrev :: bytes

record chain_head =
  chTenant :: string
  chSequence :: int
  chHash :: bytes

record audit_db =
  dbChains :: "chain_head list"
  dbEvents :: "row list"

abbreviation rowTenant :: "row \<Rightarrow> string" where "rowTenant r \<equiv> evTenantID (rowEvent r)"
abbreviation rowSeq :: "row \<Rightarrow> int" where "rowSeq r \<equiv> evSequence (rowEvent r)"
abbreviation rowID :: "row \<Rightarrow> string" where "rowID r \<equiv> evEventID (rowEvent r)"

definition rows_of :: "string \<Rightarrow> audit_db \<Rightarrow> row list" where
  "rows_of t db = filter (\<lambda>r. rowTenant r = t) (dbEvents db)"

subsection \<open>Append\<close>

text \<open>\<^verbatim>\<open>INSERT INTO events\<close>: refused by the primary key, the unique event id or the check.\<close>

definition insert_event :: "row \<Rightarrow> audit_db \<Rightarrow> audit_db option" where
  "insert_event r db =
     (if rowSeq r < 1 \<or>
         (\<exists>x \<in> set (dbEvents db). rowTenant x = rowTenant r \<and> (rowSeq x = rowSeq r \<or> rowID x = rowID r))
      then None
      else Some (db\<lparr>dbEvents := dbEvents db @ [r]\<rparr>))"

fun insert_batch :: "row list \<Rightarrow> audit_db \<Rightarrow> audit_db option" where
  "insert_batch [] db = Some db"
| "insert_batch (r # rs) db = (case insert_event r db of None \<Rightarrow> None | Some db' \<Rightarrow> insert_batch rs db')"

text \<open>\<^verbatim>\<open>INSERT INTO chains .. ON CONFLICT DO NOTHING\<close>, and the head that is then read and locked.\<close>

definition ensure_chain :: "string \<Rightarrow> audit_db \<Rightarrow> audit_db" where
  "ensure_chain t db =
     (if query_row (\<lambda>h. chTenant h = t) (dbChains db) = None
      then db\<lparr>dbChains := dbChains db @ [\<lparr>chTenant = t, chSequence = 0, chHash = []\<rparr>]\<rparr>
      else db)"

definition chain_of :: "string \<Rightarrow> audit_db \<Rightarrow> int \<times> bytes" where
  "chain_of t db =
     (case query_row (\<lambda>h. chTenant h = t) (dbChains db) of
        None \<Rightarrow> (0, []) | Some h \<Rightarrow> (chSequence h, chHash h))"

text \<open>The loop over a tenant's events: the rows to insert, the new head, and the two counts.\<close>

fun append_loop :: "(bytes \<Rightarrow> bytes) \<Rightarrow> string \<Rightarrow> int \<Rightarrow> event list \<Rightarrow> string list \<Rightarrow> int \<Rightarrow> bytes
    \<Rightarrow> row list \<times> int \<times> bytes \<times> nat \<times> nat" where
  "append_loop sha source recordTime [] seen sequence prev = ([], sequence, prev, 0, 0)"
| "append_loop sha source recordTime (e # es) seen sequence prev =
     (if evEventID e \<in> set seen
      then (case append_loop sha source recordTime es seen sequence prev of
              (b, s, p, r, d) \<Rightarrow> (b, s, p, r, Suc d))
      else (let e' = e\<lparr>evSequence := sequence + 1, evSource := source, evRecordTime := recordTime\<rparr>;
                hash = Hash sha prev e'
            in case append_loop sha source recordTime es (seen @ [evEventID e]) (sequence + 1) hash of
                 (b, s, p, r, d) \<Rightarrow> (\<lparr>rowEvent = e', rowHash = hash, rowPrev = prev\<rparr> # b, s, p, Suc r, d)))"

definition appendTenant :: "(bytes \<Rightarrow> bytes) \<Rightarrow> string \<Rightarrow> string \<Rightarrow> int \<Rightarrow> event list \<Rightarrow> audit_db
    \<Rightarrow> (nat \<times> nat \<times> audit_db) option" where
  "appendTenant sha tenant source recordTime events db0 =
     (let db = ensure_chain tenant db0;
          (sequence, prev) = chain_of tenant db;
          ids = map evEventID events;
          seen = map rowID (filter (\<lambda>r. rowID r \<in> set ids) (rows_of tenant db));
          (batch, sequence', prev', recorded, duplicates) =
            append_loop sha source recordTime events seen sequence prev
      in if recorded = 0 then Some (0, duplicates, db)
         else case insert_batch batch db of
                None \<Rightarrow> None
              | Some db' \<Rightarrow>
                  Some (recorded, duplicates,
                    db'\<lparr>dbChains := update_where (\<lambda>h. chTenant h = tenant)
                          (\<lambda>h. h\<lparr>chSequence := sequence', chHash := prev'\<rparr>) (dbChains db')\<rparr>))"

definition byTenant :: "event list \<Rightarrow> string \<Rightarrow> event list" where
  "byTenant events t = filter (\<lambda>e. evTenantID e = t) events"

fun append_tenants :: "(bytes \<Rightarrow> bytes) \<Rightarrow> string \<Rightarrow> int \<Rightarrow> event list \<Rightarrow> string list \<Rightarrow> audit_db
    \<Rightarrow> (nat \<times> nat \<times> audit_db) option" where
  "append_tenants sha source recordTime events [] db = Some (0, 0, db)"
| "append_tenants sha source recordTime events (t # ts) db =
     (case appendTenant sha t source recordTime (byTenant events t) db of
        None \<Rightarrow> None
      | Some (r, d, db') \<Rightarrow>
          (case append_tenants sha source recordTime events ts db' of
             None \<Rightarrow> None
           | Some (rs, ds, db'') \<Rightarrow> Some (r + rs, d + ds, db'')))"

text \<open>\<open>now\<close> is the store's clock, truncated to the chain's precision.\<close>

definition Append :: "(bytes \<Rightarrow> bytes) \<Rightarrow> int \<Rightarrow> string \<Rightarrow> event list \<Rightarrow> audit_db
    \<Rightarrow> (nat \<times> nat \<times> audit_db) option" where
  "Append sha now source events db =
     append_tenants sha source (now - now mod Precision) events
       (sort (remdups (map evTenantID events))) db"

subsection \<open>List\<close>

record audit_cursor =
  cuOccurTime :: int
  cuSequence :: int

record audit_filter =
  fiTenantID :: string
  fiUserID :: string
  fiActionPrefix :: string
  fiSince :: "int option"
  fiUntil :: "int option"
  fiPageSize :: nat
  fiAfter :: "audit_cursor option"

text \<open>\<^verbatim>\<open>strings.NewReplacer\<close> with one-byte patterns replaces byte by byte.\<close>

definition like_escape :: "char \<Rightarrow> string" where
  "like_escape c =
     (if c = CHR 92 then [CHR 92, CHR 92]
      else if c = CHR ''%'' then [CHR 92, CHR ''%'']
      else if c = CHR ''_'' then [CHR 92, CHR ''_'']
      else [c])"

definition likePrefix :: "string \<Rightarrow> string" where
  "likePrefix p = concat (map like_escape p) @ ''%''"

text \<open>SQL's \<^verbatim>\<open>LIKE .. ESCAPE '\'\<close>, the operator the query uses it with.\<close>

fun like :: "string \<Rightarrow> string \<Rightarrow> bool" where
  "like [] s = (s = [])"
| "like (p # ps) s =
     (if p = CHR ''%'' then like ps s \<or> (case s of [] \<Rightarrow> False | _ # s' \<Rightarrow> like (p # ps) s')
      else if p = CHR ''_'' then (case s of [] \<Rightarrow> False | _ # s' \<Rightarrow> like ps s')
      else if p = CHR 92
        then (case ps of [] \<Rightarrow> False
              | q # qs \<Rightarrow> (case s of [] \<Rightarrow> False | c # s' \<Rightarrow> c = q \<and> like qs s'))
      else (case s of [] \<Rightarrow> False | c # s' \<Rightarrow> c = p \<and> like ps s'))"

definition row_key :: "row \<Rightarrow> int \<times> int" where
  "row_key r = (evOccurTime (rowEvent r), rowSeq r)"

definition list_where :: "audit_filter \<Rightarrow> row \<Rightarrow> bool" where
  "list_where f r \<longleftrightarrow>
     rowTenant r = fiTenantID f \<and>
     (fiUserID f = [] \<or> evActorID (rowEvent r) = fiUserID f \<or> evOnBehalfOf (rowEvent r) = fiUserID f) \<and>
     (fiActionPrefix f = [] \<or> like (likePrefix (fiActionPrefix f)) (evAction (rowEvent r))) \<and>
     (case fiSince f of None \<Rightarrow> True | Some t \<Rightarrow> evOccurTime (rowEvent r) \<ge> t) \<and>
     (case fiUntil f of None \<Rightarrow> True | Some t \<Rightarrow> evOccurTime (rowEvent r) < t)"

definition after_where :: "audit_cursor option \<Rightarrow> row \<Rightarrow> bool" where
  "after_where c r =
     (case c of None \<Rightarrow> True | Some c \<Rightarrow> row_key r < (cuOccurTime c, cuSequence c))"

definition list_query :: "audit_filter \<Rightarrow> audit_db \<Rightarrow> row list" where
  "list_query f db =
     take (fiPageSize f + 1)
       (rev (sort_key row_key (filter (\<lambda>r. list_where f r \<and> after_where (fiAfter f) r) (dbEvents db))))"

text \<open>
  Slicing and indexing as in the code: with a page size of zero, \<^verbatim>\<open>records[len(records)-1]\<close>
  panics (\<open>None\<close>); the handler only asks for 1 to 200.
\<close>

definition List_events :: "audit_filter \<Rightarrow> audit_db \<Rightarrow> (row list \<times> audit_cursor option) option" where
  "List_events f db =
     (let records = list_query f db
      in if length records \<le> fiPageSize f then Some (records, None)
         else (let page = take (fiPageSize f) records
               in if page = [] then None
                  else Some (page, Some \<lparr>cuOccurTime = evOccurTime (rowEvent (last page)),
                                         cuSequence = rowSeq (last page)\<rparr>)))"

subsection \<open>Verify\<close>

record verification =
  veIntact :: bool
  veEvents :: int
  veFirstBroken :: int
  veHead :: bytes

definition broken :: "int \<Rightarrow> verification \<Rightarrow> verification" where
  "broken sequence v = (if veIntact v then v\<lparr>veIntact := False, veFirstBroken := sequence\<rparr> else v)"

definition verify_row :: "(bytes \<Rightarrow> bytes) \<Rightarrow> row \<Rightarrow> verification \<times> bytes \<Rightarrow> verification \<times> bytes" where
  "verify_row sha r = (\<lambda>(v, prev).
     let expected = veEvents v + 1;
         v1 = (if rowSeq r \<noteq> expected then broken expected v else v);
         computed = Hash sha prev (rowEvent r);
         v2 = (if rowPrev r \<noteq> prev \<or> rowHash r \<noteq> computed then broken (rowSeq r) v1 else v1)
     in (v2\<lparr>veEvents := rowSeq r\<rparr>, computed))"

definition verifyPage :: nat where
  "verifyPage = 1000"

text \<open>\<^verbatim>\<open>WHERE tenant_id = $1 AND sequence > $2 ORDER BY sequence LIMIT $3\<close>\<close>

definition verify_query :: "row list \<Rightarrow> string \<Rightarrow> int \<Rightarrow> nat \<Rightarrow> row list" where
  "verify_query rows t after limit =
     take limit (sort_key rowSeq (filter (\<lambda>r. rowTenant r = t \<and> rowSeq r > after) rows))"

text \<open>
  The loop ends when a page is short.  Every full page moves \<^verbatim>\<open>v.Events\<close> past rows that were
  still ahead, so it terminates.  (The page size is never zero; with zero the query would
  return nothing for ever, so that case is cut off.)
\<close>

lemma veEvents_broken [simp]: "veEvents (broken s v) = veEvents v"
  by (simp add: broken_def)

lemma veEvents_verify_row [simp]: "veEvents (fst (verify_row sha r s)) = rowSeq r"
  by (simp add: verify_row_def Let_def split: prod.splits)

lemma veEvents_fold_verify_row:
  "veEvents (fst (fold (verify_row sha) rs s)) = (if rs = [] then veEvents (fst s) else rowSeq (last rs))"
  by (induction rs arbitrary: s) auto

lemma verify_query_set: "set (verify_query rows t a n) \<subseteq> {r \<in> set rows. rowTenant r = t \<and> rowSeq r > a}"
  using set_take_subset [of n] by (fastforce simp: verify_query_def)

function verify_loop :: "(bytes \<Rightarrow> bytes) \<Rightarrow> row list \<Rightarrow> string \<Rightarrow> nat \<Rightarrow> verification \<times> bytes \<Rightarrow> verification \<times> bytes" where
  "verify_loop sha rows t page s =
     (let rs = verify_query rows t (veEvents (fst s)) page;
          s' = fold (verify_row sha) rs s
      in if length rs < page \<or> page = 0 then s' else verify_loop sha rows t page s')"
  by pat_completeness auto
termination
proof (relation "measure (\<lambda>(sha, rows, t, page, s). length (filter (\<lambda>r. rowSeq r > veEvents (fst s)) rows))", goal_cases)
  case 1
  show ?case by simp
next
  case (2 sha rows t page s rs s')
  then have ne: "rs \<noteq> []" by auto
  then have "last rs \<in> {r \<in> set rows. rowTenant r = t \<and> rowSeq r > veEvents (fst s)}"
    using 2(1) verify_query_set last_in_set [OF ne] by blast
  then have l: "last rs \<in> set rows" "rowSeq (last rs) > veEvents (fst s)" by simp_all
  have v: "veEvents (fst s') = rowSeq (last rs)"
    using ne 2(2) by (simp add: veEvents_fold_verify_row)
  have "filter (\<lambda>r. rowSeq r > rowSeq (last rs)) rows
      = filter (\<lambda>r. rowSeq r > rowSeq (last rs)) (filter (\<lambda>r. rowSeq r > veEvents (fst s)) rows)"
    using l(2) by (auto intro: filter_cong)
  also have "length \<dots> < length (filter (\<lambda>r. rowSeq r > veEvents (fst s)) rows)"
    by (rule length_filter_less [of "last rs"]) (use l in auto)
  finally show ?case using v by simp
qed

declare verify_loop.simps [simp del]

definition Verify_from :: "(bytes \<Rightarrow> bytes) \<Rightarrow> string \<Rightarrow> nat \<Rightarrow> audit_db \<Rightarrow> verification" where
  "Verify_from sha t page db =
     (let (headSequence, headHash) = chain_of t db;
          (v, prev) = verify_loop sha (dbEvents db) t page
                        (\<lparr>veIntact = True, veEvents = 0, veFirstBroken = 0, veHead = []\<rparr>, []);
          v' = (if headSequence \<noteq> veEvents v \<or> headHash \<noteq> prev then broken (veEvents v + 1) v else v)
      in v'\<lparr>veHead := prev\<rparr>)"

definition Verify :: "(bytes \<Rightarrow> bytes) \<Rightarrow> string \<Rightarrow> audit_db \<Rightarrow> verification" where
  "Verify sha t db = Verify_from sha t verifyPage db"

subsection \<open>Heads\<close>

definition Heads :: "audit_db \<Rightarrow> chain_head list" where
  "Heads db = sort_key chTenant (dbChains db)"

subsection \<open>Escaping\<close>

lemma like_percent: "like ''%'' s"
  by (induction s) auto

lemma like_escaped: "like (like_escape c @ ps) s \<longleftrightarrow> (\<exists>s'. s = c # s' \<and> like ps s')"
  by (cases s) (auto simp: like_escape_def)

lemma like_likePrefix: "like (likePrefix p) s \<longleftrightarrow> prefix p s"
proof (induction p arbitrary: s)
  case Nil
  then show ?case by (simp add: likePrefix_def like_percent del: like.simps)
next
  case (Cons c p)
  then show ?case
    by (cases s) (auto simp: likePrefix_def like_escaped simp del: like.simps)
qed

subsection \<open>Linked rows\<close>

text \<open>What a tenant's rows are, in sequence order: numbered without a gap, each hashed onto the one before.\<close>

fun linked :: "(bytes \<Rightarrow> bytes) \<Rightarrow> bytes \<Rightarrow> int \<Rightarrow> row list \<Rightarrow> bool" where
  "linked sha prev n [] = True"
| "linked sha prev n (r # rs) \<longleftrightarrow>
     rowSeq r = n \<and> rowPrev r = prev \<and> rowHash r = Hash sha prev (rowEvent r) \<and> linked sha (rowHash r) (n + 1) rs"

definition chain_end :: "bytes \<Rightarrow> row list \<Rightarrow> bytes" where
  "chain_end prev rs = (if rs = [] then prev else rowHash (last rs))"

lemma chain_end_simps [simp]:
  "chain_end prev [] = prev"
  "chain_end prev (r # rs) = chain_end (rowHash r) rs"
  "chain_end prev (rs @ [r]) = rowHash r"
  by (auto simp: chain_end_def)

lemma linked_append:
  "linked sha p n (xs @ ys) \<longleftrightarrow> linked sha p n xs \<and> linked sha (chain_end p xs) (n + int (length xs)) ys"
  by (induction xs arbitrary: p n) (auto simp: add.assoc)

lemma chain_end_append: "chain_end p (xs @ ys) = chain_end (chain_end p xs) ys"
  by (induction xs arbitrary: p) auto

lemma linked_seqs: "linked sha p n rs \<Longrightarrow> map rowSeq rs = [n..n + int (length rs) - 1]"
proof (induction rs arbitrary: p n)
  case Nil
  then show ?case by simp
next
  case (Cons r rs)
  then have "map rowSeq rs = [n + 1..n + 1 + int (length rs) - 1]" by (auto simp del: upto.simps)
  with Cons.prems show ?case by (simp add: upto_rec1 [of n])
qed

lemma linked_distinct: "linked sha p n rs \<Longrightarrow> distinct (map rowSeq rs)"
  by (metis linked_seqs distinct_upto)

lemma linked_sorted: "linked sha p n rs \<Longrightarrow> sorted (map rowSeq rs)"
  by (metis linked_seqs sorted_upto)

lemma linked_range: "linked sha p n rs \<Longrightarrow> r \<in> set rs \<Longrightarrow> n \<le> rowSeq r \<and> rowSeq r < n + int (length rs)"
proof -
  assume "linked sha p n rs" "r \<in> set rs"
  then have "rowSeq r \<in> set [n..n + int (length rs) - 1]"
    by (metis linked_seqs image_eqI set_map)
  then show ?thesis by simp
qed

text \<open>The trail's invariant: every tenant's rows are linked and the tenant's head is their end.\<close>

definition trail_ok :: "(bytes \<Rightarrow> bytes) \<Rightarrow> audit_db \<Rightarrow> bool" where
  "trail_ok sha db \<longleftrightarrow>
     distinct (map chTenant (dbChains db)) \<and>
     (\<forall>t. linked sha [] 1 (rows_of t db) \<and> distinct (map rowID (rows_of t db)) \<and>
          chain_of t db = (int (length (rows_of t db)), chain_end [] (rows_of t db)))"

lemma trail_okD:
  assumes "trail_ok sha db"
  shows "linked sha [] 1 (rows_of t db)" "distinct (map rowID (rows_of t db))"
    "chain_of t db = (int (length (rows_of t db)), chain_end [] (rows_of t db))"
  using assms by (auto simp: trail_ok_def)

subsection \<open>Append keeps the trail\<close>

lemma append_loop_spec:
  assumes "append_loop sha src rt es seen n prev = (b, s, p, r, d)"
  shows "linked sha prev (n + 1) b \<and> s = n + int (length b) \<and> p = chain_end prev b \<and> r = length b \<and>
    r + d = length es \<and> distinct (map rowID b) \<and> set (map rowID b) = set (map evEventID es) - set seen \<and>
    (\<forall>x \<in> set b. rowTenant x \<in> evTenantID ` set es \<and> evSource (rowEvent x) = src \<and> evRecordTime (rowEvent x) = rt)"
  using assms
proof (induction es arbitrary: seen n prev b s p r d)
  case Nil
  then show ?case by simp
next
  case (Cons e es)
  show ?case
  proof (cases "evEventID e \<in> set seen")
    case True
    with Cons.prems obtain d' where d: "append_loop sha src rt es seen n prev = (b, s, p, r, d')" "d = Suc d'"
      by (auto split: prod.splits)
    from Cons.IH [OF d(1)] True d(2) show ?thesis by auto
  next
    case False
    let ?e = "e\<lparr>evSequence := n + 1, evSource := src, evRecordTime := rt\<rparr>"
    obtain b' s' p' r' d' where
      l: "append_loop sha src rt es (seen @ [evEventID e]) (n + 1) (Hash sha prev ?e) = (b', s', p', r', d')"
      by (metis prod_cases5)
    with False Cons.prems have b: "b = \<lparr>rowEvent = ?e, rowHash = Hash sha prev ?e, rowPrev = prev\<rparr> # b'"
        "s = s'" "p = p'" "r = Suc r'" "d = d'"
      by (simp_all add: Let_def)
    from Cons.IH [OF l] show ?thesis
      unfolding b by (auto simp: False)
  qed
qed

lemma insert_batch_ok:
  assumes "\<forall>r \<in> set b. rowTenant r = t \<and> 1 \<le> rowSeq r" "distinct (map rowSeq b)" "distinct (map rowID b)"
    "\<forall>x \<in> set (rows_of t db). rowSeq x \<notin> rowSeq ` set b \<and> rowID x \<notin> rowID ` set b"
  shows "insert_batch b db = Some (db\<lparr>dbEvents := dbEvents db @ b\<rparr>)"
  using assms
proof (induction b arbitrary: db)
  case Nil
  then show ?case by simp
next
  case (Cons r b)
  let ?db = "db\<lparr>dbEvents := dbEvents db @ [r]\<rparr>"
  have "insert_event r db = Some ?db"
    using Cons.prems by (auto simp: insert_event_def rows_of_def)
  moreover have "insert_batch b ?db = Some (?db\<lparr>dbEvents := dbEvents ?db @ b\<rparr>)"
    by (rule Cons.IH) (use Cons.prems in \<open>auto simp: rows_of_def\<close>)
  ultimately show ?case by simp
qed

lemma ensure_chain_simps [simp]:
  "dbEvents (ensure_chain t db) = dbEvents db" "rows_of u (ensure_chain t db) = rows_of u db"
  by (simp_all add: ensure_chain_def rows_of_def)

lemma query_row_append [simp]:
  "query_row P (xs @ ys) = (case query_row P xs of None \<Rightarrow> query_row P ys | Some r \<Rightarrow> Some r)"
  by (induction xs) auto

lemma chain_of_ensure [simp]: "chain_of u (ensure_chain t db) = chain_of u db"
  by (auto simp: ensure_chain_def chain_of_def split: option.splits)

lemma ensure_chain_has: "\<exists>h \<in> set (dbChains (ensure_chain t db)). chTenant h = t"
  by (auto simp: ensure_chain_def query_row_None split: option.splits)

lemma ensure_chain_tenants: "chTenant ` set (dbChains (ensure_chain t db)) = insert t (chTenant ` set (dbChains db))"
  by (auto simp: ensure_chain_def query_row_None split: option.splits)

lemma ensure_chain_id: "t \<in> chTenant ` set (dbChains db) \<Longrightarrow> ensure_chain t db = db"
  by (auto simp: ensure_chain_def query_row_None)

lemma ensure_chain_trail_ok: "trail_ok sha db \<Longrightarrow> trail_ok sha (ensure_chain t db)"
  by (auto simp: trail_ok_def) (auto simp: ensure_chain_def query_row_None split: option.splits)

lemma query_row_update_head:
  "query_row (\<lambda>h. chTenant h = u) (update_where (\<lambda>h. chTenant h = t) (\<lambda>h. h\<lparr>chSequence := s, chHash := p\<rparr>) hs) =
   map_option (\<lambda>h. if chTenant h = t then h\<lparr>chSequence := s, chHash := p\<rparr> else h) (query_row (\<lambda>h. chTenant h = u) hs)"
  by (induction hs) auto

lemma map_tenant_update_head [simp]:
  "map chTenant (update_where (\<lambda>h. chTenant h = t) (\<lambda>h. h\<lparr>chSequence := s, chHash := p\<rparr>) hs) = map chTenant hs"
  by (rule map_update_where) simp

lemma tenants_update_head [simp]:
  "chTenant ` set (update_where (\<lambda>h. chTenant h = t) (\<lambda>h. h\<lparr>chSequence := s, chHash := p\<rparr>) hs) = chTenant ` set hs"
  by (metis list.set_map map_tenant_update_head)

text \<open>The rows \<open>appendTenant\<close> adds for a batch.\<close>

definition new_rows :: "(bytes \<Rightarrow> bytes) \<Rightarrow> string \<Rightarrow> string \<Rightarrow> int \<Rightarrow> event list \<Rightarrow> audit_db \<Rightarrow> row list" where
  "new_rows sha t source rt es db =
     fst (append_loop sha source rt es
            (map rowID (filter (\<lambda>r. rowID r \<in> set (map evEventID es)) (rows_of t db)))
            (int (length (rows_of t db))) (chain_end [] (rows_of t db)))"

lemma new_rows_spec:
  fixes sha t source rt es db
  defines "b \<equiv> new_rows sha t source rt es db"
  shows "linked sha (chain_end [] (rows_of t db)) (int (length (rows_of t db)) + 1) b"
    and "distinct (map rowID b)" and "set (map rowID b) = set (map evEventID es) - set (map rowID (rows_of t db))"
    and "\<forall>x \<in> set b. rowTenant x \<in> evTenantID ` set es \<and> evSource (rowEvent x) = source \<and> evRecordTime (rowEvent x) = rt"
    and "length b \<le> length es"
proof -
  let ?seen = "map rowID (filter (\<lambda>r. rowID r \<in> set (map evEventID es)) (rows_of t db))"
  obtain b' s p r d where l: "append_loop sha source rt es ?seen (int (length (rows_of t db)))
      (chain_end [] (rows_of t db)) = (b', s, p, r, d)"
    by (metis prod_cases5)
  then have "b = b'" by (simp add: b_def new_rows_def)
  moreover have "set (map evEventID es) - set ?seen = set (map evEventID es) - set (map rowID (rows_of t db))"
    by (auto simp: image_iff) (metis imageI)
  moreover note append_loop_spec [OF l]
  ultimately
  show "linked sha (chain_end [] (rows_of t db)) (int (length (rows_of t db)) + 1) b"
    and "distinct (map rowID b)" and "set (map rowID b) = set (map evEventID es) - set (map rowID (rows_of t db))"
    and "\<forall>x \<in> set b. rowTenant x \<in> evTenantID ` set es \<and> evSource (rowEvent x) = source \<and> evRecordTime (rowEvent x) = rt"
    and "length b \<le> length es"
    by auto
qed

lemma appendTenant_eq:
  fixes sha t source rt es db
  defines "b \<equiv> new_rows sha t source rt es db"
  assumes ok: "trail_ok sha db" and t: "\<forall>e \<in> set es. evTenantID e = t"
  obtains db' where "appendTenant sha t source rt es db = Some (length b, length es - length b, db')"
    "trail_ok sha db'" "dbEvents db' = dbEvents db @ b"
    "chTenant ` set (dbChains db') = insert t (chTenant ` set (dbChains db))"
proof -
  note spec = new_rows_spec [where sha = sha and t = t and db = db and source = source and rt = rt and es = es, folded b_def]
  let ?db = "ensure_chain t db"
  have ok': "trail_ok sha ?db" using ok by (rule ensure_chain_trail_ok)
  obtain s p r d where l: "append_loop sha source rt es
      (map rowID (filter (\<lambda>r. rowID r \<in> set (map evEventID es)) (rows_of t db)))
      (int (length (rows_of t db))) (chain_end [] (rows_of t db)) = (b, s, p, r, d)"
    unfolding b_def new_rows_def by (metis prod.collapse)
  from append_loop_spec [OF l] have s: "s = int (length (rows_of t db)) + int (length b)"
    and p: "p = chain_end (chain_end [] (rows_of t db)) b" and r: "r = length b"
    and d: "d = length es - length b"
    by auto
  have tb: "\<forall>x \<in> set b. rowTenant x = t" using spec(4) t by auto
  show ?thesis
  proof (cases "b = []")
    case True
    then have "appendTenant sha t source rt es db = Some (length b, length es - length b, ?db)"
      using l r d trail_okD(3) [OF ok, of t] by (simp add: appendTenant_def)
    with True ok' that [of ?db] show ?thesis by (simp add: ensure_chain_tenants)
  next
    case False
    let ?db' = "?db\<lparr>dbEvents := dbEvents db @ b,
      dbChains := update_where (\<lambda>h. chTenant h = t) (\<lambda>h. h\<lparr>chSequence := s, chHash := p\<rparr>) (dbChains ?db)\<rparr>"
    have ins: "insert_batch b ?db = Some (?db\<lparr>dbEvents := dbEvents ?db @ b\<rparr>)"
    proof (rule insert_batch_ok [where t = t])
      show "\<forall>r \<in> set b. rowTenant r = t \<and> 1 \<le> rowSeq r"
        using tb linked_range [OF spec(1)] by (metis add.commute le_add_same_cancel1 of_nat_0_le_iff order_trans)
      show "distinct (map rowSeq b)" using spec(1) by (rule linked_distinct)
      show "distinct (map rowID b)" by (rule spec(2))
      show "\<forall>x \<in> set (rows_of t ?db). rowSeq x \<notin> rowSeq ` set b \<and> rowID x \<notin> rowID ` set b"
        using linked_range [OF trail_okD(1) [OF ok, of t]] linked_range [OF spec(1)] spec(3) by fastforce
    qed
    then have eq: "appendTenant sha t source rt es db = Some (length b, length es - length b, ?db')"
      using l r d False trail_okD(3) [OF ok, of t] by (simp add: appendTenant_def Let_def)
    have rows: "rows_of u ?db' = rows_of u db @ (if u = t then b else [])" for u
      using tb by (auto simp: rows_of_def filter_empty_conv)
    have head: "chain_of u ?db' = (if u = t then (s, p) else chain_of u db)" for u
    proof -
      have "query_row (\<lambda>h. chTenant h = t) (dbChains ?db) \<noteq> None"
        using ensure_chain_has [of t db] by (auto simp: query_row_None)
      then have "chain_of u ?db' = (if u = t then (s, p) else chain_of u ?db)"
        by (auto simp: chain_of_def query_row_update_head split: option.splits dest: query_row_Some)
      then show ?thesis by simp
    qed
    have "trail_ok sha ?db'"
      unfolding trail_ok_def
    proof (intro conjI allI)
      show "distinct (map chTenant (dbChains ?db'))" using ok' by (simp add: trail_ok_def)
      fix u
      show "linked sha [] 1 (rows_of u ?db')"
        using trail_okD(1) [OF ok, of u] spec(1) by (simp add: rows linked_append add.commute)
      show "distinct (map rowID (rows_of u ?db'))"
        using trail_okD(2) [OF ok, of u] spec(2,3) unfolding rows by auto
      show "chain_of u ?db' = (int (length (rows_of u ?db')), chain_end [] (rows_of u ?db'))"
        using trail_okD(3) [OF ok, of u] unfolding rows head by (simp add: chain_end_append s p)
    qed
    moreover have "chTenant ` set (dbChains ?db') = insert t (chTenant ` set (dbChains db))"
      by (simp add: ensure_chain_tenants)
    ultimately show ?thesis using eq that [of ?db'] by simp
  qed
qed

lemma byTenant_tenant: "\<forall>e \<in> set (byTenant es t). evTenantID e = t"
  by (simp add: byTenant_def)

lemma append_tenants_ok:
  assumes "trail_ok sha db"
  shows "\<exists>r d db' new. append_tenants sha source rt es ts db = Some (r, d, db') \<and> trail_ok sha db' \<and>
    dbEvents db' = dbEvents db @ new \<and> r = length new \<and> r + d = length (concat (map (byTenant es) ts)) \<and>
    (\<forall>x \<in> set new. evSource (rowEvent x) = source \<and> evRecordTime (rowEvent x) = rt)"
  using assms
proof (induction ts arbitrary: db)
  case Nil
  then show ?case by simp
next
  case (Cons t ts)
  let ?b = "new_rows sha t source rt (byTenant es t) db"
  obtain db1 where a: "appendTenant sha t source rt (byTenant es t) db
      = Some (length ?b, length (byTenant es t) - length ?b, db1)" "trail_ok sha db1" "dbEvents db1 = dbEvents db @ ?b"
    using appendTenant_eq [OF Cons.prems byTenant_tenant] by metis
  from Cons.IH [OF a(2)] obtain r d db' new where
    "append_tenants sha source rt es ts db1 = Some (r, d, db')" "trail_ok sha db'"
    "dbEvents db' = dbEvents db1 @ new" "r = length new" "r + d = length (concat (map (byTenant es) ts))"
    "\<forall>x \<in> set new. evSource (rowEvent x) = source \<and> evRecordTime (rowEvent x) = rt"
    by blast
  with a show ?case
    using new_rows_spec(4,5) [where sha = sha and t = t and db = db and source = source and rt = rt and es = "byTenant es t"] by auto
qed

lemma length_byTenants:
  "distinct ts \<Longrightarrow> evTenantID ` set es \<subseteq> set ts \<Longrightarrow> length (concat (map (byTenant es) ts)) = length es"
proof (induction es)
  case Nil
  then show ?case by (simp add: byTenant_def)
next
  case (Cons e es)
  have "length (concat (map (byTenant (e # es)) ts)) =
      length (concat (map (byTenant es) ts)) + length (filter (\<lambda>t. evTenantID e = t) ts)"
    by (induction ts) (auto simp: byTenant_def)
  moreover have "filter (\<lambda>t. evTenantID e = t) ts = [evTenantID e]"
    using Cons.prems filter_key_unique [of id ts "evTenantID e" "\<lambda>_. True"] by (auto simp: eq_commute)
  ultimately show ?case using Cons by simp
qed

subsection \<open>Verify, in pages and in one pass\<close>

lemma filter_after_drop:
  assumes "sorted_wrt R L" "\<And>a b. R a b \<Longrightarrow> \<not> R b a" "0 < n" "n \<le> length L"
  shows "filter (R (last (take n L))) L = drop n L"
proof -
  have last: "last (take n L) = L ! (n - 1)"
    using assms(3,4) by (subst last_conv_nth) auto
  have "\<not> R (L ! (n - 1)) r" if r: "r \<in> set (take n L)" for r
  proof -
    from r obtain i where i: "i < n" "i < length L" "r = L ! i" by (auto simp: in_set_conv_nth)
    show ?thesis
    proof (cases "i = n - 1")
      case True
      with i assms(2) show ?thesis by blast
    next
      case False
      with i have "R (L ! i) (L ! (n - 1))"
        using assms(3,4) by (intro sorted_wrt_nth_less [OF assms(1)]) auto
      with i assms(2) show ?thesis by blast
    qed
  qed
  then have 1: "filter (R (L ! (n - 1))) (take n L) = []" by (simp add: filter_empty_conv)
  have "R (L ! (n - 1)) r" if r: "r \<in> set (drop n L)" for r
  proof -
    from r obtain i where "i < length L - n" "r = L ! (n + i)" by (auto simp: in_set_conv_nth)
    with assms(1,3) show ?thesis by (auto intro: sorted_wrt_nth_less)
  qed
  then have 2: "filter (R (L ! (n - 1))) (drop n L) = drop n L" by (simp add: filter_id_conv)
  have "filter (R (L ! (n - 1))) (take n L @ drop n L) = drop n L"
    unfolding filter_append 1 2 by simp
  then show ?thesis by (simp add: last)
qed

definition sorted_rows :: "row list \<Rightarrow> string \<Rightarrow> int \<Rightarrow> row list" where
  "sorted_rows rows t a = sort_key rowSeq (filter (\<lambda>r. rowTenant r = t \<and> rowSeq r > a) rows)"

lemma sorted_rows_props:
  assumes "distinct (map rowSeq (filter (\<lambda>r. rowTenant r = t) rows))"
  shows "sorted_wrt (\<lambda>x y. rowSeq x < rowSeq y) (sorted_rows rows t a)"
proof -
  have "filter (\<lambda>r. rowTenant r = t \<and> rowSeq r > a) rows = filter (\<lambda>r. rowSeq r > a) (filter (\<lambda>r. rowTenant r = t) rows)"
    by (simp add: conj_commute)
  with assms have "distinct (map rowSeq (filter (\<lambda>r. rowTenant r = t \<and> rowSeq r > a) rows))"
    by (metis distinct_map_filter)
  then have "distinct (map rowSeq (sorted_rows rows t a))"
    by (simp add: sorted_rows_def distinct_map inj_on_def)
  moreover have "sorted (map rowSeq (sorted_rows rows t a))"
    by (simp add: sorted_rows_def)
  ultimately have "sorted_wrt (<) (map rowSeq (sorted_rows rows t a))"
    by (simp add: strict_sorted_iff)
  then show ?thesis by (simp add: sorted_wrt_map)
qed

lemma sorted_rows_later:
  "a \<le> a' \<Longrightarrow> sorted_rows rows t a' = filter (\<lambda>r. rowSeq r > a') (sorted_rows rows t a)"
  by (auto simp: sorted_rows_def filter_sort intro!: arg_cong [of _ _ "sort_key rowSeq"] filter_cong)

lemma verify_loop_one_pass:
  assumes "distinct (map rowSeq (filter (\<lambda>r. rowTenant r = t) rows))" "0 < page"
  shows "verify_loop sha rows t page s = fold (verify_row sha) (sorted_rows rows t (veEvents (fst s))) s"
  using assms
proof (induction sha rows t page s rule: verify_loop.induct)
  case (1 sha rows t page s)
  define L where "L = sorted_rows rows t (veEvents (fst s))"
  define rs where "rs = take page L"
  have q: "verify_query rows t (veEvents (fst s)) page = rs"
    by (simp add: verify_query_def rs_def L_def sorted_rows_def)
  note L = sorted_rows_props [OF "1.prems"(1), of "veEvents (fst s)", folded L_def]
  show ?case
  proof (cases "length rs < page")
    case True
    then have "rs = L" by (simp add: rs_def)
    with True q show ?thesis by (simp add: verify_loop.simps [of sha rows t page s] L_def)
  next
    case False
    let ?s = "fold (verify_row sha) rs s"
    from False "1.prems"(2) have ne: "rs \<noteq> []" "page \<le> length L" by (auto simp: rs_def)
    have ev: "veEvents (fst ?s) = rowSeq (last rs)"
      using ne by (simp add: veEvents_fold_verify_row)
    have "last rs \<in> set L" using last_in_set [OF ne(1)] by (auto simp: rs_def dest: in_set_takeD)
    then have "veEvents (fst s) \<le> rowSeq (last rs)" by (auto simp: L_def sorted_rows_def)
    then have "sorted_rows rows t (veEvents (fst ?s)) = filter (\<lambda>r. rowSeq r > rowSeq (last rs)) L"
      unfolding ev L_def by (rule sorted_rows_later)
    also have "\<dots> = drop page L"
      using filter_after_drop [OF L _ "1.prems"(2) ne(2)] by (simp add: rs_def)
    finally have rest: "sorted_rows rows t (veEvents (fst ?s)) = drop page L" .
    have "verify_loop sha rows t page s = verify_loop sha rows t page ?s"
      using False "1.prems"(2) q by (simp add: verify_loop.simps [of sha rows t page s])
    also have "\<dots> = fold (verify_row sha) (drop page L) ?s"
      using "1.IH" [OF q [symmetric] refl] False "1.prems" rest by simp
    also have "\<dots> = fold (verify_row sha) L s"
      by (metis append_take_drop_id comp_apply fold_append rs_def)
    finally show ?thesis by (simp add: L_def)
  qed
qed

lemma veIntact_broken [simp]: "\<not> veIntact (broken s v)"
  by (simp add: broken_def)

lemma verify_fold_broken: "\<not> veIntact v \<Longrightarrow>
    \<not> veIntact (fst (fold (verify_row sha) rs (v, p))) \<and>
    veFirstBroken (fst (fold (verify_row sha) rs (v, p))) = veFirstBroken v"
proof (induction rs arbitrary: v p)
  case Nil
  then show ?case by simp
next
  case (Cons r rs)
  obtain v' p' where r: "verify_row sha r (v, p) = (v', p')" by fastforce
  with Cons.prems have "\<not> veIntact v'" "veFirstBroken v' = veFirstBroken v"
    by (auto simp: verify_row_def Let_def broken_def split: if_splits)
  with Cons.IH [of v' p'] r show ?case by simp
qed

lemma verify_fold_linked:
  assumes "veIntact v"
  shows "veIntact (fst (fold (verify_row sha) rs (v, p))) \<longleftrightarrow> linked sha p (veEvents v + 1) rs"
    and "linked sha p (veEvents v + 1) rs \<Longrightarrow> fold (verify_row sha) rs (v, p) =
           (v\<lparr>veEvents := veEvents v + int (length rs)\<rparr>, chain_end p rs)"
  using assms
proof (induction rs arbitrary: v p)
  case Nil
  case 1
  then show ?case by simp
next
  case Nil
  case 2
  then show ?case by simp
next
  case (Cons r rs)
  define good where "good v p \<longleftrightarrow> rowSeq r = veEvents v + 1 \<and> rowPrev r = p \<and> rowHash r = Hash sha p (rowEvent r)"
    for v :: verification and p
  have ok: "verify_row sha r (v, p) = (v\<lparr>veEvents := veEvents v + 1\<rparr>, rowHash r)" if "good v p" for v p
    using that by (simp add: good_def verify_row_def Let_def)
  have bad: "\<not> veIntact (fst (verify_row sha r (v, p)))" if "\<not> good v p" for v p
    using that by (auto simp: good_def verify_row_def Let_def broken_def)
  {
    case 1
    show ?case
    proof (cases "good v p")
      case True
      then have "fold (verify_row sha) (r # rs) (v, p)
          = fold (verify_row sha) rs (v\<lparr>veEvents := veEvents v + 1\<rparr>, rowHash r)"
        by (simp only: fold_simps(2) ok [OF True])
      moreover have "linked sha p (veEvents v + 1) (r # rs) \<longleftrightarrow> linked sha (rowHash r) (veEvents v + 1 + 1) rs"
        using True by (auto simp: good_def)
      ultimately show ?thesis
        using Cons.IH(1) [where v = "v\<lparr>veEvents := veEvents v + 1\<rparr>" and p = "rowHash r"] 1 by simp
    next
      case False
      then have "\<not> veIntact (fst (fold (verify_row sha) rs (verify_row sha r (v, p))))"
        using bad verify_fold_broken by (metis prod.collapse)
      with False show ?thesis by (auto simp: good_def)
    qed
  next
    case 2
    then have l: "good v p" "linked sha (rowHash r) (veEvents v + 1 + 1) rs" by (auto simp: good_def)
    have "fold (verify_row sha) (r # rs) (v, p)
        = fold (verify_row sha) rs (v\<lparr>veEvents := veEvents v + 1\<rparr>, rowHash r)"
      by (simp only: fold_simps(2) ok [OF l(1)])
    with l(2) Cons.IH(2) [where v = "v\<lparr>veEvents := veEvents v + 1\<rparr>" and p = "rowHash r"] 2 show ?case
      by (simp add: add.assoc)
  }
qed

lemma rows_of_sorted_rows:
  assumes "linked sha [] 1 (rows_of t db)"
  shows "sorted_rows (dbEvents db) t 0 = rows_of t db"
proof -
  have "filter (\<lambda>r. rowTenant r = t \<and> rowSeq r > 0) (dbEvents db) = rows_of t db"
    unfolding rows_of_def using linked_range [OF assms] by (intro filter_cong) (fastforce simp: rows_of_def)+
  with linked_sorted [OF assms] show ?thesis
    by (simp add: sorted_rows_def sort_key_id_if_sorted)
qed

text \<open>What \<open>Verify\<close> decides, whatever is in the tables (as long as the primary key holds).\<close>

definition seq_key :: "string \<Rightarrow> audit_db \<Rightarrow> bool" where
  "seq_key t db \<longleftrightarrow> distinct (map rowSeq (rows_of t db))"

lemma Verify_from_unfold:
  fixes t db sha
  defines "rs \<equiv> sorted_rows (dbEvents db) t 0"
    and "v0 \<equiv> \<lparr>veIntact = True, veEvents = 0, veFirstBroken = 0, veHead = []\<rparr>"
  assumes "seq_key t db" "0 < page"
  shows "Verify_from sha t page db =
    (let (v, prev) = fold (verify_row sha) rs (v0, []) in
      (if chain_of t db \<noteq> (veEvents v, prev) then broken (veEvents v + 1) v else v)\<lparr>veHead := prev\<rparr>)"
proof -
  have "verify_loop sha (dbEvents db) t page (v0, []) = fold (verify_row sha) rs (v0, [])"
    using verify_loop_one_pass [of t "dbEvents db" page sha "(v0, [])"] assms(3,4)
    by (simp add: seq_key_def rows_of_def rs_def v0_def)
  then show ?thesis
    by (auto simp: Verify_from_def v0_def Let_def split: prod.splits)
qed

lemma Verify_intact_iff:
  assumes "seq_key t db" "0 < page"
  defines "rs \<equiv> sorted_rows (dbEvents db) t 0"
  shows "veIntact (Verify_from sha t page db) \<longleftrightarrow>
    linked sha [] 1 rs \<and> chain_of t db = (int (length rs), chain_end [] rs)"
proof -
  let ?v0 = "\<lparr>veIntact = True, veEvents = 0, veFirstBroken = 0, veHead = []\<rparr>"
  note l = verify_fold_linked [where v = ?v0 and sha = sha and rs = rs and p = "[]", simplified]
  show ?thesis
  proof (cases "linked sha [] 1 rs")
    case True
    with l show ?thesis
      by (simp add: Verify_from_unfold [OF assms(1,2)] rs_def [symmetric])
  next
    case False
    with l(1) show ?thesis
      by (auto simp: Verify_from_unfold [OF assms(1,2)] rs_def [symmetric] broken_def split: prod.splits)
  qed
qed

lemma trail_ok_seq_key: "trail_ok sha db \<Longrightarrow> seq_key t db"
  using trail_okD(1) linked_distinct by (fastforce simp: seq_key_def)

lemma Verify_trail_ok:
  assumes "trail_ok sha db"
  shows "Verify sha t db = \<lparr>veIntact = True, veEvents = int (length (rows_of t db)), veFirstBroken = 0,
    veHead = chain_end [] (rows_of t db)\<rparr>"
proof -
  note l = trail_okD [OF assms, of t]
  have "sorted_rows (dbEvents db) t 0 = rows_of t db" using l(1) by (rule rows_of_sorted_rows)
  with l verify_fold_linked(2) [where v = "\<lparr>veIntact = True, veEvents = 0, veFirstBroken = 0, veHead = []\<rparr>"
      and sha = sha and p = "[]" and rs = "rows_of t db"]
  show ?thesis
    by (simp add: Verify_def Verify_from_unfold [OF trail_ok_seq_key [OF assms]] verifyPage_def)
qed

subsection \<open>Tampering\<close>

definition row_preimage :: "row \<Rightarrow> bytes" where
  "row_preimage r = preimage (rowPrev r) (rowEvent r)"

lemma linked_unique:
  assumes "linked sha [] 1 xs" "linked sha [] 1 ys" "length xs = length ys" "chain_end [] xs = chain_end [] ys"
    "inj_on sha (row_preimage ` (set xs \<union> set ys))" "\<forall>x. length (sha x) = 32"
    "\<forall>r \<in> set xs \<union> set ys. uuid_chars (rowTenant r)"
  shows "map (canonical \<circ> rowEvent) xs = map (canonical \<circ> rowEvent) ys"
  using assms
proof (induction xs arbitrary: ys rule: rev_induct)
  case Nil
  then show ?case by simp
next
  case (snoc x xs)
  then obtain ys' y where ys: "ys = ys' @ [y]" by (cases ys rule: rev_cases) auto
  from snoc.prems(1,2) have x: "linked sha [] 1 xs" "rowPrev x = chain_end [] xs" "rowHash x = Hash sha (rowPrev x) (rowEvent x)"
    and y: "linked sha [] 1 ys'" "rowPrev y = chain_end [] ys'" "rowHash y = Hash sha (rowPrev y) (rowEvent y)"
    by (auto simp: ys linked_append)
  have wf: "wf_prev (chain_end [] zs)" if "linked sha [] 1 zs" for zs
    using that snoc.prems(6) by (cases zs rule: rev_cases) (auto simp: linked_append wf_prev_def Hash_def)
  have "sha (row_preimage x) = sha (row_preimage y)"
    using snoc.prems(4) x(3) y(3) by (simp add: ys Hash_def row_preimage_def)
  then have "row_preimage x = row_preimage y"
    by (rule inj_onD [OF snoc.prems(5)]) (auto simp: ys)
  then have eq: "rowPrev x = rowPrev y \<and> canonical (rowEvent x) = canonical (rowEvent y)"
    unfolding row_preimage_def
    by (rule preimage_inj) (use snoc.prems(7) wf [OF x(1)] wf [OF y(1)] x(2) y(2) in \<open>auto simp: ys\<close>)
  have "map (canonical \<circ> rowEvent) xs = map (canonical \<circ> rowEvent) ys'"
    by (rule snoc.IH) (use snoc.prems x y eq in \<open>auto simp: ys intro: inj_on_subset\<close>)
  with eq show ?case by (simp add: ys comp_def)
qed

end
