(* ===== verification/AuditTrail.thy ===== *)
theory AuditTrail
  imports AuditStore
begin

text \<open>
  What the audit store promises, over the definitions of \<open>AuditStore\<close>: appending keeps every
  tenant's chain, a repeated batch changes nothing, verification accepts exactly the trails
  that were appended and names the first event that is wrong, and paging through a listing
  visits every matching event once.
\<close>

subsection \<open>Appending a batch again\<close>

text \<open>Every tenant of a batch has a chain, and every event of the batch is in it.\<close>

definition covered :: "event list \<Rightarrow> string \<Rightarrow> audit_db \<Rightarrow> bool" where
  "covered es t db \<longleftrightarrow>
     t \<in> chTenant ` set (dbChains db) \<and> evEventID ` set (byTenant es t) \<subseteq> rowID ` set (rows_of t db)"

lemma covered_mono:
  assumes "covered es t db" "dbEvents db' = dbEvents db @ new"
    "chTenant ` set (dbChains db) \<subseteq> chTenant ` set (dbChains db')"
  shows "covered es t db'"
proof -
  have "set (rows_of t db) \<subseteq> set (rows_of t db')"
    using assms(2) by (auto simp: rows_of_def)
  then have "rowID ` set (rows_of t db) \<subseteq> rowID ` set (rows_of t db')" by (rule image_mono)
  with assms show ?thesis unfolding covered_def by blast
qed

lemma appendTenant_covered:
  assumes "trail_ok sha db" "appendTenant sha t source rt (byTenant es t) db = Some (r, d, db')"
  shows "covered es t db'"
proof -
  let ?b = "new_rows sha t source rt (byTenant es t) db"
  obtain db1 where a: "appendTenant sha t source rt (byTenant es t) db
      = Some (length ?b, length (byTenant es t) - length ?b, db1)" "dbEvents db1 = dbEvents db @ ?b"
    "chTenant ` set (dbChains db1) = insert t (chTenant ` set (dbChains db))"
    by (rule appendTenant_eq [OF assms(1) byTenant_tenant])
  note spec = new_rows_spec(3,4) [where sha = sha and t = t and db = db and source = source and rt = rt and es = "byTenant es t"]
  have "rows_of t db1 = rows_of t db @ ?b"
    using a(2) spec(2) byTenant_tenant [of es t] by (fastforce simp: rows_of_def filter_id_conv)
  then have "rowID ` set (rows_of t db1) = rowID ` set (rows_of t db) \<union> set (map rowID ?b)" by auto
  with spec(1) a assms(2) show ?thesis by (auto simp: covered_def)
qed

lemma append_tenants_covered:
  assumes "trail_ok sha db" "append_tenants sha source rt es ts db = Some (r, d, db')"
  shows "(\<forall>t \<in> set ts. covered es t db') \<and> (\<forall>t. covered es t db \<longrightarrow> covered es t db')"
  using assms
proof (induction ts arbitrary: db r d)
  case Nil
  then show ?case by simp
next
  case (Cons t ts)
  let ?b = "new_rows sha t source rt (byTenant es t) db"
  obtain db1 where a: "appendTenant sha t source rt (byTenant es t) db
      = Some (length ?b, length (byTenant es t) - length ?b, db1)" "trail_ok sha db1"
    "dbEvents db1 = dbEvents db @ ?b"
    "chTenant ` set (dbChains db1) = insert t (chTenant ` set (dbChains db))"
    by (rule appendTenant_eq [OF Cons.prems(1) byTenant_tenant])
  with Cons.prems(2) obtain r1 d1 where "append_tenants sha source rt es ts db1 = Some (r1, d1, db')"
    by (auto split: option.splits prod.splits)
  with Cons.IH [OF a(2)] have IH: "(\<forall>t \<in> set ts. covered es t db') \<and> (\<forall>t. covered es t db1 \<longrightarrow> covered es t db')" .
  moreover have "covered es t db1" using appendTenant_covered [OF Cons.prems(1) a(1)] .
  moreover have "covered es u db \<longrightarrow> covered es u db1" for u
    using covered_mono [OF _ a(3), of es u] a(4) by blast
  ultimately show ?case by auto
qed

lemma appendTenant_again:
  assumes "trail_ok sha db" "covered es t db"
  shows "appendTenant sha t source rt (byTenant es t) db = Some (0, length (byTenant es t), db)"
proof -
  let ?es = "byTenant es t"
  obtain b s p r d where l: "append_loop sha source rt ?es
      (map rowID (filter (\<lambda>r. rowID r \<in> set (map evEventID ?es)) (rows_of t db)))
      (int (length (rows_of t db))) (chain_end [] (rows_of t db)) = (b, s, p, r, d)"
    by (metis prod_cases5)
  have "set (map evEventID ?es) \<subseteq> set (map rowID (filter (\<lambda>r. rowID r \<in> set (map evEventID ?es)) (rows_of t db)))"
  proof
    fix x assume x: "x \<in> set (map evEventID ?es)"
    then have "x \<in> rowID ` set (rows_of t db)" using assms(2) unfolding covered_def set_map by blast
    then obtain r where "r \<in> set (rows_of t db)" "x = rowID r" by (rule imageE)
    with x show "x \<in> set (map rowID (filter (\<lambda>r. rowID r \<in> set (map evEventID ?es)) (rows_of t db)))"
      unfolding set_map set_filter by (intro image_eqI [of _ _ r]) simp_all
  qed
  moreover from append_loop_spec [OF l] have "set (map rowID b) = set (map evEventID ?es)
      - set (map rowID (filter (\<lambda>r. rowID r \<in> set (map evEventID ?es)) (rows_of t db)))" by (elim conjE)
  ultimately have "set (map rowID b) = {}" by (simp only: Diff_eq_empty_iff)
  then have "b = []" by simp
  with append_loop_spec [OF l] have "r = 0" "d = length ?es" by auto
  moreover have "ensure_chain t db = db" using assms(2) by (intro ensure_chain_id) (simp add: covered_def)
  ultimately show ?thesis
    using l trail_okD(3) [OF assms(1), of t] by (simp add: appendTenant_def)
qed

lemma append_tenants_again:
  assumes "trail_ok sha db" "\<forall>t \<in> set ts. covered es t db"
  shows "append_tenants sha source rt es ts db = Some (0, length (concat (map (byTenant es) ts)), db)"
  using assms by (induction ts) (auto simp: appendTenant_again)

lemma append_tenants_total:
  "length (concat (map (byTenant es) (sort (remdups (map evTenantID es))))) = length es"
  by (rule length_byTenants) auto

lemma Append_trail_ok:
  assumes "trail_ok sha db" "Append sha now source es db = Some (r, d, db')"
  shows "trail_ok sha db'"
proof -
  obtain r' d' db'' where "append_tenants sha source (now - now mod Precision) es
      (sort (remdups (map evTenantID es))) db = Some (r', d', db'')" "trail_ok sha db''"
    using append_tenants_ok [OF assms(1)] by blast
  with assms(2) show ?thesis by (simp add: Append_def)
qed

text \<open>A digest function, a trail with nothing in it and a batch, for the examples.\<close>

definition sample_sha :: "bytes \<Rightarrow> bytes" where
  "sample_sha x = take 32 (rev x @ replicate 32 (CHR ''0''))"

lemma length_sample_sha: "length (sample_sha x) = 32"
  by (simp add: sample_sha_def)

definition empty_db :: audit_db where
  "empty_db = \<lparr>dbChains = [], dbEvents = []\<rparr>"

lemma trail_ok_empty: "trail_ok sha empty_db"
  by (simp add: trail_ok_def empty_db_def rows_of_def chain_of_def)

definition sample_row :: row where
  "sample_row = \<lparr>rowEvent = sample_event\<lparr>evRecordTime := 5000, evSource := ''vault''\<rparr>,
     rowHash = Hash sample_sha [] (sample_event\<lparr>evRecordTime := 5000, evSource := ''vault''\<rparr>), rowPrev = []\<rparr>"

definition sample_db :: audit_db where
  "sample_db = \<lparr>dbChains = [\<lparr>chTenant = evTenantID sample_event, chSequence = 1, chHash = rowHash sample_row\<rparr>],
     dbEvents = [sample_row]\<rparr>"

lemma Append_sample: "Append sample_sha 5432 ''vault'' [sample_event, sample_event] empty_db = Some (1, 1, sample_db)"
  by (simp add: Append_def appendTenant_def empty_db_def sample_db_def sample_row_def byTenant_def ensure_chain_def
      chain_of_def rows_of_def insert_event_def Precision_def Let_def sample_event_def)

lemma trail_ok_sample: "trail_ok sample_sha sample_db"
  using Append_trail_ok [OF trail_ok_empty Append_sample] .

text \<open>
  C3.  Appending a batch to a well-formed trail never violates a key, keeps every tenant's
  chain linked and its head up to date, only adds rows at the end (stamped with the caller's
  identity and the record time at microsecond precision), and accounts for every event of the
  batch as recorded or duplicate.
\<close>

theorem Append_keeps_trail:
  assumes "trail_ok sha db"
  shows "\<exists>r d db' new. Append sha now source es db = Some (r, d, db') \<and> trail_ok sha db' \<and>
    dbEvents db' = dbEvents db @ new \<and> r = length new \<and> r + d = length es \<and>
    (\<forall>x \<in> set new. evSource (rowEvent x) = source \<and> evRecordTime (rowEvent x) = now - now mod 1000)"
  using append_tenants_ok [OF assms, of source "now - now mod 1000" es "sort (remdups (map evTenantID es))"]
  unfolding Append_def Precision_def append_tenants_total .

theorem Append_keeps_trail_witness:
  "trail_ok sample_sha sample_db \<and>
   (\<exists>r d db'. Append sample_sha 7777 ''orchestrator'' [sample_event] sample_db = Some (r, d, db') \<and>
      trail_ok sample_sha db' \<and> r + d = 1)"
  using trail_ok_sample Append_keeps_trail [OF trail_ok_sample, of 7777 "''orchestrator''" "[sample_event]"] by auto

text \<open>
  C17.  Recording is idempotent: sending a batch again (a producer that lost the response),
  even from another caller and at another time, records nothing, counts every event as a
  duplicate and leaves the database exactly as it was.
\<close>

theorem Append_idempotent:
  assumes "trail_ok sha db" "Append sha now source es db = Some (r, d, db')"
  shows "Append sha now' source' es db' = Some (0, length es, db')"
proof -
  let ?ts = "sort (remdups (map evTenantID es))"
  have "trail_ok sha db'" using assms by (rule Append_trail_ok)
  moreover have "\<forall>t \<in> set ?ts. covered es t db'"
    using append_tenants_covered [OF assms(1)] assms(2) unfolding Append_def by blast
  ultimately show ?thesis
    by (simp add: Append_def append_tenants_again append_tenants_total del: length_concat)
qed

theorem Append_idempotent_witness:
  "trail_ok sample_sha empty_db \<and>
   Append sample_sha 5432 ''vault'' [sample_event, sample_event] empty_db = Some (1, 1, sample_db) \<and>
   Append sample_sha 9999 ''audit'' [sample_event, sample_event] sample_db = Some (0, 2, sample_db)"
  using trail_ok_empty Append_sample Append_idempotent [OF trail_ok_empty Append_sample, of 9999 "''audit''"] by simp

text \<open>
  C18.  Verifying a trail that was built by appending succeeds for every tenant: intact, the
  number of events, and the hash of the last one as the head.
\<close>

theorem Verify_accepts_trail:
  assumes "trail_ok sha db" "Append sha now source es db = Some (r, d, db')"
  shows "Verify sha t db' = \<lparr>veIntact = True, veEvents = int (length (rows_of t db')), veFirstBroken = 0,
    veHead = chain_end [] (rows_of t db')\<rparr>"
proof -
  have "trail_ok sha db'" using assms by (rule Append_trail_ok)
  then show ?thesis by (rule Verify_trail_ok)
qed

theorem Verify_accepts_trail_witness:
  "trail_ok sample_sha empty_db \<and>
   Append sample_sha 5432 ''vault'' [sample_event, sample_event] empty_db = Some (1, 1, sample_db) \<and>
   Verify sample_sha (evTenantID sample_event) sample_db =
     \<lparr>veIntact = True, veEvents = 1, veFirstBroken = 0, veHead = rowHash sample_row\<rparr>"
proof -
  have "rows_of (evTenantID sample_event) sample_db = [sample_row]"
    by (simp add: rows_of_def sample_db_def sample_row_def)
  then show ?thesis
    using trail_ok_empty Append_sample
      Verify_accepts_trail [OF trail_ok_empty Append_sample, of "evTenantID sample_event"] by simp
qed

text \<open>
  C2.  Tampering is detected.  Take a well-formed trail and any contents of the events table,
  changed in whatever way, under the same (anchored) head.  If verification still reports the
  chain intact and SHA-256 has no collision among the preimages involved, the tenant's events
  are the recorded ones: same number, same order, same contents.
\<close>

theorem Verify_detects_tampering:
  assumes "trail_ok sha db" "seq_key t db'" "chain_of t db' = chain_of t db" "veIntact (Verify sha t db')"
    and "inj_on sha (row_preimage ` (set (dbEvents db) \<union> set (dbEvents db')))" "\<forall>x. length (sha x) = 32"
    and "\<forall>r \<in> set (dbEvents db) \<union> set (dbEvents db'). uuid_chars (rowTenant r)"
  shows "map (canonical \<circ> rowEvent) (sorted_rows (dbEvents db') t 0) = map (canonical \<circ> rowEvent) (rows_of t db)"
proof -
  let ?xs = "sorted_rows (dbEvents db') t 0"
  have "linked sha [] 1 ?xs \<and> chain_of t db' = (int (length ?xs), chain_end [] ?xs)"
    using Verify_intact_iff [OF assms(2), of verifyPage sha] assms(4) by (simp add: Verify_def verifyPage_def)
  moreover have sub: "set ?xs \<union> set (rows_of t db) \<subseteq> set (dbEvents db) \<union> set (dbEvents db')"
    by (auto simp: sorted_rows_def rows_of_def)
  ultimately show ?thesis
    using trail_okD [OF assms(1), of t] assms(3,6,7)
    by (intro linked_unique) (auto intro!: inj_on_subset [OF assms(5)] image_mono)
qed

theorem Verify_detects_tampering_witness:
  "trail_ok sample_sha sample_db \<and> veIntact (Verify sample_sha (evTenantID sample_event) sample_db) \<and>
   inj_on sample_sha (row_preimage ` (set (dbEvents sample_db) \<union> set (dbEvents sample_db))) \<and>
   map (canonical \<circ> rowEvent) (sorted_rows (dbEvents sample_db) (evTenantID sample_event) 0)
     = map (canonical \<circ> rowEvent) (rows_of (evTenantID sample_event) sample_db)"
proof -
  have i: "inj_on sample_sha (row_preimage ` (set (dbEvents sample_db) \<union> set (dbEvents sample_db)))"
    by (simp add: sample_db_def)
  have u: "\<forall>r \<in> set (dbEvents sample_db) \<union> set (dbEvents sample_db). uuid_chars (rowTenant r)"
    using sample_event_wf(1) by (simp add: sample_db_def sample_row_def)
  have v: "veIntact (Verify sample_sha (evTenantID sample_event) sample_db)"
    by (simp add: Verify_trail_ok [OF trail_ok_sample])
  show ?thesis
    using i v trail_ok_sample Verify_detects_tampering [OF trail_ok_sample trail_ok_seq_key [OF trail_ok_sample] refl v i _ u]
      length_sample_sha by blast
qed

subsection \<open>The first broken event\<close>

lemma verify_fold_first_broken:
  assumes "veIntact v" "\<not> veIntact (fst (fold (verify_row sha) rs (v, p)))"
  shows "\<exists>ps q qs. rs = ps @ q # qs \<and> linked sha p (veEvents v + 1) ps \<and>
    \<not> linked sha p (veEvents v + 1) (ps @ [q]) \<and>
    veFirstBroken (fst (fold (verify_row sha) rs (v, p))) = veEvents v + 1 + int (length ps)"
  using assms
proof (induction rs arbitrary: v p)
  case Nil
  then show ?case by simp
next
  case (Cons r rs)
  show ?case
  proof (cases "linked sha p (veEvents v + 1) [r]")
    case True
    let ?v = "v\<lparr>veEvents := veEvents v + 1\<rparr>"
    from True have r: "verify_row sha r (v, p) = (?v, rowHash r)"
      by (auto simp: verify_row_def Let_def)
    with Cons.prems Cons.IH [of ?v "rowHash r"] obtain ps q qs where
      "rs = ps @ q # qs" "linked sha (rowHash r) (veEvents v + 1 + 1) ps"
      "\<not> linked sha (rowHash r) (veEvents v + 1 + 1) (ps @ [q])"
      "veFirstBroken (fst (fold (verify_row sha) rs (?v, rowHash r))) = veEvents v + 1 + 1 + int (length ps)"
      by auto
    with True r show ?thesis by (intro exI [of _ "r # ps"] exI [of _ q] exI [of _ qs]) auto
  next
    case False
    obtain v' p' where r: "verify_row sha r (v, p) = (v', p')" by fastforce
    with False Cons.prems(1) have "\<not> veIntact v'" "veFirstBroken v' = veEvents v + 1"
      by (auto simp: verify_row_def Let_def broken_def split: if_splits)
    with verify_fold_broken [of v' sha rs p'] r False show ?thesis
      by (intro exI [of _ "[]"] exI [of _ r] exI [of _ rs]) auto
  qed
qed

text \<open>
  C19.  When verification fails, the sequence number it reports is the first that is wrong: the
  events before it form a gapless, correctly linked chain, and either the next row breaks that
  chain or no row is left and the stored head does not match its end.
\<close>

theorem Verify_first_broken:
  assumes "seq_key t db" "\<not> veIntact (Verify sha t db)"
  shows "\<exists>ps qs. sorted_rows (dbEvents db) t 0 = ps @ qs \<and> linked sha [] 1 ps \<and>
    veFirstBroken (Verify sha t db) = int (length ps) + 1 \<and>
    (case qs of [] \<Rightarrow> chain_of t db \<noteq> (int (length ps), chain_end [] ps) | q # _ \<Rightarrow> \<not> linked sha [] 1 (ps @ [q]))"
proof -
  let ?rs = "sorted_rows (dbEvents db) t 0"
  let ?v0 = "\<lparr>veIntact = True, veEvents = 0, veFirstBroken = 0, veHead = []\<rparr>"
  note unf = Verify_def verifyPage_def Verify_from_unfold [OF assms(1)]
  show ?thesis
  proof (cases "linked sha [] 1 ?rs")
    case True
    with verify_fold_linked(2) [where v = ?v0 and sha = sha and p = "[]" and rs = ?rs] assms(2)
    show ?thesis by (intro exI [of _ ?rs] exI [of _ "[]"]) (auto simp: unf broken_def split: if_splits)
  next
    case False
    with verify_fold_linked(1) [where v = ?v0 and sha = sha and p = "[]" and rs = ?rs]
    have bad: "\<not> veIntact (fst (fold (verify_row sha) ?rs (?v0, [])))" by simp
    with verify_fold_first_broken [of ?v0 sha ?rs "[]"] obtain ps q qs where
      ps: "?rs = ps @ q # qs" "linked sha [] 1 ps" "\<not> linked sha [] 1 (ps @ [q])"
      "veFirstBroken (fst (fold (verify_row sha) ?rs (?v0, []))) = 1 + int (length ps)"
      by auto
    have "veFirstBroken (Verify sha t db) = veFirstBroken (fst (fold (verify_row sha) ?rs (?v0, [])))"
      using bad by (auto simp: unf broken_def split: prod.splits)
    with ps show ?thesis by (intro exI [of _ ps] exI [of _ "q # qs"]) auto
  qed
qed

text \<open>The sample trail with its one event changed: the first event is reported.\<close>

definition changed_db :: audit_db where
  "changed_db = sample_db\<lparr>dbEvents := [sample_row\<lparr>rowHash := ''forged''\<rparr>]\<rparr>"

theorem Verify_first_broken_witness:
  "seq_key (evTenantID sample_event) changed_db \<and>
   \<not> veIntact (Verify sample_sha (evTenantID sample_event) changed_db) \<and>
   veFirstBroken (Verify sample_sha (evTenantID sample_event) changed_db) = 1"
proof -
  let ?t = "evTenantID sample_event"
  have k: "seq_key ?t changed_db" by (simp add: seq_key_def rows_of_def changed_db_def)
  have s: "sorted_rows (dbEvents changed_db) ?t 0 = [sample_row\<lparr>rowHash := ''forged''\<rparr>]"
    by (simp add: sorted_rows_def changed_db_def sample_row_def sample_event_def)
  have "length (rowHash sample_row) = 32"
    using length_sample_sha by (simp add: sample_row_def Hash_def)
  then have ne: "rowHash sample_row \<noteq> ''forged''" by auto
  then have b: "\<not> veIntact (Verify sample_sha ?t changed_db)"
    using Verify_intact_iff [OF k, of verifyPage sample_sha]
    by (auto simp: s Verify_def verifyPage_def sample_row_def)
  from ne have nl: "\<not> linked sample_sha [] 1 (sample_row\<lparr>rowHash := ''forged''\<rparr> # xs)" for xs
    by (auto simp: sample_row_def)
  from Verify_first_broken [OF k b] obtain ps qs where
    "[sample_row\<lparr>rowHash := ''forged''\<rparr>] = ps @ qs" "linked sample_sha [] 1 ps"
    "veFirstBroken (Verify sample_sha ?t changed_db) = int (length ps) + 1"
    unfolding s by blast
  moreover from this nl have "ps = []" by (cases ps) (auto simp del: linked.simps)
  ultimately have "veFirstBroken (Verify sample_sha ?t changed_db) = 1" by simp
  with k b show ?thesis by simp
qed

subsection \<open>Paging through a listing\<close>

text \<open>
  A client that reads a listing to the end: it asks for a page, then for the page after the
  cursor it got, until there is none.  Fuel bounds the number of requests.
\<close>

fun read_all :: "nat \<Rightarrow> audit_filter \<Rightarrow> audit_db \<Rightarrow> row list option" where
  "read_all 0 f db = None"
| "read_all (Suc n) f db =
     (case List_events f db of
        None \<Rightarrow> None
      | Some (page, None) \<Rightarrow> Some page
      | Some (page, Some c) \<Rightarrow> map_option ((@) page) (read_all n (f\<lparr>fiAfter := Some c\<rparr>) db))"

definition full_list :: "audit_filter \<Rightarrow> audit_db \<Rightarrow> row list" where
  "full_list f db = rev (sort_key row_key (filter (list_where f) (dbEvents db)))"

lemma full_list_sorted:
  assumes "seq_key (fiTenantID f) db"
  shows "sorted_wrt (\<lambda>x y. row_key y < row_key x) (full_list f db)"
proof -
  let ?L = "filter (list_where f) (dbEvents db)"
  have "?L = filter (list_where f) (rows_of (fiTenantID f) db)"
    by (auto simp: rows_of_def list_where_def intro: filter_cong)
  then have "distinct (map rowSeq ?L)"
    using assms by (metis distinct_map_filter seq_key_def)
  then have "distinct (map row_key ?L)"
    by (auto simp: distinct_map inj_on_def row_key_def)
  then have "distinct (map row_key (sort_key row_key ?L))"
    by (simp add: distinct_map inj_on_def)
  then have "sorted_wrt (<) (map row_key (sort_key row_key ?L))"
    by (simp add: strict_sorted_iff)
  then show ?thesis by (simp add: full_list_def sorted_wrt_rev sorted_wrt_map)
qed

lemma list_where_after [simp]: "list_where (f\<lparr>fiAfter := c\<rparr>) = list_where f"
  by (rule ext) (simp add: list_where_def)

lemma full_list_after [simp]: "full_list (f\<lparr>fiAfter := c\<rparr>) db = full_list f db"
  by (simp add: full_list_def)

lemma list_query_eq:
  "list_query f db = take (fiPageSize f + 1) (filter (after_where (fiAfter f)) (full_list f db))"
proof -
  have "filter (\<lambda>r. list_where f r \<and> after_where (fiAfter f) r) (dbEvents db)
      = filter (after_where (fiAfter f)) (filter (list_where f) (dbEvents db))"
    by (simp add: conj_commute)
  then show ?thesis
    by (simp only: list_query_def full_list_def filter_sort flip: rev_filter)
qed

text \<open>The listing from position \<open>k\<close> on: what a request after the first \<open>k\<close> rows sees.\<close>

definition at_position :: "nat \<Rightarrow> audit_filter \<Rightarrow> audit_db \<Rightarrow> bool" where
  "at_position k f db \<longleftrightarrow> filter (after_where (fiAfter f)) (full_list f db) = drop k (full_list f db)"

lemma at_position_0: "fiAfter f = None \<Longrightarrow> at_position 0 f db"
  by (simp add: at_position_def after_where_def)

lemma List_events_last:
  assumes "at_position k f db" "length (full_list f db) \<le> k + fiPageSize f"
  shows "List_events f db = Some (drop k (full_list f db), None)"
  using assms by (auto simp: List_events_def list_query_eq at_position_def Let_def)

lemma List_events_next:
  fixes f db k
  defines "L \<equiv> full_list f db"
  defines "c \<equiv> \<lparr>cuOccurTime = evOccurTime (rowEvent (last (take (k + fiPageSize f) L))),
                   cuSequence = rowSeq (last (take (k + fiPageSize f) L))\<rparr>"
  assumes "seq_key (fiTenantID f) db" "at_position k f db" "0 < fiPageSize f" "k + fiPageSize f < length L"
  shows "List_events f db = Some (take (fiPageSize f) (drop k L), Some c)"
    and "at_position (k + fiPageSize f) (f\<lparr>fiAfter := Some c\<rparr>) db"
proof -
  let ?n = "fiPageSize f"
  have page: "take ?n (list_query f db) = take ?n (drop k L)" "list_query f db = take (?n + 1) (drop k L)"
    using assms(4) by (simp_all add: list_query_eq at_position_def L_def min_def)
  have last: "last (take ?n (drop k L)) = last (take (k + ?n) L)"
    using assms(5,6) by (simp add: take_add last_append)
  show "List_events f db = Some (take ?n (drop k L), Some c)"
    using assms(5,6) page last by (auto simp: List_events_def Let_def c_def)
  have "after_where (Some c) = (\<lambda>r. row_key r < row_key (last (take (k + ?n) L)))"
    by (rule ext) (simp add: after_where_def c_def row_key_def)
  then show "at_position (k + ?n) (f\<lparr>fiAfter := Some c\<rparr>) db"
    using filter_after_drop [OF full_list_sorted [OF assms(3)], of "k + ?n"] assms(5,6)
    by (auto simp: at_position_def L_def)
qed

lemma read_all_from:
  assumes "seq_key (fiTenantID f) db" "0 < fiPageSize f" "at_position k f db"
    "length (full_list f db) < k + m * fiPageSize f + 1" "0 < m"
  shows "read_all m f db = Some (drop k (full_list f db))"
  using assms
proof (induction m arbitrary: k f)
  case 0
  then show ?case by simp
next
  case (Suc m)
  let ?L = "full_list f db" let ?n = "fiPageSize f"
  show ?case
  proof (cases "length ?L \<le> k + ?n")
    case True
    with List_events_last [OF Suc.prems(3)] show ?thesis by simp
  next
    case False
    let ?c = "\<lparr>cuOccurTime = evOccurTime (rowEvent (last (take (k + ?n) ?L))), cuSequence = rowSeq (last (take (k + ?n) ?L))\<rparr>"
    have next_page: "List_events f db = Some (take ?n (drop k ?L), Some ?c)"
      "at_position (k + ?n) (f\<lparr>fiAfter := Some ?c\<rparr>) db"
      using False Suc.prems(1-3) by (auto intro: List_events_next)
    have "0 < m" using False Suc.prems(4) by (cases m) auto
    then have "read_all m (f\<lparr>fiAfter := Some ?c\<rparr>) db = Some (drop (k + ?n) ?L)"
      using Suc.prems next_page(2) by (subst Suc.IH [where k = "k + ?n"]) (auto simp: algebra_simps)
    with next_page(1) show ?thesis
      by (simp add: drop_drop add.commute [of k] append_take_drop_id flip: drop_drop)
  qed
qed

text \<open>
  Paging is complete and without repetition: a client that follows the cursors of
  \<^verbatim>\<open>List\<close> gets exactly the tenant's matching events, newest first, in at most one request
  per page.
\<close>

theorem List_pages_complete:
  assumes "trail_ok sha db" "0 < fiPageSize f" "fiAfter f = None"
    and "n = length (filter (list_where f) (dbEvents db)) div fiPageSize f + 1"
  shows "read_all n f db = Some (rev (sort_key row_key (filter (list_where f) (dbEvents db))))"
proof -
  let ?l = "length (filter (list_where f) (dbEvents db))"
  have "?l < (?l div fiPageSize f + 1) * fiPageSize f"
    using assms(2) by (metis Suc_eq_plus1 dividend_less_div_times mult.commute mult_Suc_right add.commute)
  then show ?thesis
    using read_all_from [OF trail_ok_seq_key [OF assms(1)] assms(2) at_position_0 [OF assms(3)], of n] assms(4)
    by (simp add: full_list_def)
qed

definition sample_filter :: audit_filter where
  "sample_filter = \<lparr>fiTenantID = evTenantID sample_event, fiUserID = ''u1'', fiActionPrefix = ''key.'',
     fiSince = None, fiUntil = None, fiPageSize = 1, fiAfter = None\<rparr>"

theorem List_pages_complete_witness:
  "trail_ok sample_sha sample_db \<and> 0 < fiPageSize sample_filter \<and> fiAfter sample_filter = None \<and>
   read_all 2 sample_filter sample_db = Some [sample_row]"
proof -
  have f: "filter (list_where sample_filter) (dbEvents sample_db) = [sample_row]"
    by (simp add: sample_db_def sample_filter_def list_where_def sample_row_def sample_event_def like_likePrefix)
  have p: "0 < fiPageSize sample_filter" "fiAfter sample_filter = None" by (simp_all add: sample_filter_def)
  have "read_all 2 sample_filter sample_db = Some [sample_row]"
    using List_pages_complete [OF trail_ok_sample p refl] unfolding f
    by (simp add: numeral_2_eq_2 sample_filter_def [THEN arg_cong, of fiPageSize, simplified] del: read_all.simps)
  with trail_ok_sample p show ?thesis by blast
qed

text \<open>
  C20.  Escaping is exact: the pattern built from an action prefix matches an action if and
  only if the action starts with that prefix, also when the prefix contains the wildcards
  \<^verbatim>\<open>%\<close> and \<^verbatim>\<open>_\<close> or the escape character.
\<close>

theorem likePrefix_exact: "like (likePrefix p) action = prefix p action"
  by (rule like_likePrefix)

end
