(* ===== verification/Utf8.thy ===== *)
theory Utf8
  imports Prelude
begin

text \<open>
  Go's \<^verbatim>\<open>unicode/utf8\<close> on byte strings, as the services use it: decoding of a rune (an invalid
  sequence is \<^verbatim>\<open>RuneError\<close> of width one), the runes a \<^verbatim>\<open>range\<close> over a string yields, encoding, and
  the string helpers of the standard library that work on them.
\<close>

type_synonym rune = nat

definition byte :: "char \<Rightarrow> nat" where
  "byte c = of_char c"

definition RuneError :: rune where
  "RuneError = 65533"

definition cont :: "nat \<Rightarrow> bool" where
  "cont b \<longleftrightarrow> 128 \<le> b \<and> b \<le> 191"

text \<open>The ranges a second byte must be in, by the first byte (the \<^verbatim>\<open>acceptRanges\<close> of the library).\<close>

definition accept :: "nat \<Rightarrow> nat \<Rightarrow> bool" where
  "accept b0 b1 \<longleftrightarrow> (if b0 = 224 then 160 else if b0 = 240 then 144 else 128) \<le> b1
     \<and> b1 \<le> (if b0 = 237 then 159 else if b0 = 244 then 143 else 191)"

text \<open>\<^verbatim>\<open>DecodeRuneInString\<close>: the first rune and its width.\<close>

definition DecodeRune :: "string \<Rightarrow> rune \<times> nat" where
  "DecodeRune s = (case map byte (take 4 s) of
      [] \<Rightarrow> (RuneError, 0)
    | b0 # bs \<Rightarrow>
        if b0 < 128 then (b0, 1)
        else if 194 \<le> b0 \<and> b0 \<le> 223 \<and> length bs \<ge> 1 \<and> accept b0 (bs ! 0)
        then ((b0 - 192) * 64 + (bs ! 0 - 128), 2)
        else if 224 \<le> b0 \<and> b0 \<le> 239 \<and> length bs \<ge> 2 \<and> accept b0 (bs ! 0) \<and> cont (bs ! 1)
        then ((b0 - 224) * 4096 + (bs ! 0 - 128) * 64 + (bs ! 1 - 128), 3)
        else if 240 \<le> b0 \<and> b0 \<le> 244 \<and> length bs \<ge> 3 \<and> accept b0 (bs ! 0) \<and> cont (bs ! 1) \<and> cont (bs ! 2)
        then ((b0 - 240) * 262144 + (bs ! 0 - 128) * 4096 + (bs ! 1 - 128) * 64 + (bs ! 2 - 128), 4)
        else (RuneError, 1))"

text \<open>What \<^verbatim>\<open>for _, r := range s\<close> yields, with the bytes of each rune.\<close>

fun runes :: "string \<Rightarrow> (rune \<times> string) list" where
  "runes [] = []"
| "runes (c # s) = (let (r, w) = DecodeRune (c # s) in (r, take w (c # s)) # runes (drop (w - 1) s))"

definition valid_rune :: "rune \<Rightarrow> bool" where
  "valid_rune r \<longleftrightarrow> r < 1114112 \<and> \<not> (55296 \<le> r \<and> r \<le> 57343)"

text \<open>\<^verbatim>\<open>AppendRune\<close>; an invalid rune is encoded as \<^verbatim>\<open>RuneError\<close>.\<close>

definition EncodeRune :: "rune \<Rightarrow> string" where
  "EncodeRune r0 = (let r = (if valid_rune r0 then r0 else RuneError) in
     map char_of
       (if r < 128 then [r]
        else if r < 2048 then [192 + r div 64, 128 + r mod 64]
        else if r < 65536 then [224 + r div 4096, 128 + r div 64 mod 64, 128 + r mod 64]
        else [240 + r div 262144, 128 + r div 4096 mod 64, 128 + r div 64 mod 64, 128 + r mod 64]))"

definition RuneCountInString :: "string \<Rightarrow> nat" where
  "RuneCountInString s = length (runes s)"

definition ValidString :: "string \<Rightarrow> bool" where
  "ValidString s \<longleftrightarrow> (\<forall>(r, b) \<in> set (runes s). \<not> (r = RuneError \<and> length b = 1))"

text \<open>\<^verbatim>\<open>strings.ToValidUTF8\<close>: every run of invalid bytes becomes one replacement.\<close>

fun ToValidUTF8_from :: "bool \<Rightarrow> (rune \<times> string) list \<Rightarrow> string \<Rightarrow> string" where
  "ToValidUTF8_from bad [] rep = []"
| "ToValidUTF8_from bad ((r, b) # rs) rep =
     (if r = RuneError \<and> length b = 1
      then (if bad then [] else rep) @ ToValidUTF8_from True rs rep
      else b @ ToValidUTF8_from False rs rep)"

definition ToValidUTF8 :: "string \<Rightarrow> string \<Rightarrow> string" where
  "ToValidUTF8 s rep = ToValidUTF8_from False (runes s) rep"

text \<open>\<^verbatim>\<open>unicode.IsSpace\<close> and \<^verbatim>\<open>strings.TrimSpace\<close>.\<close>

definition IsSpace :: "rune \<Rightarrow> bool" where
  "IsSpace r \<longleftrightarrow> r \<in> {9, 10, 11, 12, 13, 32, 133, 160, 5760, 8232, 8233, 8239, 8287, 12288} \<or> 8192 \<le> r \<and> r \<le> 8202"

definition TrimSpace :: "string \<Rightarrow> string" where
  "TrimSpace s = concat (map snd (rev (dropWhile (\<lambda>(r, _). IsSpace r) (rev (dropWhile (\<lambda>(r, _). IsSpace r) (runes s))))))"

text \<open>\<^verbatim>\<open>unicode.IsControl\<close>.\<close>

definition IsControl :: "rune \<Rightarrow> bool" where
  "IsControl r \<longleftrightarrow> r < 32 \<or> 127 \<le> r \<and> r < 160"

subsection \<open>Lemmas\<close>

lemma byte_less: "byte c < 256"
  unfolding byte_def by (rule nat_of_char_less_256)

lemma byte_char_of: "n < 256 \<Longrightarrow> byte (char_of n) = n"
  by (simp add: byte_def)

lemma DecodeRune_width: "s \<noteq> [] \<Longrightarrow> 1 \<le> snd (DecodeRune s) \<and> snd (DecodeRune s) \<le> length s"
  by (cases s) (auto simp: DecodeRune_def Let_def)

lemma concat_runes: "concat (map snd (runes s)) = s"
proof (induction s rule: runes.induct)
  case 1
  then show ?case by simp
next
  case (2 c s)
  obtain r w where d: "DecodeRune (c # s) = (r, w)" by (metis surj_pair)
  with DecodeRune_width [of "c # s"] obtain k where k: "w = Suc k" by (cases w) auto
  from 2 [OF d [symmetric] refl] have "concat (map snd (runes (drop k s))) = drop k s" by (simp add: k)
  with d k show ?case by simp
qed

lemma split_base64:
  "r = r div 4096 * 4096 + r div 64 mod 64 * 64 + r mod 64" for r :: nat
proof -
  have q: "r div 4096 = r div 64 div 64" using div_mult2_eq [of r 64 64] by simp
  show ?thesis unfolding q using div_mult_mod_eq [of r 64] div_mult_mod_eq [of "r div 64" 64] by linarith
qed

lemma split_base64':
  "r = r div 262144 * 262144 + r div 4096 mod 64 * 4096 + r div 64 mod 64 * 64 + r mod 64" for r :: nat
proof -
  have q: "r div 262144 = r div 4096 div 64" using div_mult2_eq [of r 4096 64] by simp
  show ?thesis unfolding q using split_base64 [of r] div_mult_mod_eq [of "r div 4096" 64] by linarith
qed

lemma DecodeRune_EncodeRune:
  assumes "valid_rune r"
  shows "DecodeRune (EncodeRune r @ s) = (r, length (EncodeRune r))"
proof -
  consider "r < 128" | "128 \<le> r" "r < 2048" | "2048 \<le> r" "r < 65536" | "65536 \<le> r" by linarith
  then show ?thesis
  proof cases
    case 1
    then show ?thesis using assms by (simp add: EncodeRune_def DecodeRune_def byte_char_of)
  next
    case 2
    define a where "a = r div 64"
    define b where "b = r mod 64"
    have e: "b < 64" "r = a * 64 + b" unfolding a_def b_def by simp_all
    then have ab: "2 \<le> a" "a < 32" "b < 64" using 2 by linarith+
    with 2 assms have "EncodeRune r = map char_of [192 + a, 128 + b]"
      by (simp add: EncodeRune_def a_def b_def)
    with ab e show ?thesis by (simp add: DecodeRune_def byte_char_of accept_def)
  next
    case 3
    define a where "a = r div 4096"
    define b where "b = r div 64 mod 64"
    define d where "d = r mod 64"
    have e: "b < 64" "d < 64" unfolding b_def d_def by simp_all
    have r: "r = a * 4096 + b * 64 + d"
      unfolding a_def b_def d_def by (rule split_base64)
    with 3 have ab: "a < 16" "b < 64" "d < 64" "r = a * 4096 + b * 64 + d" using e by linarith+
    have lo: "a = 0 \<Longrightarrow> 32 \<le> b" using ab 3 by linarith
    have hi: "a = 13 \<Longrightarrow> b \<le> 31" using ab assms unfolding valid_rune_def by linarith
    from 3 assms have "EncodeRune r = map char_of [224 + a, 128 + b, 128 + d]"
      by (simp add: EncodeRune_def a_def b_def d_def)
    with ab lo hi show ?thesis by (simp add: DecodeRune_def byte_char_of accept_def cont_def)
  next
    case 4
    define a where "a = r div 262144"
    define b where "b = r div 4096 mod 64"
    define d where "d = r div 64 mod 64"
    define e where "e = r mod 64"
    have ab: "b < 64" "d < 64" "e < 64" unfolding b_def d_def e_def by simp_all
    have r: "r = a * 262144 + b * 4096 + d * 64 + e"
      unfolding a_def b_def d_def e_def by (rule split_base64')
    have a4: "a \<le> 4" using r assms unfolding valid_rune_def by linarith
    have lo: "a = 0 \<Longrightarrow> 16 \<le> b" using ab r 4 by linarith
    have hi: "a = 4 \<Longrightarrow> b \<le> 15" using ab r assms unfolding valid_rune_def by linarith
    from 4 assms have "EncodeRune r = map char_of [240 + a, 128 + b, 128 + d, 128 + e]"
      by (simp add: EncodeRune_def a_def b_def d_def e_def)
    with ab r a4 lo hi show ?thesis by (simp add: DecodeRune_def byte_char_of accept_def cont_def)
  qed
qed

lemma EncodeRune_nonempty: "EncodeRune r \<noteq> []"
  by (simp add: EncodeRune_def Let_def)

lemma runes_EncodeRune [codec_simps]:
  assumes "valid_rune r"
  shows "runes (EncodeRune r @ s) = (r, EncodeRune r) # runes s"
proof -
  obtain c cs where c: "EncodeRune r @ s = c # cs" by (metis EncodeRune_nonempty append_is_Nil_conv neq_Nil_conv)
  obtain k where k: "length (EncodeRune r) = Suc k" by (metis EncodeRune_nonempty length_greater_0_conv gr0_implies_Suc)
  have d: "DecodeRune (c # cs) = (r, Suc k)" using DecodeRune_EncodeRune [OF assms, of s] c k by simp
  have "take (Suc k) (c # cs) = EncodeRune r" "drop (Suc k) (c # cs) = s" unfolding c [symmetric] k [symmetric] by simp_all
  with d c show ?thesis by simp
qed

lemma runes_encoded [codec_simps]:
  "\<forall>r \<in> set rs. valid_rune r \<Longrightarrow> runes (concat (map EncodeRune rs)) = map (\<lambda>r. (r, EncodeRune r)) rs"
  by (induction rs) (auto simp: runes_EncodeRune)

lemma runes_ascii_Cons [simp]: "byte c < 128 \<Longrightarrow> runes (c # s) = (byte c, [c]) # runes s"
  by (simp add: DecodeRune_def)

lemma runes_ascii: "\<forall>c \<in> set s. byte c < 128 \<Longrightarrow> runes s = map (\<lambda>c. (byte c, [c])) s"
  by (induction s) (simp_all del: runes.simps(2))

text \<open>Of an encoded rune only the first byte is not a continuation byte.\<close>

lemma EncodeRune_shape:
  "\<exists>b0 bs. EncodeRune r = map char_of (b0 # bs) \<and> b0 < 256 \<and> \<not> cont b0 \<and> (\<forall>b \<in> set bs. b < 256 \<and> cont b)"
proof -
  define r' where "r' = (if valid_rune r then r else RuneError)"
  have v: "r' < 1114112" by (simp add: r'_def valid_rune_def RuneError_def)
  have m: "cont (128 + x mod 64)" "128 + x mod 64 < 256" for x :: nat
    using mod_less_divisor [of 64 x] by (simp_all add: cont_def)
  have E: "EncodeRune r = map char_of
       (if r' < 128 then [r']
        else if r' < 2048 then [192 + r' div 64, 128 + r' mod 64]
        else if r' < 65536 then [224 + r' div 4096, 128 + r' div 64 mod 64, 128 + r' mod 64]
        else [240 + r' div 262144, 128 + r' div 4096 mod 64, 128 + r' div 64 mod 64, 128 + r' mod 64])"
    by (simp add: EncodeRune_def r'_def Let_def)
  consider "r' < 128" | "128 \<le> r'" "r' < 2048" | "2048 \<le> r'" "r' < 65536" | "65536 \<le> r'" by linarith
  then show ?thesis
  proof cases
    case 1
    then show ?thesis using E by (intro exI [of _ r'] exI [of _ "[]"]) (simp add: cont_def)
  next
    case 2
    then have "r' div 64 < 32" by (simp add: div_less_iff_less_mult)
    with 2 E m show ?thesis
      by (intro exI [of _ "192 + r' div 64"] exI [of _ "[128 + r' mod 64]"]) (simp add: cont_def)
  next
    case 3
    then have "r' div 4096 < 16" by (simp add: div_less_iff_less_mult)
    with 3 E m show ?thesis
      by (intro exI [of _ "224 + r' div 4096"] exI [of _ "[128 + r' div 64 mod 64, 128 + r' mod 64]"]) (simp add: cont_def)
  next
    case 4
    from v have "r' div 262144 < 16" by (simp add: div_less_iff_less_mult)
    with 4 E m show ?thesis
      by (intro exI [of _ "240 + r' div 262144"] exI [of _ "[128 + r' div 4096 mod 64, 128 + r' div 64 mod 64, 128 + r' mod 64]"])
        (simp add: cont_def)
  qed
qed

lemma EncodeRune_bytes:
  assumes "i < length (EncodeRune r)"
  shows "cont (byte (EncodeRune r ! i)) \<longleftrightarrow> i \<noteq> 0"
proof -
  obtain b0 bs where E: "EncodeRune r = map char_of (b0 # bs)" "b0 < 256" "\<not> cont b0" "\<forall>b \<in> set bs. b < 256 \<and> cont b"
    using EncodeRune_shape [of r] by blast
  show ?thesis
  proof (cases i)
    case 0
    with E show ?thesis by (simp add: byte_char_of)
  next
    case (Suc j)
    with assms E(1) have "bs ! j \<in> set bs" by simp
    with E(4) have "bs ! j < 256" "cont (bs ! j)" by auto
    with Suc assms E(1) show ?thesis by (simp add: byte_char_of)
  qed
qed

lemma length_EncodeRune: "length (EncodeRune r) \<le> 4"
  by (simp add: EncodeRune_def Let_def)

text \<open>A byte that is not a continuation byte starts a rune.\<close>

lemma encoded_boundary:
  assumes "n < length (concat (map EncodeRune rs))" "\<not> cont (byte (concat (map EncodeRune rs) ! n))"
  shows "\<exists>k < length rs. n = length (concat (map EncodeRune (take k rs)))"
  using assms
proof (induction rs arbitrary: n)
  case Nil
  then show ?case by simp
next
  case (Cons r rs)
  show ?case
  proof (cases "n < length (EncodeRune r)")
    case True
    with Cons.prems(2) have "n = 0" by (simp add: nth_append EncodeRune_bytes)
    then show ?thesis by (intro exI [of _ 0]) simp
  next
    case False
    with Cons.prems have "n - length (EncodeRune r) < length (concat (map EncodeRune rs))"
      "\<not> cont (byte (concat (map EncodeRune rs) ! (n - length (EncodeRune r))))" by (simp_all add: nth_append less_diff_conv2)
    from Cons.IH [OF this] obtain k where
      "k < length rs" "n - length (EncodeRune r) = length (concat (map EncodeRune (take k rs)))" by blast
    with False show ?thesis by (intro exI [of _ "Suc k"]) simp
  qed
qed

lemma encoded_start:
  assumes "k < length rs"
  shows "\<not> cont (byte (concat (map EncodeRune rs) ! length (concat (map EncodeRune (take k rs)))))"
    "length (concat (map EncodeRune (take k rs))) < length (concat (map EncodeRune rs))"
proof -
  have "rs = take k rs @ rs ! k # drop (Suc k) rs" using assms by (simp add: id_take_nth_drop)
  then have e: "concat (map EncodeRune rs) = concat (map EncodeRune (take k rs)) @ EncodeRune (rs ! k) @ concat (map EncodeRune (drop (Suc k) rs))"
    by (metis concat.simps(2) concat_append list.simps(9) map_append)
  have l: "0 < length (EncodeRune (rs ! k))" using EncodeRune_nonempty by auto
  with EncodeRune_bytes [of 0 "rs ! k"]
  show "\<not> cont (byte (concat (map EncodeRune rs) ! length (concat (map EncodeRune (take k rs)))))"
    by (subst e) (simp add: nth_append)
  show "length (concat (map EncodeRune (take k rs))) < length (concat (map EncodeRune rs))"
    by (subst e) (use l in simp)
qed

end
