(* ===== verification/Json.thy ===== *)
theory Json
  imports Utf8
begin

text \<open>
  Go's \<^verbatim>\<open>encoding/json\<close> as the services use it: printing of maps of strings, numbers and raw values
  (keys sorted, HTML characters escaped), parsing with the library's grammar and nesting limit, and
  decoding into struct fields (names match without regard to case, unknown keys are ignored, null
  leaves a field alone, a value of another type is an error).
\<close>

subsection \<open>Printing\<close>

definition hex :: "nat \<Rightarrow> char" where
  "hex d = (if d < 10 then char_of (48 + d) else char_of (87 + d))"

text \<open>\<^verbatim>\<open>appendString\<close> with \<^verbatim>\<open>escapeHTML\<close>, one rune with its bytes.\<close>

definition quote_rune :: "rune \<times> string \<Rightarrow> string" where
  "quote_rune = (\<lambda>(r, b).
     if r < 128 then
       (if r = 34 \<or> r = 92 then [CHR 0x5C, char_of r]
        else if r = 8 then [CHR 0x5C, CHR ''b''] else if r = 12 then [CHR 0x5C, CHR ''f'']
        else if r = 10 then [CHR 0x5C, CHR ''n''] else if r = 13 then [CHR 0x5C, CHR ''r'']
        else if r = 9 then [CHR 0x5C, CHR ''t'']
        else if r < 32 \<or> r = 60 \<or> r = 62 \<or> r = 38
        then [CHR 0x5C, CHR ''u'', CHR ''0'', CHR ''0'', hex (r div 16), hex (r mod 16)]
        else b)
     else if r = RuneError \<and> length b = 1 then CHR 0x5C # ''ufffd''
     else if r = 8232 \<or> r = 8233 then CHR 0x5C # ''u202'' @ [hex (r mod 16)]
     else b)"

definition json_quote :: "string \<Rightarrow> string" where
  "json_quote s = [CHR 0x22] @ concat (map quote_rune (runes s)) @ [CHR 0x22]"

text \<open>
  \<^verbatim>\<open>Compact\<close> of a raw value inside a marshalled one: white space outside strings goes, HTML characters
  and the line separators are escaped.
\<close>

fun json_compact :: "bool \<Rightarrow> string \<Rightarrow> string" where
  "json_compact instr [] = []"
| "json_compact instr (c # s) =
     (let b = byte c in
      if b = 60 \<or> b = 62 \<or> b = 38
      then [CHR 0x5C, CHR ''u'', CHR ''0'', CHR ''0'', hex (b div 16), hex (b mod 16)] @ json_compact instr s
      else if b = 226 \<and> map byte (take 2 s) \<in> {[128, 168], [128, 169]}
      then CHR 0x5C # ''u202'' @ [hex (byte (s ! 1) mod 16)] @ json_compact instr (drop 2 s)
      else if \<not> instr \<and> b \<in> {32, 9, 10, 13} then json_compact instr s
      else if instr \<and> b = 92 then (case s of [] \<Rightarrow> [c] | d # s' \<Rightarrow> c # d # json_compact instr s')
      else c # json_compact (instr \<noteq> (b = 34)) s)"

datatype jval = VStr string | VBool bool | VInt int | VRaw string

fun print_jval :: "jval \<Rightarrow> string" where
  "print_jval (VStr s) = json_quote s"
| "print_jval (VBool b) = (if b then ''true'' else ''false'')"
| "print_jval (VInt i) = FormatInt i"
| "print_jval (VRaw r) = json_compact False r"

definition print_member :: "string \<times> jval \<Rightarrow> string" where
  "print_member = (\<lambda>(k, v). json_quote k @ '':'' @ print_jval v)"

fun commas :: "string list \<Rightarrow> string" where
  "commas [] = []"
| "commas [s] = s"
| "commas (s # t # r) = s @ '','' @ commas (t # r)"

text \<open>A struct prints its members in order, a map in the order of its keys.\<close>

definition print_struct :: "(string \<times> jval) list \<Rightarrow> string" where
  "print_struct ms = ''{'' @ commas (map print_member ms) @ ''}''"

definition print_map :: "(string \<times> jval) list \<Rightarrow> string" where
  "print_map ms = print_struct (sort_key fst ms)"

subsection \<open>Parsing\<close>

text \<open>Elements and members keep the text of their values, for \<^verbatim>\<open>json.RawMessage\<close>.\<close>

datatype json = JNull | JBool bool | JNum string | JStr string | JArr "(string \<times> json) list"
  | JObj "(string \<times> string \<times> json) list"

definition json_ws :: "char \<Rightarrow> bool" where
  "json_ws c \<longleftrightarrow> byte c \<in> {32, 9, 10, 13}"

definition skip_ws :: "string \<Rightarrow> string" where
  "skip_ws s = dropWhile json_ws s"

definition is_digit :: "char \<Rightarrow> bool" where
  "is_digit c \<longleftrightarrow> 48 \<le> byte c \<and> byte c \<le> 57"

definition unhex :: "char \<Rightarrow> nat option" where
  "unhex c = (let b = byte c in
     if 48 \<le> b \<and> b \<le> 57 then Some (b - 48)
     else if 97 \<le> b \<and> b \<le> 102 then Some (b - 87)
     else if 65 \<le> b \<and> b \<le> 70 then Some (b - 55) else None)"

text \<open>\<^verbatim>\<open>getu4\<close>: the value of a \<^verbatim>\<open>\uXXXX\<close> escape at the start of the text.\<close>

definition getu4 :: "string \<Rightarrow> nat option" where
  "getu4 s = (case s of
     a # b # c # d # e # f # _ \<Rightarrow>
       if a = CHR 0x5C \<and> b = CHR ''u'' then
         (case (unhex c, unhex d, unhex e, unhex f) of
            (Some w, Some x, Some y, Some z) \<Rightarrow> Some (((w * 16 + x) * 16 + y) * 16 + z)
          | _ \<Rightarrow> None)
       else None
   | _ \<Rightarrow> None)"

text \<open>\<^verbatim>\<open>utf16.DecodeRune\<close>.\<close>

definition utf16_pair :: "nat \<Rightarrow> nat option \<Rightarrow> nat option" where
  "utf16_pair r1 r2 = (case r2 of None \<Rightarrow> None | Some q \<Rightarrow>
     if 55296 \<le> r1 \<and> r1 < 56320 \<and> 56320 \<le> q \<and> q < 57344
     then Some ((r1 - 55296) * 1024 + (q - 56320) + 65536) else None)"

definition unescape :: "char \<Rightarrow> char option" where
  "unescape c = (if c = CHR 0x22 \<or> c = CHR 0x5C \<or> c = CHR ''/'' then Some c
     else if c = CHR ''b'' then Some (CHR 0x08) else if c = CHR ''f'' then Some (CHR 0x0C)
     else if c = CHR ''n'' then Some (CHR 0x0A) else if c = CHR ''r'' then Some (CHR 0x0D)
     else if c = CHR ''t'' then Some (CHR 0x09) else None)"

text \<open>A string after its opening quote: its value and what follows it.\<close>

function parse_string :: "string \<Rightarrow> (string \<times> string) option" where
  "parse_string [] = None"
| "parse_string (c # s) =
     (if c = CHR 0x22 then Some ([], s)
      else if byte c < 32 then None
      else if c = CHR 0x5C then
        (case getu4 (c # s) of
           Some r1 \<Rightarrow>
             (case utf16_pair r1 (getu4 (drop 5 s)) of
                Some r \<Rightarrow> map_option (\<lambda>(t, rest). (EncodeRune r @ t, rest)) (parse_string (drop 11 s))
              | None \<Rightarrow> map_option (\<lambda>(t, rest). (EncodeRune r1 @ t, rest)) (parse_string (drop 5 s)))
         | None \<Rightarrow>
             (case s of
                [] \<Rightarrow> None
              | d # s' \<Rightarrow>
                  (case unescape d of
                     None \<Rightarrow> None
                   | Some e \<Rightarrow> map_option (\<lambda>(t, rest). (e # t, rest)) (parse_string s'))))
      else let (r, w) = DecodeRune (c # s)
           in map_option (\<lambda>(t, rest). (EncodeRune r @ t, rest)) (parse_string (drop (w - 1) s)))"
  by pat_completeness auto
termination by (relation "measure length") auto

text \<open>A number: its text and what follows it.\<close>

definition parse_exponent :: "string \<Rightarrow> string \<Rightarrow> (string \<times> string) option" where
  "parse_exponent acc s = (case s of
     c # r \<Rightarrow>
       if c = CHR ''e'' \<or> c = CHR ''E'' then
         (let sg = (case r of d # _ \<Rightarrow> if d = CHR ''+'' \<or> d = CHR ''-'' then [d] else [] | [] \<Rightarrow> []);
              r' = drop (length sg) r;
              ds = takeWhile is_digit r'
          in if ds = [] then None else Some (acc @ c # sg @ ds, drop (length ds) r'))
       else Some (acc, s)
   | [] \<Rightarrow> Some (acc, s))"

definition parse_fraction :: "string \<Rightarrow> string \<Rightarrow> (string \<times> string) option" where
  "parse_fraction acc s = (case s of
     c # r \<Rightarrow>
       if c = CHR ''.'' then
         (let ds = takeWhile is_digit r
          in if ds = [] then None else parse_exponent (acc @ c # ds) (drop (length ds) r))
       else parse_exponent acc s
   | [] \<Rightarrow> Some (acc, s))"

definition parse_number :: "string \<Rightarrow> (string \<times> string) option" where
  "parse_number s =
     (let sg = (case s of c # _ \<Rightarrow> if c = CHR ''-'' then [c] else [] | [] \<Rightarrow> []);
          r = drop (length sg) s
      in case r of
           [] \<Rightarrow> None
         | c # r' \<Rightarrow>
             if c = CHR ''0'' then parse_fraction (sg @ [c]) r'
             else if is_digit c then
               (let ds = takeWhile is_digit r in parse_fraction (sg @ ds) (drop (length ds) r))
             else None)"

definition parse_literal :: "string \<Rightarrow> json \<Rightarrow> string \<Rightarrow> (json \<times> string) option" where
  "parse_literal lit j s = (if take (length lit) s = lit then Some (j, drop (length lit) s) else None)"

definition maxNestingDepth :: nat where
  "maxNestingDepth = 10000"

text \<open>
  Every recursive call has consumed a byte, so fuel twice the length of the text is enough.
\<close>

fun parse_value :: "nat \<Rightarrow> nat \<Rightarrow> string \<Rightarrow> (json \<times> string) option"
  and parse_elements :: "nat \<Rightarrow> nat \<Rightarrow> string \<Rightarrow> ((string \<times> json) list \<times> string) option"
  and parse_members :: "nat \<Rightarrow> nat \<Rightarrow> string \<Rightarrow> ((string \<times> string \<times> json) list \<times> string) option"
where
  "parse_value 0 d s = None"
| "parse_value (Suc n) d s = (case s of
     [] \<Rightarrow> None
   | c # r \<Rightarrow>
       if c = CHR 0x22 then map_option (\<lambda>(t, rest). (JStr t, rest)) (parse_string r)
       else if c = CHR ''{'' then
         (if d \<ge> maxNestingDepth then None
          else (case skip_ws r of
                  [] \<Rightarrow> None
                | e # r' \<Rightarrow> if e = CHR ''}'' then Some (JObj [], r')
                             else map_option (\<lambda>(ms, rest). (JObj ms, rest)) (parse_members n (Suc d) (e # r'))))
       else if c = CHR ''['' then
         (if d \<ge> maxNestingDepth then None
          else (case skip_ws r of
                  [] \<Rightarrow> None
                | e # r' \<Rightarrow> if e = CHR '']'' then Some (JArr [], r')
                             else map_option (\<lambda>(vs, rest). (JArr vs, rest)) (parse_elements n (Suc d) (e # r'))))
       else if c = CHR ''t'' then parse_literal ''true'' (JBool True) s
       else if c = CHR ''f'' then parse_literal ''false'' (JBool False) s
       else if c = CHR ''n'' then parse_literal ''null'' JNull s
       else map_option (\<lambda>(t, rest). (JNum t, rest)) (parse_number s))"
| "parse_elements 0 d s = None"
| "parse_elements (Suc n) d s = (case parse_value n d s of
     None \<Rightarrow> None
   | Some (v, rest) \<Rightarrow>
       let m = (take (length s - length rest) s, v)
       in (case skip_ws rest of
             [] \<Rightarrow> None
           | c # r \<Rightarrow> if c = CHR '']'' then Some ([m], r)
                       else if c = CHR '','' then map_option (\<lambda>(vs, q). (m # vs, q)) (parse_elements n d (skip_ws r))
                       else None))"
| "parse_members 0 d s = None"
| "parse_members (Suc n) d s = (case s of
     [] \<Rightarrow> None
   | c # r \<Rightarrow>
       if c \<noteq> CHR 0x22 then None
       else (case parse_string r of
               None \<Rightarrow> None
             | Some (k, rest) \<Rightarrow>
                 (case skip_ws rest of
                    [] \<Rightarrow> None
                  | e # r1 \<Rightarrow>
                      if e \<noteq> CHR '':'' then None
                      else (case parse_value n d (skip_ws r1) of
                              None \<Rightarrow> None
                            | Some (v, r2) \<Rightarrow>
                                let m = (k, take (length (skip_ws r1) - length r2) (skip_ws r1), v)
                                in (case skip_ws r2 of
                                      [] \<Rightarrow> None
                                    | g # r3 \<Rightarrow>
                                        if g = CHR ''}'' then Some ([m], r3)
                                        else if g = CHR '','' then
                                          map_option (\<lambda>(ms, q). (m # ms, q)) (parse_members n d (skip_ws r3))
                                        else None)))))"

definition json_parse :: "string \<Rightarrow> json option" where
  "json_parse s = (case parse_value (2 * length s + 2) 0 (skip_ws s) of
     None \<Rightarrow> None
   | Some (v, rest) \<Rightarrow> if skip_ws rest = [] then Some v else None)"

definition json_valid :: "string \<Rightarrow> bool" where
  "json_valid s \<longleftrightarrow> json_parse s \<noteq> None"

subsection \<open>Decoding into struct fields\<close>

definition fold_rune :: "rune \<Rightarrow> rune" where
  "fold_rune r = (if 97 \<le> r \<and> r \<le> 122 then r - 32 else if r = 383 then 83 else if r = 8490 then 75 else r)"

definition field_matches :: "string \<Rightarrow> string \<Rightarrow> bool" where
  "field_matches name k \<longleftrightarrow> map (fold_rune \<circ> fst) (runes k) = map (fold_rune \<circ> fst) (runes name)"

text \<open>
  A decoder of one field takes its old value and gives the new one, or \<open>None\<close> for a value of the wrong
  type; decoding an object into a struct reports an error when any member had the wrong type.
\<close>

type_synonym 'a decoder = "string \<Rightarrow> json \<Rightarrow> 'a \<Rightarrow> 'a option"

definition dec_string :: "string decoder" where
  "dec_string raw j old = (case j of JStr s \<Rightarrow> Some s | JNull \<Rightarrow> Some old | _ \<Rightarrow> None)"

definition dec_raw :: "string decoder" where
  "dec_raw raw j old = Some raw"

definition dec_strings :: "string list decoder" where
  "dec_strings raw j old = (case j of
     JNull \<Rightarrow> Some []
   | JArr vs \<Rightarrow> those (map (\<lambda>(r, v). dec_string r v []) vs)
   | _ \<Rightarrow> None)"

text \<open>\<^verbatim>\<open>json.Unmarshal\<close> into \<^verbatim>\<open>[]json.RawMessage\<close>, and \<^verbatim>\<open>json.Marshal\<close> of one (empty when an element is not JSON).\<close>

definition decode_raws :: "string \<Rightarrow> string list option" where
  "decode_raws text = (case json_parse text of
     Some JNull \<Rightarrow> Some []
   | Some (JArr vs) \<Rightarrow> Some (map fst vs)
   | _ \<Rightarrow> None)"

definition encode_raws :: "string list \<Rightarrow> string" where
  "encode_raws raws = (if list_all json_valid raws then ''['' @ commas (map (json_compact False) raws) @ '']'' else [])"

text \<open>\<^verbatim>\<open>strconv.ParseInt(s, 10, 64)\<close> of a number literal.\<close>

definition ParseInt64 :: "string \<Rightarrow> int option" where
  "ParseInt64 s =
     (let (neg, ds) = (case s of c # r \<Rightarrow> if c = CHR ''-'' then (True, r) else (False, s) | [] \<Rightarrow> (False, s))
      in if ds = [] \<or> \<not> list_all is_digit ds then None
         else let v = (if neg then - int (parse_uint ds) else int (parse_uint ds))
              in if - (2 ^ 63) \<le> v \<and> v < 2 ^ 63 then Some v else None)"

definition dec_int64 :: "int decoder" where
  "dec_int64 raw j old = (case j of JNum t \<Rightarrow> ParseInt64 t | JNull \<Rightarrow> Some old | _ \<Rightarrow> None)"

text \<open>The field's value with whether a member for it had the wrong type.\<close>

definition decode_field :: "string \<Rightarrow> 'a decoder \<Rightarrow> 'a \<Rightarrow> json \<Rightarrow> bool \<times> 'a" where
  "decode_field name dec zero j = (case j of
     JNull \<Rightarrow> (False, zero)
   | JObj ms \<Rightarrow>
       foldl (\<lambda>(err, v) (k, raw, x).
          if field_matches name k then (case dec raw x v of None \<Rightarrow> (True, v) | Some v' \<Rightarrow> (err, v')) else (err, v))
         (False, zero) ms
   | _ \<Rightarrow> (True, zero))"

end
