(* ===== verification/JsonRead.thy ===== *)
theory JsonRead
  imports Json
begin

text \<open>What the reader of JSON makes of what the printer printed: numbers, quoted strings and flat structs.\<close>

subsection \<open>Numbers\<close>

lemma is_digit_digit: "d < 10 \<Longrightarrow> is_digit (digit d)"
  by (simp add: is_digit_def digit_def byte_char_of)

lemma FormatUint_digits: "list_all is_digit (FormatUint n)"
proof (induction n rule: FormatUint.induct)
  case (1 n)
  then show ?case by (cases "n < 10") (simp_all add: FormatUint.simps [of n] is_digit_digit)
qed

lemma FormatUint_zero: "hd (FormatUint n) = CHR ''0'' \<Longrightarrow> n = 0"
proof (induction n rule: FormatUint.induct)
  case (1 n)
  show ?case
  proof (cases "n < 10")
    case True
    with 1(2) have "of_char (digit n) = (48 :: nat)" by (simp add: FormatUint.simps [of n])
    with True show ?thesis by (simp add: digit_def)
  next
    case False
    with 1(2) have "hd (FormatUint (n div 10)) = CHR ''0''" by (simp add: FormatUint.simps [of n])
    with 1(1) False have "n div 10 = 0" by blast
    with False show ?thesis by simp
  qed
qed

lemma FormatUint_length: "n < 10 ^ k \<Longrightarrow> 0 < k \<Longrightarrow> length (FormatUint n) \<le> k"
proof (induction n arbitrary: k rule: FormatUint.induct)
  case (1 n)
  show ?case
  proof (cases "n < 10")
    case False
    then obtain j where j: "k = Suc j" "0 < j" using 1(2,3) by (cases k; cases "k = 1") auto
    then have "n div 10 < 10 ^ j" using 1(2) by (simp add: div_less_iff_less_mult mult.commute)
    with 1(1) False j have "length (FormatUint (n div 10)) \<le> j" by blast
    with False j show ?thesis by (simp add: FormatUint.simps [of n])
  qed (use 1(3) in \<open>simp add: FormatUint.simps [of n]\<close>)
qed

lemma FormatUint_0: "FormatUint 0 = ''0''"
  by code_simp

text \<open>A byte after which a number has ended.\<close>

definition ends_number :: "char \<Rightarrow> bool" where
  "ends_number c \<longleftrightarrow> \<not> is_digit c \<and> c \<noteq> CHR ''.'' \<and> c \<noteq> CHR ''e'' \<and> c \<noteq> CHR ''E''"

lemma takeWhile_digits: "list_all is_digit ds \<Longrightarrow> \<not> is_digit c \<Longrightarrow> takeWhile is_digit (ds @ c # r) = ds"
  by (induction ds) auto

lemma parse_fraction_end: "ends_number c \<Longrightarrow> parse_fraction acc (c # r) = Some (acc, c # r)"
  by (simp add: ends_number_def parse_fraction_def parse_exponent_def)

lemma parse_number_uint:
  assumes "ends_number c"
  shows "parse_number (FormatUint n @ c # r) = Some (FormatUint n, c # r)"
    "parse_number (CHR ''-'' # FormatUint n @ c # r) = Some (CHR ''-'' # FormatUint n, c # r)"
proof -
  obtain d ds where f: "FormatUint n = d # ds" by (cases "FormatUint n") auto
  with FormatUint_digits [of n] have d: "is_digit d" "d \<noteq> CHR ''-''" by (auto simp: is_digit_def byte_def)
  have t: "takeWhile is_digit (FormatUint n @ c # r) = FormatUint n"
    using FormatUint_digits assms by (intro takeWhile_digits) (auto simp: ends_number_def)
  have z: "d = CHR ''0'' \<Longrightarrow> ds = []" using FormatUint_zero [of n] f by (auto simp: FormatUint_0)
  show "parse_number (FormatUint n @ c # r) = Some (FormatUint n, c # r)"
    using t f d z parse_fraction_end [OF assms] by (auto simp: parse_number_def Let_def simp del: takeWhile.simps)
  show "parse_number (CHR ''-'' # FormatUint n @ c # r) = Some (CHR ''-'' # FormatUint n, c # r)"
    using t f d z parse_fraction_end [OF assms] by (auto simp: parse_number_def Let_def simp del: takeWhile.simps)
qed

lemma parse_number_FormatInt: "ends_number c \<Longrightarrow> parse_number (FormatInt i @ c # r) = Some (FormatInt i, c # r)"
  by (simp add: FormatInt_def parse_number_uint)

lemma FormatInt_start: "\<exists>c s. FormatInt i = c # s \<and> (is_digit c \<or> c = CHR ''-'')"
proof (cases "i < 0")
  case False
  obtain d ds where "FormatUint (nat i) = d # ds" by (cases "FormatUint (nat i)") auto
  with FormatUint_digits [of "nat i"] False show ?thesis by (auto simp: FormatInt_def)
qed (simp add: FormatInt_def)

lemma parse_value_FormatInt:
  assumes "ends_number c"
  shows "parse_value (Suc n) d (FormatInt i @ c # r) = Some (JNum (FormatInt i), c # r)"
proof -
  obtain e s where f: "FormatInt i = e # s" "is_digit e \<or> e = CHR ''-''" using FormatInt_start by blast
  then have "e \<noteq> CHR 0x22" "e \<noteq> CHR ''{''" "e \<noteq> CHR ''[''" "e \<noteq> CHR ''t''" "e \<noteq> CHR ''f''" "e \<noteq> CHR ''n''"
    by (auto simp: is_digit_def byte_def)
  with f parse_number_FormatInt [OF assms, of i r] show ?thesis by simp
qed

lemma skip_ws_FormatInt: "skip_ws (FormatInt i @ r) = FormatInt i @ r"
proof -
  obtain e s where f: "FormatInt i = e # s" "is_digit e \<or> e = CHR ''-''" using FormatInt_start by blast
  then have "\<not> json_ws e" by (auto simp: is_digit_def json_ws_def byte_def)
  with f show ?thesis by (simp add: skip_ws_def)
qed

lemma ParseInt64_FormatInt: "- (2 ^ 63) \<le> i \<Longrightarrow> i < 2 ^ 63 \<Longrightarrow> ParseInt64 (FormatInt i) = Some i"
proof (cases "i < 0")
  case True
  assume "- (2 ^ 63) \<le> i" "i < 2 ^ 63"
  with True FormatUint_digits [of "nat (- i)"] show ?thesis
    by (simp add: ParseInt64_def FormatInt_def parse_uint_FormatUint)
next
  case False
  assume "- (2 ^ 63) \<le> i" "i < 2 ^ 63"
  moreover obtain d ds where f: "FormatUint (nat i) = d # ds" by (cases "FormatUint (nat i)") auto
  moreover have "d \<noteq> CHR ''-''" using minus_notin_FormatUint [of "nat i"] f by auto
  moreover have "parse_uint (d # ds) = nat i" using parse_uint_FormatUint [of "nat i"] f by simp
  ultimately show ?thesis
    using False FormatUint_digits [of "nat i"] by (simp add: ParseInt64_def FormatInt_def)
qed

subsection \<open>Strings\<close>

definition utf8 :: "string \<Rightarrow> bool" where
  "utf8 s \<longleftrightarrow> (\<exists>rs. (\<forall>r \<in> set rs. valid_rune r) \<and> s = concat (map EncodeRune rs))"

lemma EncodeRune_ascii: "r < 128 \<Longrightarrow> EncodeRune r = [char_of r]"
  by (simp add: EncodeRune_def valid_rune_def)

lemma EncodeRune_start:
  assumes "valid_rune r" "128 \<le> r"
  shows "\<exists>c s. EncodeRune r = c # s \<and> 128 \<le> byte c"
  using assms by (auto simp: EncodeRune_def Let_def byte_def valid_rune_def)

lemma utf8_ascii: "list_all (\<lambda>c. byte c < 128) s \<Longrightarrow> utf8 s"
  unfolding utf8_def
  by (rule exI [of _ "map byte s"]) (induction s; simp add: EncodeRune_ascii valid_rune_def byte_def)

lemma unhex_hex: "d < 16 \<Longrightarrow> unhex (hex d) = Some d"
  by (auto simp: unhex_def hex_def byte_def Let_def)

lemma unhex_0: "unhex (CHR ''0'') = Some 0" "unhex (CHR ''2'') = Some 2"
  by (simp_all add: unhex_def byte_def Let_def)

text \<open>The two kinds of escapes.\<close>

lemma parse_string_escape:
  assumes "unescape d = Some e"
  shows "parse_string (CHR 0x5C # d # t) = map_option (\<lambda>(u, rest). (e # u, rest)) (parse_string t)"
proof -
  have "d \<noteq> CHR ''u''" using assms by (auto simp: unescape_def split: if_splits)
  then have "getu4 (CHR 0x5C # d # t) = None" by (auto simp: getu4_def split: list.splits)
  then show ?thesis using assms by (simp add: byte_def)
qed

lemma parse_string_u4:
  assumes "getu4 (CHR 0x5C # CHR ''u'' # a # b # c # d # t) = Some r" "r < 55296"
  shows "parse_string (CHR 0x5C # CHR ''u'' # a # b # c # d # t) = map_option (\<lambda>(u, rest). (EncodeRune r @ u, rest)) (parse_string t)"
proof -
  have "utf16_pair r q = None" for q using assms(2) by (auto simp: utf16_pair_def split: option.splits)
  then show ?thesis using assms(1) by (simp add: byte_def)
qed

lemma parse_string_plain:
  assumes "valid_rune r" "EncodeRune r = c # s" "c \<noteq> CHR 0x22" "c \<noteq> CHR 0x5C" "32 \<le> byte c"
  shows "parse_string (c # s @ t) = map_option (\<lambda>(u, rest). (EncodeRune r @ u, rest)) (parse_string t)"
  using DecodeRune_EncodeRune [OF assms(1), of t] assms(2-5) by simp

lemma escaped_chars:
  "char_of (34 :: nat) = CHR 0x22" "char_of (92 :: nat) = CHR 0x5C" "char_of (8 :: nat) = CHR 0x08" "char_of (12 :: nat) = CHR 0x0C"
  "char_of (10 :: nat) = CHR 0x0A" "char_of (13 :: nat) = CHR 0x0D" "char_of (9 :: nat) = CHR 0x09"
  by code_simp+

lemma quote_rune_escape:
  assumes "r \<in> {34, 92, 8, 12, 10, 13, 9}"
  shows "\<exists>d. quote_rune (r, b) = [CHR 0x5C, d] \<and> unescape d = Some (char_of r)"
  using assms by (elim insertE emptyE) (simp_all add: quote_rune_def unescape_def escaped_chars)

lemma parse_quote_rune:
  assumes "valid_rune r"
  shows "parse_string (quote_rune (r, EncodeRune r) @ t) = map_option (\<lambda>(u, rest). (EncodeRune r @ u, rest)) (parse_string t)"
proof (cases "r < 128")
  case True
  note E = EncodeRune_ascii [OF True]
  consider "r \<in> {34, 92, 8, 12, 10, 13, 9}"
    | "r \<notin> {34, 92, 8, 12, 10, 13, 9}" "r < 32 \<or> r = 60 \<or> r = 62 \<or> r = 38"
    | "r \<notin> {34, 92, 8, 12, 10, 13, 9}" "\<not> (r < 32 \<or> r = 60 \<or> r = 62 \<or> r = 38)" by blast
  then show ?thesis
  proof cases
    case 1
    then obtain d where "quote_rune (r, EncodeRune r) = [CHR 0x5C, d]" "unescape d = Some (char_of r)"
      using quote_rune_escape by blast
    with parse_string_escape [OF this(2)] E show ?thesis by (simp del: parse_string.simps)
  next
    case 2
    have "getu4 (CHR 0x5C # CHR ''u'' # CHR ''0'' # CHR ''0'' # hex (r div 16) # hex (r mod 16) # t) = Some r"
      using True by (simp add: getu4_def unhex_hex unhex_0)
    from parse_string_u4 [OF this] 2 True show ?thesis by (simp add: quote_rune_def del: parse_string.simps)
  next
    case 3
    have "char_of r \<noteq> CHR 0x22" "char_of r \<noteq> CHR 0x5C" "32 \<le> byte (char_of r)"
      using 3 True by (auto simp: byte_def dest!: arg_cong [of "char_of r" _ "of_char :: char \<Rightarrow> nat"])
    from parse_string_plain [OF assms E this] 3 True E show ?thesis
      by (simp add: quote_rune_def del: parse_string.simps)
  qed
next
  case False
  obtain c s where c: "EncodeRune r = c # s" "128 \<le> byte c" using EncodeRune_start [OF assms] False by (auto simp: not_less)
  then have plain: "c \<noteq> CHR 0x22" "c \<noteq> CHR 0x5C" "32 \<le> byte c" by (auto simp: byte_def)
  show ?thesis
  proof (cases "r = 8232 \<or> r = 8233")
    case True
    have "getu4 (CHR 0x5C # CHR ''u'' # CHR ''2'' # CHR ''0'' # CHR ''2'' # hex (r mod 16) # t) = Some r"
      using True by (auto simp: getu4_def unhex_hex unhex_0)
    from parse_string_u4 [OF this] True show ?thesis by (auto simp: quote_rune_def RuneError_def simp del: parse_string.simps)
  next
    case no: False
    have "length (EncodeRune RuneError) = 3" by (simp add: EncodeRune_def valid_rune_def RuneError_def)
    with no False have "quote_rune (r, EncodeRune r) = EncodeRune r" by (auto simp: quote_rune_def)
    with parse_string_plain [OF assms c(1) plain] c(1) show ?thesis by (simp del: parse_string.simps)
  qed
qed

lemma parse_string_quoted:
  "\<forall>r \<in> set rs. valid_rune r \<Longrightarrow>
   parse_string (concat (map (\<lambda>r. quote_rune (r, EncodeRune r)) rs) @ CHR 0x22 # rest) = Some (concat (map EncodeRune rs), rest)"
  by (induction rs) (simp_all add: parse_quote_rune)

lemma json_quote_shape:
  assumes "utf8 s"
  obtains t where "json_quote s = CHR 0x22 # t" "\<And>r. parse_string (t @ r) = Some (s, r)"
proof -
  obtain rs where rs: "\<forall>r \<in> set rs. valid_rune r" "s = concat (map EncodeRune rs)" using assms by (auto simp: utf8_def)
  show thesis
    by (rule that [of "concat (map (\<lambda>r. quote_rune (r, EncodeRune r)) rs) @ [CHR 0x22]"])
      (use rs in \<open>simp_all add: json_quote_def runes_encoded comp_def parse_string_quoted\<close>)
qed

subsection \<open>Flat structs\<close>

fun json_of :: "jval \<Rightarrow> json" where
  "json_of (VStr s) = JStr s"
| "json_of (VBool b) = JBool b"
| "json_of (VInt i) = JNum (FormatInt i)"
| "json_of (VRaw r) = JNull"

fun plain_value :: "jval \<Rightarrow> bool" where
  "plain_value (VStr s) = utf8 s"
| "plain_value (VRaw r) = False"
| "plain_value _ = True"

lemma skip_ws_Cons: "\<not> json_ws c \<Longrightarrow> skip_ws (c # s) = c # s"
  by (simp add: skip_ws_def)

lemma not_json_ws: "\<not> json_ws (CHR 0x22)" "\<not> json_ws (CHR '':'')" "\<not> json_ws (CHR '','')" "\<not> json_ws (CHR ''}'')"
  "\<not> json_ws (CHR ''{'')" "\<not> json_ws (CHR ''t'')" "\<not> json_ws (CHR ''f'')"
  by (simp_all add: json_ws_def byte_def)

lemma separators_end_number: "ends_number (CHR '','')" "ends_number (CHR ''}'')"
  by (simp_all add: ends_number_def is_digit_def byte_def)

lemma parse_plain_value:
  assumes "plain_value v" "ends_number c"
  shows "parse_value (Suc n) d (print_jval v @ c # r) = Some (json_of v, c # r)"
    and "skip_ws (print_jval v @ c # r) = print_jval v @ c # r"
proof -
  have "parse_value (Suc n) d (print_jval v @ c # r) = Some (json_of v, c # r)
      \<and> skip_ws (print_jval v @ c # r) = print_jval v @ c # r"
  proof (cases v)
    case (VStr s)
    with assms obtain t where "json_quote s = CHR 0x22 # t" "\<And>r. parse_string (t @ r) = Some (s, r)"
      using json_quote_shape by auto
    with VStr show ?thesis by (simp add: skip_ws_Cons not_json_ws)
  next
    case (VInt i)
    then show ?thesis using parse_value_FormatInt [OF assms(2)] skip_ws_FormatInt by (simp del: parse_value.simps)
  qed (use assms in \<open>auto simp: parse_literal_def skip_ws_Cons not_json_ws\<close>)
  then show "parse_value (Suc n) d (print_jval v @ c # r) = Some (json_of v, c # r)"
    "skip_ws (print_jval v @ c # r) = print_jval v @ c # r" by blast+
qed

definition read_member :: "string \<times> jval \<Rightarrow> string \<times> string \<times> json" where
  "read_member = (\<lambda>(k, v). (k, print_jval v, json_of v))"

definition plain_member :: "string \<times> jval \<Rightarrow> bool" where
  "plain_member = (\<lambda>(k, v). utf8 k \<and> plain_value v)"

lemma parse_member:
  assumes "plain_member m" "c = CHR '','' \<or> c = CHR ''}''"
  shows "parse_members (Suc (Suc n)) d (print_member m @ c # r) =
    (if c = CHR ''}'' then Some ([read_member m], r)
     else map_option (\<lambda>(ms, q). (read_member m # ms, q)) (parse_members (Suc n) d (skip_ws r)))"
proof -
  obtain k v where m: "m = (k, v)" by (cases m)
  with assms(1) obtain t where t: "json_quote k = CHR 0x22 # t" "\<And>r. parse_string (t @ r) = Some (k, r)"
    using json_quote_shape by (auto simp: plain_member_def)
  have e: "ends_number c" using assms(2) separators_end_number by auto
  from assms(1) m have p: "plain_value v" by (simp add: plain_member_def)
  have "\<not> json_ws c" using assms(2) not_json_ws by auto
  then show ?thesis
    using assms(2) parse_plain_value [OF p e] t
    by (auto simp: m print_member_def read_member_def skip_ws_Cons not_json_ws simp del: parse_value.simps parse_string.simps)
qed

lemma skip_ws_member: "plain_member m \<Longrightarrow> skip_ws (print_member m @ r) = print_member m @ r"
  using json_quote_shape by (fastforce simp: print_member_def plain_member_def skip_ws_Cons not_json_ws split: prod.splits)

lemma parse_plain_members:
  "ms \<noteq> [] \<Longrightarrow> list_all plain_member ms \<Longrightarrow>
   parse_members (Suc (length ms + n)) d (commas (map print_member ms) @ CHR ''}'' # r) = Some (map read_member ms, r)
   \<and> skip_ws (commas (map print_member ms) @ CHR ''}'' # r) = commas (map print_member ms) @ CHR ''}'' # r"
proof (induction ms arbitrary: n)
  case (Cons m ms)
  then have m: "plain_member m" by simp
  show ?case
  proof (cases ms)
    case Nil
    with m show ?thesis using parse_member [OF m, of "CHR ''}''" n d r] skip_ws_member [OF m] by (simp del: parse_members.simps)
  next
    case (Cons m' ms')
    with Cons.IH [of n] Cons.prems have IH:
      "parse_members (Suc (length ms + n)) d (commas (map print_member ms) @ CHR ''}'' # r) = Some (map read_member ms, r)"
      "skip_ws (commas (map print_member ms) @ CHR ''}'' # r) = commas (map print_member ms) @ CHR ''}'' # r" by auto
    have "commas (map print_member (m # ms)) @ CHR ''}'' # r = print_member m @ CHR '','' # commas (map print_member ms) @ CHR ''}'' # r"
      using Cons by simp
    then show ?thesis
      using parse_member [OF m, of "CHR '',''" "length ms + n" d "commas (map print_member ms) @ CHR ''}'' # r"] IH skip_ws_member [OF m]
      by (simp del: parse_members.simps commas.simps)
  qed
qed simp

lemma json_parse_struct:
  assumes "ms \<noteq> []" "list_all plain_member ms"
  shows "json_parse (print_struct ms) = Some (JObj (map read_member ms))"
proof -
  obtain m ms' where ms: "ms = m # ms'" using assms(1) by (cases ms) auto
  let ?body = "commas (map print_member ms) @ ''}''"
  have len: "length ms \<le> length (commas (map print_member ms))" for ms
    by (induction ms rule: induct_list012) (auto simp: print_member_def split: prod.splits)
  have "length ms + 2 \<le> 2 * length (print_struct ms) + 2" using len [of ms] by (simp add: print_struct_def)
  then obtain k where k: "2 * length (print_struct ms) + 2 = Suc (Suc (length ms + k))" by (auto dest!: le_Suc_ex)
  have body: "parse_members (Suc (length ms + k)) (Suc 0) ?body = Some (map read_member ms, [])" "skip_ws ?body = ?body"
    using parse_plain_members [OF assms, of k "Suc 0" "[]"] by simp_all
  obtain c t where c: "?body = c # t" "c = CHR 0x22"
  proof -
    have "utf8 (fst m)" using assms(2) ms by (auto simp: plain_member_def split: prod.splits)
    then obtain q where "json_quote (fst m) = CHR 0x22 # q" using json_quote_shape by blast
    then show thesis using that by (cases m; cases ms') (auto simp: ms print_member_def)
  qed
  have "json_parse (print_struct ms) = (case parse_value (Suc (Suc (length ms + k))) 0 (CHR ''{'' # ?body) of
      None \<Rightarrow> None | Some (v, rest) \<Rightarrow> if skip_ws rest = [] then Some v else None)"
    unfolding json_parse_def k by (simp add: print_struct_def skip_ws_Cons not_json_ws del: parse_value.simps)
  also have "parse_value (Suc (Suc (length ms + k))) 0 (CHR ''{'' # ?body) = Some (JObj (map read_member ms), [])"
    using body c by (simp add: maxNestingDepth_def del: parse_members.simps)
  finally show ?thesis by (simp add: skip_ws_def)
qed

end
