(* ===== verification/GoFmt.thy ===== *)
theory GoFmt
  imports Json
begin

text \<open>
  More of Go's standard library, as the engine uses it for its messages: \<^verbatim>\<open>fmt\<close>'s \<^verbatim>\<open>%q\<close>
  (\<^verbatim>\<open>strconv.Quote\<close>) and the layouts of \<^verbatim>\<open>time.Time.Format\<close>.  Times are microseconds since the Unix epoch, in UTC.
  Unicode's table of printable characters above U+00FF is an argument of \<open>Quote\<close>.
\<close>

subsection \<open>Quoting\<close>

definition IsPrint :: "(rune \<Rightarrow> bool) \<Rightarrow> rune \<Rightarrow> bool" where
  "IsPrint table r \<longleftrightarrow> (if r < 256 then 32 \<le> r \<and> r < 127 \<or> 161 \<le> r \<and> r \<noteq> 173 else table r)"

fun hex_digits :: "nat \<Rightarrow> nat \<Rightarrow> string" where
  "hex_digits 0 n = []"
| "hex_digits (Suc k) n = hex_digits k (n div 16) @ [hex (n mod 16)]"

definition quote_escape :: "rune \<Rightarrow> string" where
  "quote_escape r =
     CHR 0x5C # (if r = 7 then ''a'' else if r = 8 then ''b'' else if r = 12 then ''f'' else if r = 10 then ''n''
       else if r = 13 then ''r'' else if r = 9 then ''t'' else if r = 11 then ''v''
       else if r < 32 \<or> r = 127 then CHR ''x'' # hex_digits 2 r
       else if r < 65536 then CHR ''u'' # hex_digits 4 r
       else CHR ''U'' # hex_digits 8 r)"

definition Quote_rune :: "(rune \<Rightarrow> bool) \<Rightarrow> rune \<times> string \<Rightarrow> string" where
  "Quote_rune table = (\<lambda>(r, b).
     if length b = 1 \<and> r = RuneError then CHR 0x5C # CHR ''x'' # hex_digits 2 (byte (hd b))
     else if r = 34 \<or> r = 92 then CHR 0x5C # b
     else if IsPrint table r then b else quote_escape r)"

definition Quote :: "(rune \<Rightarrow> bool) \<Rightarrow> string \<Rightarrow> string" where
  "Quote table s = [CHR 0x22] @ concat (map (Quote_rune table) (runes s)) @ [CHR 0x22]"

subsection \<open>Dates\<close>

record civil =
  cvYear :: int
  cvMonth :: nat
  cvDay :: nat

text \<open>The proleptic Gregorian date of a day number, counted from 1 January 1970.\<close>

definition civil_of_day :: "int \<Rightarrow> civil" where
  "civil_of_day n =
     (let z = n + 719468; era = z div 146097; doe = z mod 146097;
          yoe = (doe - doe div 1460 + doe div 36524 - doe div 146096) div 365;
          doy = doe - (365 * yoe + yoe div 4 - yoe div 100);
          mp = (5 * doy + 2) div 153;
          m = (if mp < 10 then mp + 3 else mp - 9)
      in \<lparr>cvYear = yoe + era * 400 + (if m \<le> 2 then 1 else 0), cvMonth = nat m, cvDay = nat (doy - (153 * mp + 2) div 5 + 1)\<rparr>)"

definition day_us :: int where "day_us = 86400000000"

definition civil_of :: "int \<Rightarrow> civil" where "civil_of t = civil_of_day (t div day_us)"

definition weekday_name :: "int \<Rightarrow> string" where
  "weekday_name t = [''Sunday'', ''Monday'', ''Tuesday'', ''Wednesday'', ''Thursday'', ''Friday'', ''Saturday'']
     ! nat ((t div day_us + 4) mod 7)"

definition month_name :: "nat \<Rightarrow> string" where
  "month_name m = [''January'', ''February'', ''March'', ''April'', ''May'', ''June'', ''July'', ''August'', ''September'',
     ''October'', ''November'', ''December''] ! (m - 1)"

definition pad0 :: "nat \<Rightarrow> nat \<Rightarrow> string" where
  "pad0 w n = (let s = FormatUint n in replicate (w - length s) (CHR ''0'') @ s)"

definition pad_year :: "int \<Rightarrow> string" where
  "pad_year y = (if y < 0 then CHR ''-'' # pad0 4 (nat (- y)) else pad0 4 (nat y))"

definition clock_part :: "int \<Rightarrow> int \<Rightarrow> nat \<Rightarrow> nat" where
  "clock_part t unit n = nat (t mod day_us div unit) mod n"

definition hour_of :: "int \<Rightarrow> nat" where "hour_of t = clock_part t 3600000000 24"
definition minute_of :: "int \<Rightarrow> nat" where "minute_of t = clock_part t 60000000 60"
definition second_of :: "int \<Rightarrow> nat" where "second_of t = clock_part t 1000000 60"

text \<open>The layouts \<^verbatim>\<open>Monday 2 January 2006\<close>, \<^verbatim>\<open>2006-01-02 15:04\<close> and \<^verbatim>\<open>time.RFC3339\<close> of a time in UTC.\<close>

definition format_long_date :: "int \<Rightarrow> string" where
  "format_long_date t = (let c = civil_of t in
     weekday_name t @ '' '' @ FormatUint (cvDay c) @ '' '' @ month_name (cvMonth c) @ '' '' @ pad_year (cvYear c))"

definition format_date :: "int \<Rightarrow> string" where
  "format_date t = (let c = civil_of t in pad_year (cvYear c) @ ''-'' @ pad0 2 (cvMonth c) @ ''-'' @ pad0 2 (cvDay c))"

definition format_minute :: "int \<Rightarrow> string" where
  "format_minute t = format_date t @ '' '' @ pad0 2 (hour_of t) @ '':'' @ pad0 2 (minute_of t)"

definition format_rfc3339 :: "int \<Rightarrow> string" where
  "format_rfc3339 t = format_date t @ ''T'' @ pad0 2 (hour_of t) @ '':'' @ pad0 2 (minute_of t) @ '':'' @ pad0 2 (second_of t) @ ''Z''"

end
