(* ===== verification/Base64.thy ===== *)
theory Base64
  imports Prelude
begin

text \<open>
  Go's \<^verbatim>\<open>base64.RawURLEncoding\<close>: the URL alphabet without padding.  Decoding ignores carriage returns and line feeds, refuses every
  other byte outside the alphabet and a last group of one digit, and does not look at the unused bits of the last group
  (the encoding is not strict).
\<close>

definition b64_char :: "nat \<Rightarrow> char" where
  "b64_char n =
     (if n < 26 then char_of (65 + n) else if n < 52 then char_of (71 + n) else if n < 62 then char_of (n - 4)
      else if n = 62 then CHR ''-'' else CHR ''_'')"

definition b64_value :: "char \<Rightarrow> nat option" where
  "b64_value c = (let b = of_char c in
     if 65 \<le> b \<and> b \<le> 90 then Some (b - 65) else if 97 \<le> b \<and> b \<le> 122 then Some (b - 71)
     else if 48 \<le> b \<and> b \<le> 57 then Some (b + 4) else if b = 45 then Some 62 else if b = 95 then Some 63 else None)"

fun b64_digits :: "nat list \<Rightarrow> nat list" where
  "b64_digits [] = []"
| "b64_digits [a] = [a div 4, a mod 4 * 16]"
| "b64_digits [a, b] = [a div 4, a mod 4 * 16 + b div 16, b mod 16 * 4]"
| "b64_digits (a # b # c # r) = a div 4 # (a mod 4 * 16 + b div 16) # (b mod 16 * 4 + c div 64) # c mod 64 # b64_digits r"

definition EncodeToString :: "bytes \<Rightarrow> string" where
  "EncodeToString s = map b64_char (b64_digits (map of_char s))"

fun b64_bytes :: "nat list \<Rightarrow> nat list option" where
  "b64_bytes [] = Some []"
| "b64_bytes [d] = None"
| "b64_bytes [d, e] = Some [d * 4 + e div 16]"
| "b64_bytes [d, e, f] = Some [d * 4 + e div 16, e mod 16 * 16 + f div 4]"
| "b64_bytes (d # e # f # g # r) =
     map_option (\<lambda>bs. (d * 4 + e div 16) # (e mod 16 * 16 + f div 4) # (f mod 4 * 64 + g) # bs) (b64_bytes r)"

definition DecodeString :: "string \<Rightarrow> bytes option" where
  "DecodeString s = (case those (map b64_value (filter (\<lambda>c. c \<noteq> CHR 0x0A \<and> c \<noteq> CHR 0x0D) s)) of
     None \<Rightarrow> None
   | Some ds \<Rightarrow> map_option (map char_of) (b64_bytes ds))"

subsection \<open>Decoding undoes encoding\<close>

lemma of_b64_char: "n < 64 \<Longrightarrow> of_char (b64_char n) =
    (if n < 26 then 65 + n else if n < 52 then 71 + n else if n < 62 then n - 4 else if n = 62 then 45 else 95)"
  by (simp add: b64_char_def)

lemma b64_value_char: "n < 64 \<Longrightarrow> b64_value (b64_char n) = Some n"
  by (auto simp: b64_value_def Let_def of_b64_char)

lemma b64_char_no_newline: "n < 64 \<Longrightarrow> b64_char n \<noteq> CHR 0x0A \<and> b64_char n \<noteq> CHR 0x0D"
  using of_b64_char [of n] by (auto split: if_splits)

lemma b64_digits_less: "\<forall>b \<in> set bs. b < 256 \<Longrightarrow> d \<in> set (b64_digits bs) \<Longrightarrow> d < 64"
  by (induction bs rule: b64_digits.induct) auto

lemma b64_bytes_digits: "\<forall>b \<in> set bs. b < 256 \<Longrightarrow> b64_bytes (b64_digits bs) = Some bs"
  by (induction bs rule: b64_digits.induct) auto

lemma those_map_Some: "(\<And>x. x \<in> set xs \<Longrightarrow> f x = Some (g x)) \<Longrightarrow> those (map f xs) = Some (map g xs)"
  by (induction xs) auto

lemma DecodeString_EncodeToString: "DecodeString (EncodeToString s) = Some s"
proof -
  let ?ds = "b64_digits (map of_char s)"
  have small: "\<forall>b \<in> set (map of_char s). b < (256 :: nat)" by auto
  have "filter (\<lambda>c. c \<noteq> CHR 0x0A \<and> c \<noteq> CHR 0x0D) (map b64_char ?ds) = map b64_char ?ds"
    using b64_digits_less [OF small] by (simp add: filter_id_conv b64_char_no_newline)
  moreover have "those (map b64_value (map b64_char ?ds)) = Some ?ds"
    using those_map_Some [of ?ds "b64_value \<circ> b64_char" id] b64_digits_less [OF small] by (simp add: b64_value_char)
  ultimately show ?thesis using b64_bytes_digits [OF small] by (simp add: DecodeString_def EncodeToString_def map_idI)
qed

lemma EncodeToString_eq_Nil [simp]: "EncodeToString s = [] \<longleftrightarrow> s = []"
proof (cases s)
  case (Cons c r)
  then show ?thesis by (cases r; cases "tl r") (auto simp: EncodeToString_def)
qed (simp add: EncodeToString_def)

lemma length_b64_digits: "length (b64_digits bs) \<le> 2 * length bs"
  by (induction bs rule: b64_digits.induct) auto

end
