(* ===== verification/AuditServer.thy ===== *)
theory AuditServer
  imports AuditTrail JsonRead GoFmt Base64
begin

text \<open>
  The audit service's API, after \<^verbatim>\<open>services/audit/internal/server/server.go\<close>: validation of events, page tokens, the
  three handlers and the interceptor around them.  Times are nanoseconds.  Parsing a UUID (\<open>parse\<close>, giving its canonical text), SHA-256
  (\<open>sha\<close>) and Unicode's printable runes are parameters; metrics and logging are left out.
\<close>

datatype audit_error = Invalid string | Internal_error string

definition maxBatch :: nat where "maxBatch = 500"
definition maxDetails :: nat where "maxDetails = 16"
definition maxDetailValue :: nat where "maxDetailValue = 256"
definition defaultPage :: int where "defaultPage = 50"
definition maxPage :: int where "maxPage = 200"
definition maxClockSkew :: int where "maxClockSkew = 300000000000"

subsection \<open>Patterns\<close>

definition lower_digit :: "char \<Rightarrow> bool" where
  "lower_digit c \<longleftrightarrow> CHR ''a'' \<le> c \<and> c \<le> CHR ''z'' \<or> CHR ''0'' \<le> c \<and> c \<le> CHR ''9''"

definition name_char :: "char \<Rightarrow> bool" where
  "name_char c \<longleftrightarrow> lower_digit c \<or> c = CHR ''_'' \<or> c = CHR ''.''"

definition actionPattern :: "string \<Rightarrow> bool" where
  "actionPattern s \<longleftrightarrow> 3 \<le> length s \<and> length s \<le> 64 \<and> list_all name_char s"

definition detailKeyPattern :: "string \<Rightarrow> bool" where
  "detailKeyPattern s \<longleftrightarrow> 1 \<le> length s \<and> length s \<le> 32 \<and> list_all (\<lambda>c. lower_digit c \<or> c = CHR ''_'') s"

definition printablePattern :: "string \<Rightarrow> bool" where
  "printablePattern s \<longleftrightarrow> list_all (\<lambda>c. 0x21 \<le> byte c \<and> byte c \<le> 0x7E) s"

definition requestIDPattern :: "string \<Rightarrow> bool" where
  "requestIDPattern s \<longleftrightarrow> 1 \<le> length s \<and> length s \<le> 128 \<and>
     list_all (\<lambda>c. CHR ''A'' \<le> c \<and> c \<le> CHR ''Z'' \<or> lower_digit c \<or> c \<in> {CHR ''.'', CHR ''_'', CHR '':'', CHR ''-''}) s"

definition prefixPattern :: "string \<Rightarrow> bool" where
  "prefixPattern s \<longleftrightarrow> 1 \<le> length s \<and> length s \<le> 64 \<and> list_all name_char s"

subsection \<open>Events\<close>

text \<open>
  An event as it is sent and listed.  Its occur time is the message's timestamp, if it has one: whether the
  timestamp is valid (\<^verbatim>\<open>CheckValid\<close>), and the time it stands for.  Enumerations are their numbers.
\<close>

record event_proto =
  epEventId :: string
  epTenantId :: string
  epOccurTime :: "(bool \<times> int) option"
  epActorKind :: int
  epActorId :: string
  epOnBehalfOf :: string
  epAction :: string
  epTargetType :: string
  epTargetId :: string
  epOutcome :: int
  epReason :: string
  epRequestId :: string
  epDetails :: "(string \<times> string) list"
  epSource :: string
  epSequence :: int
  epHash :: bytes
  epRecordTime :: "int option"

definition actor_kinds :: "(int \<times> string) list" where
  "actor_kinds = [(0, ''ACTOR_KIND_UNSPECIFIED''), (1, ''ACTOR_KIND_USER''), (2, ''ACTOR_KIND_ASSISTANT''),
     (3, ''ACTOR_KIND_DEVICE''), (4, ''ACTOR_KIND_SERVICE'')]"

definition outcomes :: "(int \<times> string) list" where
  "outcomes = [(0, ''OUTCOME_UNSPECIFIED''), (1, ''OUTCOME_SUCCESS''), (2, ''OUTCOME_FAILURE''), (3, ''OUTCOME_DENIED'')]"

text \<open>\<^verbatim>\<open>String()\<close> of an enumeration's number, and the look-up in its table of names, zero for any other.\<close>

definition enum_name :: "(int \<times> string) list \<Rightarrow> int \<Rightarrow> string" where
  "enum_name names k = (case map_of names k of Some s \<Rightarrow> s | None \<Rightarrow> FormatInt k)"

definition enum_value :: "(int \<times> string) list \<Rightarrow> string \<Rightarrow> int" where
  "enum_value names s = (case map_of (map prod.swap names) s of Some k \<Rightarrow> k | None \<Rightarrow> 0)"

definition canonicalUUID :: "(string \<Rightarrow> string option) \<Rightarrow> string \<Rightarrow> string \<Rightarrow> (string, string) result" where
  "canonicalUUID parse field v = (case parse v of None \<Rightarrow> Inl (field @ '' must be a UUID'') | Some i \<Rightarrow> Inr i)"

definition bounded :: "string \<Rightarrow> string \<Rightarrow> nat \<Rightarrow> string option" where
  "bounded field v mx = (if length v > mx \<or> \<not> printablePattern v
     then Some (field @ '' must be at most '' @ FormatUint mx @ '' printable ASCII characters'') else None)"

definition event_checks :: "event_proto \<Rightarrow> (string \<times> string \<times> nat) list" where
  "event_checks e = [(''actor.id'', epActorId e, 128), (''on_behalf_of'', epOnBehalfOf e, 128), (''target_type'', epTargetType e, 64),
     (''target_id'', epTargetId e, 128), (''reason'', epReason e, 64), (''request_id'', epRequestId e, 128)]"

fun first_error :: "string option list \<Rightarrow> string option" where
  "first_error [] = None"
| "first_error (None # es) = first_error es"
| "first_error (Some m # es) = Some m"

definition detail_error :: "(rune \<Rightarrow> bool) \<Rightarrow> string \<times> string \<Rightarrow> string option" where
  "detail_error table = (\<lambda>(k, v).
     if \<not> detailKeyPattern k then Some ''detail keys must be 1 to 32 of a-z 0-9 _''
     else if RuneCountInString v > maxDetailValue \<or> list_ex (\<lambda>(r, _). IsControl r) (runes v)
     then Some (''detail '' @ Quote table k @ '' must be at most '' @ FormatUint maxDetailValue @
       '' characters, without control characters'')
     else None)"

definition occur_of :: "int \<Rightarrow> int" where
  "occur_of t = t - t mod Precision"

text \<open>The checks after the identifiers and the time.\<close>

definition event_error :: "(rune \<Rightarrow> bool) \<Rightarrow> event_proto \<Rightarrow> string option" where
  "event_error table e =
     (if epActorKind e = 0 \<or> epActorId e = [] then Some ''actor kind and id are required''
      else case first_error (map (\<lambda>(field, v, mx). bounded field v mx) (event_checks e)) of
        Some m \<Rightarrow> Some m
      | None \<Rightarrow>
          if \<not> actionPattern (epAction e) then Some ''action must be 3 to 64 of a-z 0-9 . _''
          else if epOutcome e = 0 then Some ''outcome is required''
          else if length (epDetails e) > maxDetails then Some (''at most '' @ FormatUint maxDetails @ '' details'')
          else first_error (map (detail_error table) (epDetails e)))"

definition chain_event :: "string \<Rightarrow> string \<Rightarrow> int \<Rightarrow> event_proto \<Rightarrow> event" where
  "chain_event tenantID eventID occur e =
     \<lparr>evTenantID = tenantID, evSequence = 0, evEventID = eventID, evOccurTime = occur, evRecordTime = 0,
      evActorKind = enum_name actor_kinds (epActorKind e), evActorID = epActorId e, evOnBehalfOf = epOnBehalfOf e,
      evAction = epAction e, evTargetType = epTargetType e, evTargetID = epTargetId e,
      evOutcome = enum_name outcomes (epOutcome e), evReason = epReason e, evRequestID = epRequestId e,
      evSource = [], evDetails = epDetails e\<rparr>"

definition check_event :: "(rune \<Rightarrow> bool) \<Rightarrow> (string \<Rightarrow> string option) \<Rightarrow> int \<Rightarrow> event_proto \<Rightarrow> (string, event) result" where
  "check_event table parse now e = (case canonicalUUID parse ''event_id'' (epEventId e) of
     Inl m \<Rightarrow> Inl m
   | Inr eventID \<Rightarrow> (case canonicalUUID parse ''tenant_id'' (epTenantId e) of
       Inl m \<Rightarrow> Inl m
     | Inr tenantID \<Rightarrow> (case epOccurTime e of
         Some (True, t) \<Rightarrow>
           if occur_of t > now + maxClockSkew then Inl ''occur_time is in the future''
           else (case event_error table e of
             Some m \<Rightarrow> Inl m
           | None \<Rightarrow> Inr (chain_event tenantID eventID (occur_of t) e))
       | _ \<Rightarrow> Inl ''occur_time is required'')))"

subsection \<open>Record\<close>

text \<open>The clock is read for every event; \<open>now i\<close> is its value at event \<open>i\<close>.\<close>

fun check_events :: "(rune \<Rightarrow> bool) \<Rightarrow> (string \<Rightarrow> string option) \<Rightarrow> (nat \<Rightarrow> int) \<Rightarrow> nat \<Rightarrow> event_proto list
    \<Rightarrow> (audit_error, event list) result" where
  "check_events table parse now i [] = Inr []"
| "check_events table parse now i (e # es) = (case check_event table parse (now i) e of
     Inl m \<Rightarrow> Inl (Invalid (''event '' @ FormatUint i @ '': '' @ m))
   | Inr c \<Rightarrow> (case check_events table parse now (i + 1) es of Inl err \<Rightarrow> Inl err | Inr cs \<Rightarrow> Inr (c # cs)))"

definition internal_error :: "string \<Rightarrow> audit_error" where
  "internal_error i = Internal_error (''internal error (request '' @ i @ '')'')"

definition int32_of :: "nat \<Rightarrow> int" where
  "int32_of n = (int n + 2 ^ 31) mod 2 ^ 32 - 2 ^ 31"

definition Record :: "(bytes \<Rightarrow> bytes) \<Rightarrow> (rune \<Rightarrow> bool) \<Rightarrow> (string \<Rightarrow> string option) \<Rightarrow> (nat \<Rightarrow> int) \<Rightarrow> int \<Rightarrow> string \<Rightarrow> string
    \<Rightarrow> event_proto list \<Rightarrow> audit_db \<Rightarrow> (audit_error, int \<times> int) result \<times> audit_db" where
  "Record sha table parse now storeNow source requestID es db =
     (if es = [] \<or> length es > maxBatch then (Inl (Invalid (''a batch has 1 to '' @ FormatUint maxBatch @ '' events'')), db)
      else case check_events table parse now 0 es of
        Inl err \<Rightarrow> (Inl err, db)
      | Inr events \<Rightarrow> (case Append sha storeNow source events db of
          None \<Rightarrow> (Inl (internal_error requestID), db)
        | Some (recorded, duplicates, db') \<Rightarrow> (Inr (int32_of recorded, int32_of duplicates), db')))"

subsection \<open>ListEvents\<close>

definition encodeToken :: "audit_cursor option \<Rightarrow> string" where
  "encodeToken c = (case c of
     None \<Rightarrow> []
   | Some c \<Rightarrow> EncodeToString (print_struct [(''t'', VInt (UnixMicro (cuOccurTime c))), (''s'', VInt (cuSequence c))]))"

text \<open>\<^verbatim>\<open>json.Unmarshal\<close> into a \<^verbatim>\<open>pageToken\<close>: an error, or its two numbers.\<close>

definition decode_page_token :: "bytes \<Rightarrow> (int \<times> int) option" where
  "decode_page_token text = (case json_parse text of
     None \<Rightarrow> None
   | Some j \<Rightarrow>
       (let (err1, t) = decode_field ''t'' dec_int64 0 j; (err2, s) = decode_field ''s'' dec_int64 0 j
        in if err1 \<or> err2 then None else Some (t, s)))"

definition decodeToken :: "string \<Rightarrow> (audit_error, audit_cursor option) result" where
  "decodeToken token =
     (if token = [] then Inr None
      else case DecodeString token of
        None \<Rightarrow> Inl (Invalid ''page_token is not valid'')
      | Some text \<Rightarrow>
          if length token > 256 then Inl (Invalid ''page_token is not valid'')
          else case decode_page_token text of
            None \<Rightarrow> Inl (Invalid ''page_token is not valid'')
          | Some (t, s) \<Rightarrow>
              if s < 1 then Inl (Invalid ''page_token is not valid'')
              else Inr (Some \<lparr>cuOccurTime = t * Precision, cuSequence = s\<rparr>))"

definition toProto :: "row \<Rightarrow> event_proto" where
  "toProto r = (let e = rowEvent r in
     \<lparr>epEventId = evEventID e, epTenantId = evTenantID e, epOccurTime = Some (True, evOccurTime e),
      epActorKind = enum_value actor_kinds (evActorKind e), epActorId = evActorID e, epOnBehalfOf = evOnBehalfOf e,
      epAction = evAction e, epTargetType = evTargetType e, epTargetId = evTargetID e,
      epOutcome = enum_value outcomes (evOutcome e), epReason = evReason e, epRequestId = evRequestID e,
      epDetails = evDetails e, epSource = evSource e, epSequence = evSequence e, epHash = rowHash r,
      epRecordTime = Some (evRecordTime e)\<rparr>)"

record list_request =
  lrTenantId :: string
  lrUserId :: string
  lrActionPrefix :: string
  lrSince :: "int option"
  lrUntil :: "int option"
  lrPageSize :: int
  lrPageToken :: string

text \<open>\<open>None\<close> is a panic.\<close>

definition ListEvents :: "(string \<Rightarrow> string option) \<Rightarrow> list_request \<Rightarrow> audit_db
    \<Rightarrow> (audit_error, event_proto list \<times> string) result option" where
  "ListEvents parse req db = (case parse (lrTenantId req) of
     None \<Rightarrow> Some (Inl (Invalid ''tenant_id must be a UUID''))
   | Some tenant \<Rightarrow> (case bounded ''user_id'' (lrUserId req) 128 of
       Some m \<Rightarrow> Some (Inl (Invalid m))
     | None \<Rightarrow>
         if lrActionPrefix req \<noteq> [] \<and> \<not> prefixPattern (lrActionPrefix req)
         then Some (Inl (Invalid ''action_prefix must be 1 to 64 of a-z 0-9 . _''))
         else if lrPageSize req < 0 \<or> lrPageSize req > maxPage
         then Some (Inl (Invalid (''page_size must be 1 to '' @ FormatInt maxPage)))
         else (case decodeToken (lrPageToken req) of
           Inl err \<Rightarrow> Some (Inl err)
         | Inr after \<Rightarrow>
             (let f = \<lparr>fiTenantID = tenant, fiUserID = lrUserId req, fiActionPrefix = lrActionPrefix req, fiSince = lrSince req,
                fiUntil = lrUntil req, fiPageSize = nat (if lrPageSize req = 0 then defaultPage else lrPageSize req), fiAfter = after\<rparr>
              in case List_events f db of
                None \<Rightarrow> None
              | Some (records, nxt) \<Rightarrow> Some (Inr (map toProto records, encodeToken nxt))))))"

subsection \<open>VerifyChain and the interceptor\<close>

definition VerifyChain :: "(bytes \<Rightarrow> bytes) \<Rightarrow> (string \<Rightarrow> string option) \<Rightarrow> string \<Rightarrow> audit_db \<Rightarrow> (audit_error, verification) result" where
  "VerifyChain sha parse tenantID db = (case parse tenantID of
     None \<Rightarrow> Inl (Invalid ''tenant_id must be a UUID'')
   | Some tenant \<Rightarrow> Inr (Verify sha tenant db))"

text \<open>
  The request's id is the caller's when there is exactly one and it is well-formed, and a new one otherwise; a handler that panics
  (\<open>None\<close>) answers with an internal error.
\<close>

definition request_id :: "string list \<Rightarrow> string \<Rightarrow> string" where
  "request_id values fresh = (case values of [v] \<Rightarrow> if requestIDPattern v then v else fresh | _ \<Rightarrow> fresh)"

definition UnaryInterceptor :: "string list \<Rightarrow> string \<Rightarrow> (string \<Rightarrow> (audit_error, 'a) result option) \<Rightarrow> (audit_error, 'a) result" where
  "UnaryInterceptor values fresh handler =
     (let i = request_id values fresh in case handler i of None \<Rightarrow> Inl (internal_error i) | Some r \<Rightarrow> r)"

subsection \<open>Page tokens\<close>

text \<open>A cursor of the listing: a time at the chain's precision and a sequence number, both within 64 bits.\<close>

definition cursor_ok :: "audit_cursor \<Rightarrow> bool" where
  "cursor_ok c \<longleftrightarrow> Precision dvd cuOccurTime c \<and> - (2 ^ 63) \<le> UnixMicro (cuOccurTime c) \<and> UnixMicro (cuOccurTime c) < 2 ^ 63
     \<and> 1 \<le> cuSequence c \<and> cuSequence c < 2 ^ 63"

lemma runes_token_fields: "runes ''t'' = [(116, ''t'')]" "runes ''s'' = [(115, ''s'')]"
  using runes_ascii [of "''t''"] runes_ascii [of "''s''"] by (simp_all add: byte_def del: runes.simps)

lemma decode_page_token_struct:
  assumes "- (2 ^ 63) \<le> t" "t < 2 ^ 63" "- (2 ^ 63) \<le> s" "s < 2 ^ 63"
  shows "decode_page_token (print_struct [(''t'', VInt t), (''s'', VInt s)]) = Some (t, s)"
proof -
  have m: "field_matches ''t'' ''t''" "\<not> field_matches ''t'' ''s''" "field_matches ''s'' ''s''" "\<not> field_matches ''s'' ''t''"
    by (simp_all add: field_matches_def runes_token_fields fold_rune_def del: runes.simps)
  have "utf8 ''t''" "utf8 ''s''" by (simp_all add: utf8_ascii byte_def)
  then have "json_parse (print_struct [(''t'', VInt t), (''s'', VInt s)])
      = Some (JObj [(''t'', FormatInt t, JNum (FormatInt t)), (''s'', FormatInt s, JNum (FormatInt s))])"
    by (subst json_parse_struct) (simp_all add: plain_member_def read_member_def)
  then show ?thesis
    using m assms by (simp add: decode_page_token_def decode_field_def dec_int64_def ParseInt64_FormatInt)
qed

lemma length_FormatInt: "- (2 ^ 63) \<le> i \<Longrightarrow> i < 2 ^ 63 \<Longrightarrow> length (FormatInt i) \<le> 20"
  using FormatUint_length [of "nat i" 19] FormatUint_length [of "nat (- i)" 19]
  by (auto simp: FormatInt_def nat_less_iff)

lemma length_EncodeToString: "length (EncodeToString s) \<le> 2 * length s"
  using length_b64_digits [of "map of_char s"] by (simp add: EncodeToString_def)

lemma page_token_length:
  assumes "cursor_ok c"
  shows "length (encodeToken (Some c)) \<le> 256"
proof -
  let ?text = "print_struct [(''t'', VInt (UnixMicro (cuOccurTime c))), (''s'', VInt (cuSequence c))]"
  have "length (json_quote ''t'') = 3" "length (json_quote ''s'') = 3"
    by (simp_all add: json_quote_def quote_rune_def runes_token_fields del: runes.simps)
  then have "length ?text \<le> 51"
    using assms length_FormatInt [of "UnixMicro (cuOccurTime c)"] length_FormatInt [of "cuSequence c"]
    by (simp add: print_struct_def print_member_def cursor_ok_def)
  then show ?thesis using length_EncodeToString [of ?text] by (simp add: encodeToken_def)
qed

lemma decode_encode_token: "cursor_ok c \<Longrightarrow> decodeToken (encodeToken (Some c)) = Inr (Some c)"
proof -
  assume ok: "cursor_ok c"
  let ?t = "UnixMicro (cuOccurTime c)" and ?s = "cuSequence c"
  let ?text = "print_struct [(''t'', VInt ?t), (''s'', VInt ?s)]"
  have "decode_page_token ?text = Some (?t, ?s)"
    using ok by (intro decode_page_token_struct) (auto simp: cursor_ok_def)
  moreover have "encodeToken (Some c) \<noteq> []" by (simp add: encodeToken_def print_struct_def)
  moreover have "?t * Precision = cuOccurTime c" using ok by (auto simp: cursor_ok_def UnixMicro_def Precision_def)
  ultimately show ?thesis
    using page_token_length [OF ok] ok DecodeString_EncodeToString [of ?text]
    by (simp add: decodeToken_def encodeToken_def cursor_ok_def)
qed

text \<open>
  C37.  Page tokens round-trip: the cursor a client sends back is the cursor the service gave it, whatever time and sequence number it
  stands for; no token the service gives is refused as too long or unreadable.
\<close>

theorem page_token_roundtrip:
  assumes "case c of None \<Rightarrow> True | Some cursor \<Rightarrow> cursor_ok cursor"
  shows "decodeToken (encodeToken c) = Inr c"
proof (cases c)
  case None
  then show ?thesis by (simp add: encodeToken_def decodeToken_def)
qed (use assms decode_encode_token in simp)

theorem page_token_roundtrip_witness:
  "decodeToken (encodeToken (Some \<lparr>cuOccurTime = - 62135596800000001000, cuSequence = 9223372036854775807\<rparr>))
     = Inr (Some \<lparr>cuOccurTime = - 62135596800000001000, cuSequence = 9223372036854775807\<rparr>)"
  by (rule page_token_roundtrip) (simp add: cursor_ok_def Precision_def UnixMicro_def)

end
