(* ===== verification/AuditService.thy ===== *)
theory AuditService
  imports AuditServer "HOL-Library.Code_Target_Numeral"
begin

text \<open>
  The audit service as its clients see it: what a recorded batch leaves in the trail, and what a client that follows the page tokens reads.
\<close>

subsection \<open>Where rows come from\<close>

definition stamped :: "string \<Rightarrow> int \<Rightarrow> event list \<Rightarrow> row \<Rightarrow> bool" where
  "stamped source recordTime es r \<longleftrightarrow>
     (\<exists>e \<in> set es. \<exists>n. rowEvent r = e\<lparr>evSequence := n, evSource := source, evRecordTime := recordTime\<rparr>)"

lemma append_loop_stamped:
  "append_loop sha source rt es seen n prev = (b, s, p, k, d) \<Longrightarrow> x \<in> set b \<Longrightarrow> stamped source rt es x"
proof (induction es arbitrary: seen n prev b s p k d)
  case (Cons e es)
  then show ?case
    by (auto simp: Let_def stamped_def split: if_splits prod.splits) blast+
qed simp

lemma insert_batch_events: "insert_batch b db = Some db' \<Longrightarrow> dbEvents db' = dbEvents db @ b"
  by (induction b arbitrary: db) (auto simp: insert_event_def split: option.splits if_splits)

lemma appendTenant_stamped:
  assumes "appendTenant sha t source rt es db = Some (k, d, db')"
  shows "\<exists>b. dbEvents db' = dbEvents db @ b \<and> (\<forall>x \<in> set b. stamped source rt es x)"
  using assms append_loop_stamped
  by (fastforce simp: appendTenant_def Let_def dest!: insert_batch_events split: prod.splits if_splits option.splits)

lemma stamped_byTenant: "stamped source rt (byTenant es t) x \<Longrightarrow> stamped source rt es x"
  by (auto simp: stamped_def byTenant_def)

lemma append_tenants_stamped:
  "append_tenants sha source rt es ts db = Some (k, d, db') \<Longrightarrow>
   \<exists>b. dbEvents db' = dbEvents db @ b \<and> (\<forall>x \<in> set b. stamped source rt es x)"
proof (induction ts arbitrary: db k d)
  case (Cons t ts)
  then obtain k1 d1 db1 k2 d2 where
    1: "appendTenant sha t source rt (byTenant es t) db = Some (k1, d1, db1)" and
    2: "append_tenants sha source rt es ts db1 = Some (k2, d2, db')" by (auto split: option.splits prod.splits)
  from appendTenant_stamped [OF 1] Cons.IH [OF 2] stamped_byTenant show ?case by (metis Un_iff append.assoc set_append)
qed simp

subsection \<open>What a stored event satisfies\<close>

definition event_valid :: "(rune \<Rightarrow> bool) \<Rightarrow> event \<Rightarrow> bool" where
  "event_valid table e \<longleftrightarrow> Precision dvd evOccurTime e \<and> evActorID e \<noteq> [] \<and>
     list_all (\<lambda>(v, mx). length v \<le> mx \<and> printablePattern v)
       [(evActorID e, 128), (evOnBehalfOf e, 128), (evTargetType e, 64), (evTargetID e, 128), (evReason e, 64), (evRequestID e, 128)] \<and>
     actionPattern (evAction e) \<and> length (evDetails e) \<le> maxDetails \<and> list_all (\<lambda>d. detail_error table d = None) (evDetails e)"

lemma event_valid_stamp [simp]:
  "event_valid table (e\<lparr>evSequence := n, evSource := s, evRecordTime := t\<rparr>) = event_valid table e"
  by (simp add: event_valid_def)

lemma first_error_None: "first_error es = None \<longleftrightarrow> list_all (\<lambda>x. x = None) es"
  by (induction es rule: first_error.induct) auto

lemma occur_of_dvd: "Precision dvd occur_of t"
  by (simp add: occur_of_def dvd_minus_mod)

lemma check_event_shape:
  "check_event table parse now e = Inr c \<Longrightarrow>
   \<exists>tenantID eventID t. c = chain_event tenantID eventID (occur_of t) e \<and> event_error table e = None"
  by (auto simp: check_event_def split: sum.splits option.splits if_splits bool.splits) blast+

lemma bounded_None: "bounded field v mx = None \<longleftrightarrow> length v \<le> mx \<and> printablePattern v"
  by (simp add: bounded_def)

lemma event_error_None:
  "event_error table e = None \<longleftrightarrow> epActorKind e \<noteq> 0 \<and> epActorId e \<noteq> [] \<and>
     list_all (\<lambda>(field, v, mx). length v \<le> mx \<and> printablePattern v) (event_checks e) \<and> actionPattern (epAction e) \<and>
     epOutcome e \<noteq> 0 \<and> length (epDetails e) \<le> maxDetails \<and> list_all (\<lambda>d. detail_error table d = None) (epDetails e)"
proof -
  have "first_error (map (\<lambda>(field, v, mx). bounded field v mx) (event_checks e)) = None \<longleftrightarrow>
      list_all (\<lambda>(field, v, mx). length v \<le> mx \<and> printablePattern v) (event_checks e)"
    by (simp add: first_error_None list.pred_map comp_def split_def bounded_None)
  moreover have "first_error (map (detail_error table) (epDetails e)) = None \<longleftrightarrow>
      list_all (\<lambda>d. detail_error table d = None) (epDetails e)"
    by (simp add: first_error_None list.pred_map comp_def)
  ultimately show ?thesis by (auto simp: event_error_def split: option.splits)
qed

lemma check_event_valid: "check_event table parse now e = Inr c \<Longrightarrow> event_valid table c"
  by (auto dest!: check_event_shape simp: event_error_None event_valid_def chain_event_def event_checks_def occur_of_dvd)

lemma check_events_valid: "check_events table parse now i es = Inr cs \<Longrightarrow> c \<in> set cs \<Longrightarrow> event_valid table c"
  by (induction es arbitrary: i cs) (auto split: sum.splits dest: check_event_valid)

subsection \<open>Properties\<close>

text \<open>
  C38.  Recording keeps the service's data well-formed: on a well-formed trail of valid events, a request never ends in an internal error; it only
  adds rows at the end, each a valid event stamped with the caller's identity; the trail stays well-formed; and a refused request adds
  nothing.
\<close>

theorem Record_keeps_service:
  assumes "trail_ok sha db" "\<forall>r \<in> set (dbEvents db). event_valid table (rowEvent r)"
    and "Record sha table parse now storeNow source requestID es db = (r, db')"
  shows "trail_ok sha db' \<and> (\<forall>r \<in> set (dbEvents db'). event_valid table (rowEvent r)) \<and>
    (\<exists>new. dbEvents db' = dbEvents db @ new \<and> (\<forall>r \<in> set new. evSource (rowEvent r) = source)) \<and>
    (\<forall>m. r \<noteq> Inl (Internal_error m)) \<and> ((\<exists>e. r = Inl e) \<longrightarrow> db' = db)"
proof (cases "check_events table parse now 0 es")
  case (Inl e)
  have "\<exists>m. e = Invalid m" if "check_events table parse now i es = Inl e" for i
    using that by (induction es arbitrary: i) (auto split: sum.splits)
  with Inl assms show ?thesis by (auto simp: Record_def split: if_splits)
next
  case (Inr cs)
  obtain k d db1 where A: "Append sha storeNow source cs db = Some (k, d, db1)" using append_tenants_ok [OF assms(1)] unfolding Append_def by blast
  with Inr assms have "r = Inl (Invalid (''a batch has 1 to '' @ FormatUint maxBatch @ '' events'')) \<and> db' = db
      \<or> r = Inr (int32_of k, int32_of d) \<and> db' = db1"
    by (auto simp: Record_def split: if_splits)
  moreover obtain b where b: "dbEvents db1 = dbEvents db @ b" "\<forall>x \<in> set b. stamped source (storeNow - storeNow mod Precision) cs x"
    using A append_tenants_stamped unfolding Append_def by blast
  moreover have "event_valid table (rowEvent x) \<and> evSource (rowEvent x) = source" if "x \<in> set b" for x
    using b(2) that check_events_valid [OF Inr] by (auto simp: stamped_def)
  ultimately show ?thesis using assms(1,2) Append_trail_ok [OF assms(1) A] by auto
qed

definition sample_proto :: event_proto where
  "sample_proto = \<lparr>epEventId = ''e1'', epTenantId = ''t'', epOccurTime = Some (True, 1700000000123456789),
     epActorKind = 1, epActorId = ''u1'', epOnBehalfOf = [], epAction = ''a.b'', epTargetType = ''k'', epTargetId = ''k1'',
     epOutcome = 1, epReason = [], epRequestId = ''r1'', epDetails = [(''a'', ''1'')], epSource = [], epSequence = 0, epHash = [],
     epRecordTime = None\<rparr>"

definition sample_record :: "(audit_error, int \<times> int) result \<times> audit_db" where
  "sample_record = Record sample_sha (\<lambda>_. True) Some (\<lambda>_. 1700000000000000000) 1700000000000000999 ''vault'' ''r'' [sample_proto] empty_db"

theorem Record_keeps_service_witness:
  "trail_ok sample_sha (snd sample_record) \<and> length (dbEvents (snd sample_record)) = 1 \<and>
   list_all (\<lambda>r. event_valid (\<lambda>_. True) (rowEvent r) \<and> evSource (rowEvent r) = ''vault'') (dbEvents (snd sample_record))"
proof -
  have len: "length (dbEvents (snd sample_record)) = 1" by code_simp
  have ok: "trail_ok sample_sha empty_db" "\<forall>r \<in> set (dbEvents empty_db). event_valid (\<lambda>_. True) (rowEvent r)"
    using trail_ok_empty by (simp_all add: empty_db_def)
  show ?thesis
    using Record_keeps_service [OF ok, of Some "\<lambda>_. 1700000000000000000" 1700000000000000999 "''vault''" "''r''" "[sample_proto]"
        "fst sample_record" "snd sample_record"] len
    by (auto simp: sample_record_def empty_db_def list_all_iff)
qed

subsection \<open>Reading a listing\<close>

text \<open>A client that asks for a page, then for the page of each token it gets, until a page has none.\<close>

fun read_listing :: "nat \<Rightarrow> (string \<Rightarrow> string option) \<Rightarrow> list_request \<Rightarrow> audit_db \<Rightarrow> event_proto list option" where
  "read_listing 0 parse req db = None"
| "read_listing (Suc n) parse req db = (case ListEvents parse req db of
     Some (Inr (page, token)) \<Rightarrow>
       if token = [] then Some page
       else map_option ((@) page) (read_listing n parse (req\<lparr>lrPageToken := token\<rparr>) db)
   | _ \<Rightarrow> None)"

definition page_size :: "list_request \<Rightarrow> nat" where
  "page_size req = nat (if lrPageSize req = 0 then defaultPage else lrPageSize req)"

definition listing_filter :: "string \<Rightarrow> list_request \<Rightarrow> audit_cursor option \<Rightarrow> audit_filter" where
  "listing_filter tenant req after = \<lparr>fiTenantID = tenant, fiUserID = lrUserId req, fiActionPrefix = lrActionPrefix req,
     fiSince = lrSince req, fiUntil = lrUntil req, fiPageSize = page_size req, fiAfter = after\<rparr>"

text \<open>What the service accepts besides the token.\<close>

definition request_ok :: "(string \<Rightarrow> string option) \<Rightarrow> string \<Rightarrow> list_request \<Rightarrow> bool" where
  "request_ok parse tenant req \<longleftrightarrow> parse (lrTenantId req) = Some tenant \<and> length (lrUserId req) \<le> 128 \<and> printablePattern (lrUserId req)
     \<and> (lrActionPrefix req = [] \<or> prefixPattern (lrActionPrefix req)) \<and> 0 \<le> lrPageSize req \<and> lrPageSize req \<le> maxPage"

lemma request_ok_token [simp]:
  "request_ok parse tenant (req\<lparr>lrPageToken := t\<rparr>) = request_ok parse tenant req"
  "listing_filter tenant (req\<lparr>lrPageToken := t\<rparr>) after = listing_filter tenant req after"
  by (simp_all add: request_ok_def listing_filter_def page_size_def)

lemma ListEvents_ok:
  assumes "request_ok parse tenant req" "decodeToken (lrPageToken req) = Inr after"
  shows "ListEvents parse req db =
    map_option (\<lambda>(records, nxt). Inr (map toProto records, encodeToken nxt)) (List_events (listing_filter tenant req after) db)"
proof -
  have "bounded ''user_id'' (lrUserId req) 128 = None" using assms(1) by (simp add: bounded_def request_ok_def)
  with assms show ?thesis
    by (simp add: ListEvents_def request_ok_def listing_filter_def page_size_def Let_def case_prod_unfold split: option.splits)
qed

text \<open>The rows whose position a page token can hold.\<close>

definition listable :: "audit_db \<Rightarrow> bool" where
  "listable db \<longleftrightarrow> (\<forall>r \<in> set (dbEvents db). cursor_ok \<lparr>cuOccurTime = evOccurTime (rowEvent r), cuSequence = rowSeq r\<rparr>)"

lemma List_events_cursor: "List_events f db = Some (page, Some c) \<Longrightarrow> listable db \<Longrightarrow> cursor_ok c"
proof -
  assume l: "List_events f db = Some (page, Some c)" and ok: "listable db"
  from l have c: "c = \<lparr>cuOccurTime = evOccurTime (rowEvent (last page)), cuSequence = rowSeq (last page)\<rparr>"
    and p: "page \<noteq> []" "page = take (fiPageSize f) (list_query f db)"
    by (auto simp: List_events_def Let_def split: if_splits)
  from p have "last page \<in> set (list_query f db)" by (metis in_set_takeD last_in_set)
  then have "last page \<in> set (dbEvents db)" by (auto simp: list_query_def dest!: in_set_takeD)
  with ok c show ?thesis by (simp add: listable_def)
qed

lemma encodeToken_Nil: "encodeToken c = [] \<longleftrightarrow> c = None"
  by (cases c) (simp_all add: encodeToken_def print_struct_def)

lemma read_listing_eq:
  assumes "request_ok parse tenant req" "listable db" "decodeToken (lrPageToken req) = Inr after"
  shows "read_listing n parse req db = map_option (map toProto) (read_all n (listing_filter tenant req after) db)"
  using assms
proof (induction n arbitrary: req after)
  case (Suc n)
  let ?f = "listing_filter tenant req after"
  show ?case
  proof (cases "List_events ?f db")
    case None
    then show ?thesis using ListEvents_ok [OF Suc.prems(1,3), of db] by simp
  next
    case (Some pn)
    then obtain page nxt where s: "List_events ?f db = Some (page, nxt)" by (metis surj_pair)
    show ?thesis
    proof (cases nxt)
      case None
      with s show ?thesis using ListEvents_ok [OF Suc.prems(1,3), of db] by (simp add: encodeToken_Nil)
    next
      case (Some c)
      have "cursor_ok c" using List_events_cursor s Some Suc.prems(2) by blast
      then have d: "decodeToken (encodeToken (Some c)) = Inr (Some c)" by (rule decode_encode_token)
      have "read_listing n parse (req\<lparr>lrPageToken := encodeToken (Some c)\<rparr>) db
          = map_option (map toProto) (read_all n (listing_filter tenant req (Some c)) db)"
        using Suc.IH [of "req\<lparr>lrPageToken := encodeToken (Some c)\<rparr>" "Some c"] Suc.prems d by simp
      moreover have "?f\<lparr>fiAfter := Some c\<rparr> = listing_filter tenant req (Some c)" by (simp add: listing_filter_def)
      ultimately show ?thesis
        using s Some ListEvents_ok [OF Suc.prems(1,3), of db] by (simp add: encodeToken_Nil option.map_comp comp_def)
    qed
  qed
qed simp

lemma page_size_pos: "request_ok parse tenant req \<Longrightarrow> 0 < page_size req"
  by (auto simp: request_ok_def page_size_def defaultPage_def)

definition whole_event :: event where
  "whole_event = sample_event\<lparr>evOccurTime := 1700000000123456000, evRecordTime := 5000, evSource := ''vault''\<rparr>"

definition whole_row :: row where
  "whole_row = \<lparr>rowEvent = whole_event, rowHash = Hash sample_sha [] whole_event, rowPrev = []\<rparr>"

definition whole_db :: audit_db where
  "whole_db = \<lparr>dbChains = [\<lparr>chTenant = evTenantID sample_event, chSequence = 1, chHash = rowHash whole_row\<rparr>], dbEvents = [whole_row]\<rparr>"

lemma Append_whole: "Append sample_sha 5432 ''vault'' [whole_event] empty_db = Some (1, 0, whole_db)"
  by (simp add: Append_def appendTenant_def empty_db_def whole_db_def whole_row_def byTenant_def ensure_chain_def
      chain_of_def rows_of_def insert_event_def Precision_def Let_def whole_event_def sample_event_def)

lemma trail_ok_whole: "trail_ok sample_sha whole_db"
  using Append_trail_ok [OF trail_ok_empty Append_whole] .



end
