(* ===== verification/OrchDb.thy ===== *)
theory OrchDb
  imports Prelude
begin

text \<open>
  The orchestrator's data, after \<^verbatim>\<open>services/orchestrator/internal/store/store.go\<close> (the structs) and
  its migrations (the tables): conversations, turns, tool calls, tasks, confirmations, events,
  devices, device approvals, memory jobs and notifications.

  A table is the list of its rows in insertion order.  UUIDs are strings, a nullable column is an
  option, times and durations are integers in microseconds (PostgreSQL's resolution).  The JSON
  columns hold the Go value itself (\<^verbatim>\<open>tools\<close>) or its text (\<^verbatim>\<open>history\<close>, \<^verbatim>\<open>pending\<close>, \<^verbatim>\<open>action\<close>,
  \<^verbatim>\<open>command\<close>).  The columns of \<^verbatim>\<open>tasks\<close> that the struct \<^verbatim>\<open>Task\<close> does not have, the lease, are in
  the row only.
\<close>

type_synonym uuid = string

datatype task_state = TaskQueued | TaskRunning | TaskAwaitingConfirmation | TaskAwaitingApproval
  | TaskSucceeded | TaskFailed | TaskCancelled

datatype task_kind = KindAgent | KindCommand

record target =
  taKind :: string
  taIntegrationID :: string
  taIntegration :: string
  taTool :: string
  taTitle :: string
  taReadOnly :: bool
  taDescription :: string
  taParameters :: string

type_synonym toolset = "(string \<times> target) list"

record conversation =
  coID :: uuid
  coTenantID :: uuid
  coUserID :: string
  coSessionID :: string
  coProvider :: int
  coLocale :: string
  coTools :: toolset
  coUserTurn :: int
  coClosedAt :: "int option"
  coCreatedAt :: int

record turn =
  tuConversation :: uuid
  tuRole :: string
  tuItemID :: string
  tuUserTurn :: int
  tuText :: string
  tuCreatedAt :: int

record call_result =
  crOutput :: string
  crIsError :: bool
  crAckRequired :: bool

record tool_call =
  tcConversation :: uuid
  tcCallID :: string
  tcName :: string
  tcResult :: call_result

record task =
  tkID :: uuid
  tkTenantID :: uuid
  tkUserID :: string
  tkConversationID :: "uuid option"
  tkKind :: task_kind
  tkProvider :: int
  tkGoal :: string
  tkState :: task_state
  tkResult :: string
  tkSteps :: nat
  tkTools :: toolset
  tkHistory :: string
  tkPending :: string
  tkDeadline :: int
  tkCreatedAt :: int
  tkUpdatedAt :: int

record task_row =
  trTask :: task
  trLeaseOwner :: "string option"
  trLeaseUntil :: "int option"

datatype confirmation_state = Pending | Confirmed | Cancelled | Expired

record confirmation =
  cfID :: uuid
  cfConversationID :: uuid
  cfTaskID :: "uuid option"
  cfCallID :: string
  cfAction :: string
  cfSummary :: string
  cfAskedTurn :: "int option"
  cfState :: confirmation_state
  cfExpiresAt :: int

record event_row =
  oeID :: int
  oeConversation :: uuid
  oePayload :: string
  oeConfirmation :: "uuid option"
  oeAckedTurn :: "int option"
  oeCreatedAt :: int

record device =
  dvID :: uuid
  dvTenantID :: uuid
  dvUserID :: string
  dvName :: string
  dvAddress :: string
  dvServerName :: string
  dvCAPEM :: string
  dvClientCertPEM :: string
  dvClientKeySealed :: bytes
  dvCreatedAt :: int

record device_approval =
  daApprovalID :: string
  daDeviceID :: uuid
  daTaskID :: uuid
  daCallID :: string
  daCommand :: string
  daPayload :: bytes
  daExpiresAt :: int

record pending_approval =
  paApproval :: device_approval
  paDeviceName :: string

datatype job_state = JobQueued | JobRunning | JobDone | JobFailed

record memory_job =
  mjConversation :: uuid
  mjState :: job_state
  mjAttempts :: nat
  mjLeaseUntil :: "int option"
  mjNotBefore :: int
  mjLastError :: string

datatype notification_kind = NotifyApproval | NotifyConfirmation | NotifyFinished

record notification =
  noID :: int
  noTenantID :: uuid
  noUserID :: string
  noKind :: notification_kind
  noTaskID :: uuid
  noTaskState :: task_state
  noClaimedBy :: "string option"
  noClaimedUntil :: "int option"
  noAttempts :: nat
  noDoneAt :: "int option"
  noCreatedAt :: int

record orch_db =
  odConversations :: "conversation list"
  odTurns :: "turn list"
  odToolCalls :: "tool_call list"
  odTasks :: "task_row list"
  odConfirmations :: "confirmation list"
  odEvents :: "event_row list"
  odDevices :: "device list"
  odApprovals :: "device_approval list"
  odMemoryJobs :: "memory_job list"
  odNotifications :: "notification list"
  odNextEvent :: int
  odNextNotification :: int

text \<open>
  \<open>ErrNotFound\<close> is the source's error; \<open>ErrConstraint\<close> is a statement PostgreSQL refuses (a key, a
  reference or a check); \<open>ErrUpdate\<close> is an error of a caller's function run inside a transaction;
  \<open>ErrUnavailable\<close> is a statement that could not be sent or whose answer was lost.
\<close>

datatype store_error = ErrNotFound | ErrConstraint | ErrUpdate string | ErrUnavailable

abbreviation trID :: "task_row \<Rightarrow> uuid" where "trID r \<equiv> tkID (trTask r)"
abbreviation trState :: "task_row \<Rightarrow> task_state" where "trState r \<equiv> tkState (trTask r)"

definition Terminal :: "task \<Rightarrow> bool" where
  "Terminal t \<longleftrightarrow> tkState t = TaskSucceeded \<or> tkState t = TaskFailed \<or> tkState t = TaskCancelled"

text \<open>PostgreSQL's \<^verbatim>\<open>char_length\<close> of a UTF-8 text: its bytes that are not continuation bytes.\<close>

definition char_length :: "string \<Rightarrow> nat" where
  "char_length s = length (filter (\<lambda>c. of_char c < (128::nat) \<or> of_char c \<ge> (192::nat)) s)"

definition orEmpty :: "string \<Rightarrow> string" where
  "orEmpty raw = (if length raw = 0 then ''[]'' else raw)"

definition empty_orch_db :: orch_db where
  "empty_orch_db = \<lparr>odConversations = [], odTurns = [], odToolCalls = [], odTasks = [], odConfirmations = [],
     odEvents = [], odDevices = [], odApprovals = [], odMemoryJobs = [], odNotifications = [],
     odNextEvent = 1, odNextNotification = 1\<rparr>"

end
