(* ===== verification/OrchStore.thy ===== *)
theory OrchStore
  imports OrchDb
begin

text \<open>
  The operations of \<^verbatim>\<open>services/orchestrator/internal/store/store.go\<close>, one definition per method.
  Each takes the transaction's \<^verbatim>\<open>now()\<close> where the statement reads it, and returns its result with the
  database after it.  A method that returns an error leaves the database as it was.
\<close>

subsection \<open>Conversations\<close>

definition CreateConversation :: "int \<Rightarrow> conversation \<Rightarrow> orch_db \<Rightarrow> (store_error, unit) result \<times> orch_db" where
  "CreateConversation now c db =
     (if lookup coID (coID c) (odConversations db) \<noteq> None
         \<or> char_length (coUserID c) < 1 \<or> char_length (coUserID c) > 128
      then (Inl ErrConstraint, db)
      else (Inr (), db\<lparr>odConversations := odConversations db @
              [c\<lparr>coUserTurn := 0, coClosedAt := None, coCreatedAt := now\<rparr>]\<rparr>))"

definition Conversation :: "uuid \<Rightarrow> orch_db \<Rightarrow> (store_error, conversation) result" where
  "Conversation i db =
     (case lookup coID i (odConversations db) of None \<Rightarrow> Inl ErrNotFound | Some c \<Rightarrow> Inr c)"

definition AdvanceTurn :: "uuid \<Rightarrow> int \<Rightarrow> orch_db \<Rightarrow> orch_db" where
  "AdvanceTurn i turn db =
     db\<lparr>odConversations := update_where (\<lambda>c. coID c = i)
          (\<lambda>c. c\<lparr>coUserTurn := max (coUserTurn c) turn\<rparr>) (odConversations db)\<rparr>"

definition turn_key :: "turn \<Rightarrow> uuid \<times> string \<times> string" where
  "turn_key u = (tuConversation u, tuRole u, tuItemID u)"

definition RecordTurn :: "int \<Rightarrow> uuid \<Rightarrow> string \<Rightarrow> string \<Rightarrow> int \<Rightarrow> string \<Rightarrow> orch_db
    \<Rightarrow> (store_error, unit) result \<times> orch_db" where
  "RecordTurn now i role itemID turn text db =
     (if role \<noteq> ''user'' \<and> role \<noteq> ''assistant'' \<or> lookup coID i (odConversations db) = None
      then (Inl ErrConstraint, db)
      else if lookup turn_key (i, role, itemID) (odTurns db) = None
      then (Inr (), db\<lparr>odTurns := odTurns db @
              [\<lparr>tuConversation = i, tuRole = role, tuItemID = itemID, tuUserTurn = turn, tuText = text,
                tuCreatedAt = now\<rparr>]\<rparr>)
      else (Inr (), db\<lparr>odTurns := update_where (\<lambda>u. turn_key u = (i, role, itemID))
              (\<lambda>u. u\<lparr>tuText := (if text \<noteq> [] then text else tuText u), tuUserTurn := max (tuUserTurn u) turn\<rparr>)
              (odTurns db)\<rparr>))"

definition CloseConversation :: "int \<Rightarrow> uuid \<Rightarrow> orch_db \<Rightarrow> bool \<times> orch_db" where
  "CloseConversation now i db =
     (affected (\<lambda>c. coID c = i \<and> coClosedAt c = None) (odConversations db) = 1,
      db\<lparr>odConversations := update_where (\<lambda>c. coID c = i \<and> coClosedAt c = None)
           (\<lambda>c. c\<lparr>coClosedAt := Some now\<rparr>) (odConversations db)\<rparr>)"

definition Transcript :: "uuid \<Rightarrow> orch_db \<Rightarrow> turn list" where
  "Transcript i db =
     sort_key tuCreatedAt (sort_key tuUserTurn (filter (\<lambda>u. tuConversation u = i \<and> tuText u \<noteq> []) (odTurns db)))"

definition closed_before :: "int \<Rightarrow> uuid \<Rightarrow> orch_db \<Rightarrow> bool" where
  "closed_before t i db = (\<exists>c \<in> set (odConversations db). coID c = i \<and>
     (case coClosedAt c of None \<Rightarrow> False | Some at \<Rightarrow> at < t))"

definition PurgeTranscripts :: "int \<Rightarrow> int \<Rightarrow> orch_db \<Rightarrow> nat \<times> orch_db" where
  "PurgeTranscripts now retention db =
     (let old = (\<lambda>u. closed_before (now - retention) (tuConversation u) db)
      in (affected old (odTurns db), db\<lparr>odTurns := delete_where old (odTurns db)\<rparr>))"

subsection \<open>Tool calls\<close>

definition call_key :: "tool_call \<Rightarrow> uuid \<times> string" where
  "call_key c = (tcConversation c, tcCallID c)"

definition ToolCall :: "uuid \<Rightarrow> string \<Rightarrow> orch_db \<Rightarrow> (store_error, call_result) result" where
  "ToolCall conversation callID db =
     (case lookup call_key (conversation, callID) (odToolCalls db) of
        None \<Rightarrow> Inl ErrNotFound | Some c \<Rightarrow> Inr (tcResult c))"

definition SaveToolCall :: "uuid \<Rightarrow> string \<Rightarrow> string \<Rightarrow> call_result \<Rightarrow> orch_db
    \<Rightarrow> (store_error, unit) result \<times> orch_db" where
  "SaveToolCall conversation callID name r db =
     (if lookup call_key (conversation, callID) (odToolCalls db) \<noteq> None then (Inr (), db)
      else if lookup coID conversation (odConversations db) = None then (Inl ErrConstraint, db)
      else (Inr (), db\<lparr>odToolCalls := odToolCalls db @
              [\<lparr>tcConversation = conversation, tcCallID = callID, tcName = name, tcResult = r\<rparr>]\<rparr>))"

subsection \<open>Tasks\<close>

definition CreateTask :: "int \<Rightarrow> task \<Rightarrow> orch_db \<Rightarrow> (store_error, unit) result \<times> orch_db" where
  "CreateTask now t db =
     (if lookup trID (tkID t) (odTasks db) \<noteq> None
         \<or> (case tkConversationID t of None \<Rightarrow> False | Some c \<Rightarrow> lookup coID c (odConversations db) = None)
      then (Inl ErrConstraint, db)
      else (Inr (), db\<lparr>odTasks := odTasks db @
              [\<lparr>trTask = t\<lparr>tkSteps := 0, tkHistory := orEmpty (tkHistory t), tkPending := orEmpty (tkPending t),
                           tkCreatedAt := now, tkUpdatedAt := now\<rparr>,
                trLeaseOwner = None, trLeaseUntil = None\<rparr>]\<rparr>))"

definition Task :: "uuid \<Rightarrow> string \<Rightarrow> uuid \<Rightarrow> orch_db \<Rightarrow> (store_error, task) result" where
  "Task tenant user i db =
     (case query_row (\<lambda>r. trID r = i \<and> tkTenantID (trTask r) = tenant \<and> tkUserID (trTask r) = user) (odTasks db) of
        None \<Rightarrow> Inl ErrNotFound | Some r \<Rightarrow> Inr (trTask r))"

definition TaskByID :: "uuid \<Rightarrow> orch_db \<Rightarrow> (store_error, task) result" where
  "TaskByID i db = (case lookup trID i (odTasks db) of None \<Rightarrow> Inl ErrNotFound | Some r \<Rightarrow> Inr (trTask r))"

definition Tasks :: "uuid \<Rightarrow> string \<Rightarrow> nat \<Rightarrow> orch_db \<Rightarrow> task list" where
  "Tasks tenant user limit db =
     take limit (sort_key (\<lambda>t. - tkCreatedAt t)
       (filter (\<lambda>t. tkTenantID t = tenant \<and> tkUserID t = user) (map trTask (odTasks db))))"

text \<open>\<^verbatim>\<open>state = 'queued' OR (state = 'running' AND lease_until < now())\<close>; a null lease never compares.\<close>

definition runnable :: "int \<Rightarrow> task_row \<Rightarrow> bool" where
  "runnable now r \<longleftrightarrow> trState r = TaskQueued \<or>
     trState r = TaskRunning \<and> (case trLeaseUntil r of None \<Rightarrow> False | Some u \<Rightarrow> u < now)"

definition take_lease :: "string \<Rightarrow> int \<Rightarrow> int \<Rightarrow> task_row \<Rightarrow> task_row" where
  "take_lease owner now lease r =
     r\<lparr>trTask := (trTask r)\<lparr>tkState := TaskRunning, tkUpdatedAt := now\<rparr>, trLeaseOwner := Some owner,
       trLeaseUntil := Some (now + lease)\<rparr>"

definition LeaseTask :: "int \<Rightarrow> string \<Rightarrow> int \<Rightarrow> orch_db \<Rightarrow> (store_error, task) result \<times> orch_db" where
  "LeaseTask now owner lease db =
     (case update_first trID (\<lambda>r. tkUpdatedAt (trTask r)) (runnable now) (take_lease owner now lease) (odTasks db) of
        (None, _) \<Rightarrow> (Inl ErrNotFound, db)
      | (Some r, rows) \<Rightarrow> (Inr (trTask r), db\<lparr>odTasks := rows\<rparr>))"

text \<open>\<^verbatim>\<open>WHERE id = $1 AND lease_owner = $2 AND state = 'running'\<close>\<close>

definition held :: "uuid \<Rightarrow> string \<Rightarrow> task_row \<Rightarrow> bool" where
  "held i owner r \<longleftrightarrow> trID r = i \<and> trLeaseOwner r = Some owner \<and> trState r = TaskRunning"

definition RenewLease :: "int \<Rightarrow> uuid \<Rightarrow> string \<Rightarrow> int \<Rightarrow> orch_db \<Rightarrow> bool \<times> orch_db" where
  "RenewLease now i owner lease db =
     (affected (held i owner) (odTasks db) = 1,
      db\<lparr>odTasks := update_where (held i owner) (\<lambda>r. r\<lparr>trLeaseUntil := Some (now + lease)\<rparr>) (odTasks db)\<rparr>)"

definition SaveProgress :: "int \<Rightarrow> task \<Rightarrow> string \<Rightarrow> orch_db \<Rightarrow> bool \<times> orch_db" where
  "SaveProgress now t owner db =
     (affected (held (tkID t) owner) (odTasks db) = 1,
      db\<lparr>odTasks := update_where (held (tkID t) owner)
           (\<lambda>r. r\<lparr>trTask := (trTask r)\<lparr>tkHistory := orEmpty (tkHistory t), tkPending := orEmpty (tkPending t),
                     tkSteps := tkSteps t, tkUpdatedAt := now\<rparr>\<rparr>) (odTasks db)\<rparr>)"

definition SetTaskState :: "int \<Rightarrow> task \<Rightarrow> string \<Rightarrow> task_state \<Rightarrow> string \<Rightarrow> orch_db \<Rightarrow> bool \<times> orch_db" where
  "SetTaskState now t owner state res db =
     (affected (held (tkID t) owner) (odTasks db) = 1,
      db\<lparr>odTasks := update_where (held (tkID t) owner)
           (\<lambda>r. r\<lparr>trTask := (trTask r)\<lparr>tkState := state, tkResult := res, tkHistory := orEmpty (tkHistory t),
                     tkPending := orEmpty (tkPending t), tkSteps := tkSteps t, tkUpdatedAt := now\<rparr>,
                   trLeaseOwner := None, trLeaseUntil := None\<rparr>) (odTasks db)\<rparr>)"

definition ResumeTask :: "int \<Rightarrow> uuid \<Rightarrow> (task \<Rightarrow> (store_error, task) result) \<Rightarrow> orch_db
    \<Rightarrow> (store_error, task) result \<times> orch_db" where
  "ResumeTask now i update db =
     (case TaskByID i db of
        Inl e \<Rightarrow> (Inl e, db)
      | Inr t0 \<Rightarrow>
          if tkState t0 \<noteq> TaskAwaitingConfirmation \<and> tkState t0 \<noteq> TaskAwaitingApproval then (Inl ErrNotFound, db)
          else case update t0 of
                 Inl e \<Rightarrow> (Inl e, db)
               | Inr t \<Rightarrow>
                   (Inr t, db\<lparr>odTasks := update_where (\<lambda>r. trID r = tkID t)
                      (\<lambda>r. r\<lparr>trTask := (trTask r)\<lparr>tkState := tkState t, tkResult := tkResult t,
                               tkHistory := orEmpty (tkHistory t), tkPending := orEmpty (tkPending t),
                               tkUpdatedAt := now\<rparr>\<rparr>) (odTasks db)\<rparr>))"

definition cancel_row :: "int \<Rightarrow> task_row \<Rightarrow> task_row" where
  "cancel_row now r =
     r\<lparr>trTask := (trTask r)\<lparr>tkState := TaskCancelled, tkResult := ''Cancelled by the user.'', tkUpdatedAt := now\<rparr>,
       trLeaseOwner := None, trLeaseUntil := None\<rparr>"

definition cancellable :: "uuid \<Rightarrow> string \<Rightarrow> uuid \<Rightarrow> task_row \<Rightarrow> bool" where
  "cancellable tenant user i r \<longleftrightarrow> trID r = i \<and> tkTenantID (trTask r) = tenant \<and> tkUserID (trTask r) = user
     \<and> trState r \<notin> {TaskSucceeded, TaskFailed, TaskCancelled}"

definition CancelTask :: "int \<Rightarrow> uuid \<Rightarrow> string \<Rightarrow> uuid \<Rightarrow> orch_db \<Rightarrow> (store_error, task) result \<times> orch_db" where
  "CancelTask now tenant user i db =
     (case query_row (cancellable tenant user i) (odTasks db) of
        None \<Rightarrow> (Task tenant user i db, db)
      | Some r \<Rightarrow> (Inr (trTask (cancel_row now r)),
          db\<lparr>odTasks := update_where (cancellable tenant user i) (cancel_row now) (odTasks db),
             odConfirmations := update_where (\<lambda>c. cfTaskID c = Some i \<and> cfState c = Pending)
               (\<lambda>c. c\<lparr>cfState := Cancelled\<rparr>) (odConfirmations db)\<rparr>))"

definition TaskState :: "uuid \<Rightarrow> orch_db \<Rightarrow> (store_error, task_state) result" where
  "TaskState i db = (case lookup trID i (odTasks db) of None \<Rightarrow> Inl ErrNotFound | Some r \<Rightarrow> Inr (trState r))"

subsection \<open>Confirmations\<close>

definition CreateConfirmation :: "confirmation \<Rightarrow> orch_db \<Rightarrow> (store_error, unit) result \<times> orch_db" where
  "CreateConfirmation c db =
     (if lookup cfID (cfID c) (odConfirmations db) \<noteq> None
         \<or> lookup coID (cfConversationID c) (odConversations db) = None
         \<or> (case cfTaskID c of None \<Rightarrow> False | Some t \<Rightarrow> lookup trID t (odTasks db) = None)
      then (Inl ErrConstraint, db)
      else (Inr (), db\<lparr>odConfirmations := odConfirmations db @ [c\<lparr>cfState := Pending\<rparr>]\<rparr>))"

definition Confirmation :: "uuid \<Rightarrow> uuid \<Rightarrow> orch_db \<Rightarrow> (store_error, confirmation) result" where
  "Confirmation conversation i db =
     (case query_row (\<lambda>c. cfID c = i \<and> cfConversationID c = conversation) (odConfirmations db) of
        None \<Rightarrow> Inl ErrNotFound | Some c \<Rightarrow> Inr c)"

definition settleable :: "int \<Rightarrow> uuid \<Rightarrow> uuid \<Rightarrow> int \<Rightarrow> confirmation_state \<Rightarrow> confirmation \<Rightarrow> bool" where
  "settleable now conversation i turn state c \<longleftrightarrow>
     cfID c = i \<and> cfConversationID c = conversation \<and> cfState c = Pending \<and> cfExpiresAt c > now
     \<and> (state = Cancelled \<or> (case cfAskedTurn c of None \<Rightarrow> False | Some asked \<Rightarrow> asked < turn))"

definition Settle :: "int \<Rightarrow> uuid \<Rightarrow> uuid \<Rightarrow> int \<Rightarrow> bool \<Rightarrow> orch_db
    \<Rightarrow> (store_error, confirmation) result \<times> orch_db" where
  "Settle now conversation i turn confirm db =
     (let state = (if confirm then Confirmed else Cancelled);
          P = settleable now conversation i turn state;
          f = (\<lambda>c. c\<lparr>cfState := state\<rparr>)
      in case returning P f (odConfirmations db) of
           [] \<Rightarrow> (Inl ErrNotFound, db)
         | c # _ \<Rightarrow> (Inr c, db\<lparr>odConfirmations := update_where P f (odConfirmations db)\<rparr>))"

definition coalesce :: "'a option \<Rightarrow> 'a \<Rightarrow> 'a option" where
  "coalesce x y = (case x of None \<Rightarrow> Some y | Some v \<Rightarrow> Some v)"

definition MarkAsked :: "uuid \<Rightarrow> int \<Rightarrow> orch_db \<Rightarrow> orch_db" where
  "MarkAsked i turn db =
     db\<lparr>odConfirmations := update_where (\<lambda>c. cfID c = i)
          (\<lambda>c. c\<lparr>cfAskedTurn := coalesce (cfAskedTurn c) turn\<rparr>) (odConfirmations db)\<rparr>"

definition MarkCallAsked :: "uuid \<Rightarrow> string \<Rightarrow> int \<Rightarrow> orch_db \<Rightarrow> bool \<times> orch_db" where
  "MarkCallAsked conversation callID turn db =
     (let P = (\<lambda>c. cfConversationID c = conversation \<and> cfCallID c = callID \<and> cfTaskID c = None)
      in (affected P (odConfirmations db) > 0,
          db\<lparr>odConfirmations := update_where P (\<lambda>c. c\<lparr>cfAskedTurn := coalesce (cfAskedTurn c) turn\<rparr>)
               (odConfirmations db)\<rparr>))"

definition overdue :: "int \<Rightarrow> confirmation \<Rightarrow> bool" where
  "overdue now c \<longleftrightarrow> cfState c = Pending \<and> cfExpiresAt c \<le> now"

definition ExpireConfirmations :: "int \<Rightarrow> orch_db \<Rightarrow> confirmation list \<times> orch_db" where
  "ExpireConfirmations now db =
     (returning (overdue now) (\<lambda>c. c\<lparr>cfState := Expired\<rparr>) (odConfirmations db),
      db\<lparr>odConfirmations := update_where (overdue now) (\<lambda>c. c\<lparr>cfState := Expired\<rparr>) (odConfirmations db)\<rparr>)"

subsection \<open>Events\<close>

text \<open>Two hours, in microseconds.\<close>

definition ConversationLifetime :: int where
  "ConversationLifetime = 2 * 60 * 60 * 1000000"

text \<open>
  The conversation an event goes to: the one it was for while that is open, otherwise the owner's
  newest open one that is not abandoned.
\<close>

definition live_target :: "int \<Rightarrow> uuid \<Rightarrow> orch_db \<Rightarrow> uuid option" where
  "live_target now conversation db =
     (case lookup coID conversation (odConversations db) of
        None \<Rightarrow> None
      | Some c \<Rightarrow>
          if coClosedAt c = None then Some conversation
          else map_option coID (query_first (\<lambda>o1. - coCreatedAt o1)
                 (\<lambda>o1. coTenantID o1 = coTenantID c \<and> coUserID o1 = coUserID c \<and> coClosedAt o1 = None
                      \<and> coCreatedAt o1 > now - ConversationLifetime) (odConversations db)))"

definition move_confirmation :: "uuid \<Rightarrow> confirmation \<Rightarrow> confirmation" where
  "move_confirmation conversation c = c\<lparr>cfConversationID := conversation, cfAskedTurn := None\<rparr>"

definition AddEvent :: "int \<Rightarrow> uuid \<Rightarrow> string \<Rightarrow> uuid option \<Rightarrow> orch_db
    \<Rightarrow> (store_error, uuid \<times> bool) result \<times> orch_db" where
  "AddEvent now conversation payload conf db =
     (let (target, live) = (case live_target now conversation db of None \<Rightarrow> (conversation, False) | Some t \<Rightarrow> (t, True))
      in if lookup coID target (odConversations db) = None then (Inl ErrConstraint, db)
         else let db1 = db\<lparr>odEvents := odEvents db @
                      [\<lparr>oeID = odNextEvent db, oeConversation = target, oePayload = payload, oeConfirmation = conf,
                        oeAckedTurn = None, oeCreatedAt = now\<rparr>],
                    odNextEvent := odNextEvent db + 1\<rparr>
              in if target = conversation \<or> conf = None then (Inr (target, live), db1)
                 else (Inr (target, live),
                   db1\<lparr>odConfirmations := update_where (\<lambda>c. Some (cfID c) = conf \<and> cfState c = Pending)
                         (move_confirmation target) (odConfirmations db1)\<rparr>))"

text \<open>An event nobody heard: its conversation, one of the user's others, is closed.\<close>

definition unheard :: "int \<Rightarrow> uuid \<Rightarrow> uuid \<Rightarrow> string \<Rightarrow> int \<Rightarrow> orch_db \<Rightarrow> event_row \<Rightarrow> bool" where
  "unheard now conversation tenant user window db e \<longleftrightarrow>
     (\<exists>c \<in> set (odConversations db). oeConversation e = coID c \<and> coTenantID c = tenant \<and> coUserID c = user
        \<and> coID c \<noteq> conversation \<and> coClosedAt c \<noteq> None)
     \<and> oeAckedTurn e = None \<and> oeCreatedAt e > now - window"

definition CarryOverEvents :: "int \<Rightarrow> uuid \<Rightarrow> uuid \<Rightarrow> string \<Rightarrow> int \<Rightarrow> orch_db
    \<Rightarrow> (store_error, nat) result \<times> orch_db" where
  "CarryOverEvents now conversation tenant user window db =
     (let P = unheard now conversation tenant user window db;
          moved = filter P (odEvents db);
          ids = List.map_filter oeConfirmation moved
      in if moved \<noteq> [] \<and> lookup coID conversation (odConversations db) = None then (Inl ErrConstraint, db)
         else (Inr (length moved),
           db\<lparr>odEvents := update_where P (\<lambda>e. e\<lparr>oeConversation := conversation\<rparr>) (odEvents db),
              odConfirmations := update_where (\<lambda>c. cfID c \<in> set ids \<and> cfState c = Pending)
                (move_confirmation conversation) (odConfirmations db)\<rparr>))"

definition abandoned :: "int \<Rightarrow> conversation \<Rightarrow> bool" where
  "abandoned now c \<longleftrightarrow> coClosedAt c = None \<and> coCreatedAt c < now - ConversationLifetime"

definition CloseAbandoned :: "int \<Rightarrow> orch_db \<Rightarrow> uuid list \<times> orch_db" where
  "CloseAbandoned now db =
     (map coID (filter (abandoned now) (odConversations db)),
      db\<lparr>odConversations := update_where (abandoned now) (\<lambda>c. c\<lparr>coClosedAt := Some now\<rparr>) (odConversations db)\<rparr>)"

definition Events :: "uuid \<Rightarrow> int \<Rightarrow> nat \<Rightarrow> orch_db \<Rightarrow> event_row list" where
  "Events conversation after limit db =
     take limit (sort_key oeID (filter (\<lambda>e. oeConversation e = conversation \<and> oeID e > after) (odEvents db)))"

definition LastAcked :: "uuid \<Rightarrow> orch_db \<Rightarrow> int" where
  "LastAcked conversation db =
     (case map oeID (filter (\<lambda>e. oeConversation e = conversation \<and> oeAckedTurn e \<noteq> None) (odEvents db)) of
        [] \<Rightarrow> 0 | i # is \<Rightarrow> fold max is i)"

definition AckEvent :: "uuid \<Rightarrow> int \<Rightarrow> int \<Rightarrow> orch_db \<Rightarrow> (store_error, uuid option) result \<times> orch_db" where
  "AckEvent conversation i turn db =
     (let P = (\<lambda>e. oeID e = i \<and> oeConversation e = conversation);
          f = (\<lambda>e. e\<lparr>oeAckedTurn := coalesce (oeAckedTurn e) turn\<rparr>)
      in case returning P f (odEvents db) of
           [] \<Rightarrow> (Inl ErrNotFound, db)
         | e # _ \<Rightarrow> (Inr (oeConfirmation e), db\<lparr>odEvents := update_where P f (odEvents db)\<rparr>))"

subsection \<open>Devices and their approvals\<close>

definition device_name_key :: "device \<Rightarrow> uuid \<times> string \<times> string" where
  "device_name_key d = (dvTenantID d, dvUserID d, dvName d)"

definition replace_device :: "device \<Rightarrow> device \<Rightarrow> device" where
  "replace_device d old = old\<lparr>dvAddress := dvAddress d, dvServerName := dvServerName d, dvCAPEM := dvCAPEM d,
     dvClientCertPEM := dvClientCertPEM d, dvClientKeySealed := dvClientKeySealed d\<rparr>"

definition UpsertDevice :: "int \<Rightarrow> device \<Rightarrow> orch_db \<Rightarrow> (store_error, device) result \<times> orch_db" where
  "UpsertDevice now d db =
     (if char_length (dvName d) < 1 \<or> char_length (dvName d) > 64 then (Inl ErrConstraint, db)
      else case lookup device_name_key (device_name_key d) (odDevices db) of
             Some old \<Rightarrow> (Inr (replace_device d old),
               db\<lparr>odDevices := update_where (\<lambda>x. device_name_key x = device_name_key d) (replace_device d) (odDevices db)\<rparr>)
           | None \<Rightarrow>
               if lookup dvID (dvID d) (odDevices db) \<noteq> None then (Inl ErrConstraint, db)
               else (Inr (d\<lparr>dvCreatedAt := now\<rparr>), db\<lparr>odDevices := odDevices db @ [d\<lparr>dvCreatedAt := now\<rparr>]\<rparr>))"

definition Devices :: "uuid \<Rightarrow> string \<Rightarrow> orch_db \<Rightarrow> device list" where
  "Devices tenant user db =
     sort_key dvName (filter (\<lambda>d. dvTenantID d = tenant \<and> dvUserID d = user) (odDevices db))"

definition DeviceByID :: "uuid \<Rightarrow> orch_db \<Rightarrow> (store_error, device) result" where
  "DeviceByID i db = (case lookup dvID i (odDevices db) of None \<Rightarrow> Inl ErrNotFound | Some d \<Rightarrow> Inr d)"

text \<open>Deleting a device deletes its approvals (\<^verbatim>\<open>ON DELETE CASCADE\<close>).\<close>

definition DeleteDevice :: "uuid \<Rightarrow> string \<Rightarrow> uuid \<Rightarrow> orch_db \<Rightarrow> bool \<times> orch_db" where
  "DeleteDevice tenant user i db =
     (let P = (\<lambda>d. dvID d = i \<and> dvTenantID d = tenant \<and> dvUserID d = user)
      in if affected P (odDevices db) = 0 then (False, db)
         else (affected P (odDevices db) = 1,
           db\<lparr>odDevices := delete_where P (odDevices db),
              odApprovals := delete_where (\<lambda>a. daDeviceID a = i) (odApprovals db)\<rparr>))"

definition SaveApproval :: "device_approval \<Rightarrow> orch_db \<Rightarrow> (store_error, unit) result \<times> orch_db" where
  "SaveApproval a db =
     (if lookup daApprovalID (daApprovalID a) (odApprovals db) \<noteq> None
         \<or> lookup dvID (daDeviceID a) (odDevices db) = None \<or> lookup trID (daTaskID a) (odTasks db) = None
      then (Inl ErrConstraint, db)
      else (Inr (), db\<lparr>odApprovals := odApprovals db @ [a]\<rparr>))"

text \<open>The join drops an approval whose device is gone; of two approvals of a task the later row stays.\<close>

definition PendingApprovals :: "int \<Rightarrow> uuid list \<Rightarrow> orch_db \<Rightarrow> (uuid \<rightharpoonup> pending_approval)" where
  "PendingApprovals now tasks db =
     foldl (\<lambda>out a. case lookup dvID (daDeviceID a) (odDevices db) of
              None \<Rightarrow> out
            | Some d \<Rightarrow> out(daTaskID a \<mapsto> \<lparr>paApproval = a, paDeviceName = dvName d\<rparr>))
       Map.empty (filter (\<lambda>a. daTaskID a \<in> set tasks \<and> daExpiresAt a > now) (odApprovals db))"

text \<open>The payload is not among the selected columns.\<close>

definition Approval :: "int \<Rightarrow> uuid \<Rightarrow> string \<Rightarrow> string \<Rightarrow> orch_db \<Rightarrow> (store_error, device_approval) result" where
  "Approval now tenant user approvalID db =
     (case query_row (\<lambda>a. daApprovalID a = approvalID \<and> daExpiresAt a > now \<and>
              (case lookup trID (daTaskID a) (odTasks db) of
                 None \<Rightarrow> False
               | Some r \<Rightarrow> tkTenantID (trTask r) = tenant \<and> tkUserID (trTask r) = user)) (odApprovals db) of
        None \<Rightarrow> Inl ErrNotFound
      | Some a \<Rightarrow> Inr (a\<lparr>daPayload := []\<rparr>))"

definition ExpireApprovals :: "int \<Rightarrow> orch_db \<Rightarrow> device_approval list \<times> orch_db" where
  "ExpireApprovals now db =
     (filter (\<lambda>a. daExpiresAt a < now) (odApprovals db),
      db\<lparr>odApprovals := delete_where (\<lambda>a. daExpiresAt a < now) (odApprovals db)\<rparr>)"

definition DeleteApproval :: "string \<Rightarrow> orch_db \<Rightarrow> orch_db" where
  "DeleteApproval approvalID db =
     db\<lparr>odApprovals := delete_where (\<lambda>a. daApprovalID a = approvalID) (odApprovals db)\<rparr>"

subsection \<open>Memory jobs\<close>

definition QueueMemoryJob :: "int \<Rightarrow> uuid \<Rightarrow> orch_db \<Rightarrow> (store_error, unit) result \<times> orch_db" where
  "QueueMemoryJob now conversation db =
     (if lookup mjConversation conversation (odMemoryJobs db) \<noteq> None then (Inr (), db)
      else if lookup coID conversation (odConversations db) = None then (Inl ErrConstraint, db)
      else (Inr (), db\<lparr>odMemoryJobs := odMemoryJobs db @
              [\<lparr>mjConversation = conversation, mjState = JobQueued, mjAttempts = 0, mjLeaseUntil = None,
                mjNotBefore = now, mjLastError = []\<rparr>]\<rparr>))"

definition job_due :: "int \<Rightarrow> memory_job \<Rightarrow> bool" where
  "job_due now j \<longleftrightarrow>
     (mjState j = JobQueued \<or>
      mjState j = JobRunning \<and> (case mjLeaseUntil j of None \<Rightarrow> False | Some u \<Rightarrow> u < now)) \<and> mjNotBefore j \<le> now"

definition take_job :: "int \<Rightarrow> int \<Rightarrow> memory_job \<Rightarrow> memory_job" where
  "take_job now l j = j\<lparr>mjState := JobRunning, mjAttempts := mjAttempts j + 1, mjLeaseUntil := Some (now + l)\<rparr>"

definition LeaseMemoryJob :: "int \<Rightarrow> int \<Rightarrow> orch_db \<Rightarrow> (store_error, uuid \<times> nat) result \<times> orch_db" where
  "LeaseMemoryJob now l db =
     (case update_first mjConversation mjNotBefore (job_due now) (take_job now l) (odMemoryJobs db) of
        (None, _) \<Rightarrow> (Inl ErrNotFound, db)
      | (Some j, rows) \<Rightarrow> (Inr (mjConversation j, mjAttempts j), db\<lparr>odMemoryJobs := rows\<rparr>))"

definition FinishMemoryJob :: "int \<Rightarrow> uuid \<Rightarrow> job_state \<Rightarrow> int \<Rightarrow> string \<Rightarrow> orch_db \<Rightarrow> orch_db" where
  "FinishMemoryJob now conversation state retryAfter lastError db =
     db\<lparr>odMemoryJobs := update_where (\<lambda>j. mjConversation j = conversation)
          (\<lambda>j. j\<lparr>mjState := state, mjLeaseUntil := None, mjLastError := lastError, mjNotBefore := now + retryAfter\<rparr>)
          (odMemoryJobs db)\<rparr>"

subsection \<open>Notifications\<close>

definition AddNotification :: "int \<Rightarrow> notification \<Rightarrow> orch_db \<Rightarrow> orch_db" where
  "AddNotification now n db =
     db\<lparr>odNotifications := odNotifications db @
          [\<lparr>noID = odNextNotification db, noTenantID = noTenantID n, noUserID = noUserID n, noKind = noKind n,
            noTaskID = noTaskID n, noTaskState = noTaskState n, noClaimedBy = None, noClaimedUntil = None,
            noAttempts = 0, noDoneAt = None, noCreatedAt = now\<rparr>],
        odNextNotification := odNextNotification db + 1\<rparr>"

definition claimable :: "int \<Rightarrow> nat \<Rightarrow> int \<Rightarrow> notification \<Rightarrow> bool" where
  "claimable now maxAttempts maxAge n \<longleftrightarrow>
     noDoneAt n = None \<and> (case noClaimedUntil n of None \<Rightarrow> True | Some u \<Rightarrow> u < now)
     \<and> noAttempts n < maxAttempts \<and> noCreatedAt n > now - maxAge"

definition claim_notification :: "string \<Rightarrow> int \<Rightarrow> int \<Rightarrow> notification \<Rightarrow> notification" where
  "claim_notification consumer now l n =
     n\<lparr>noClaimedBy := Some consumer, noClaimedUntil := Some (now + l), noAttempts := noAttempts n + 1\<rparr>"

definition ClaimNotifications :: "int \<Rightarrow> string \<Rightarrow> nat \<Rightarrow> int \<Rightarrow> nat \<Rightarrow> int \<Rightarrow> orch_db
    \<Rightarrow> notification list \<times> orch_db" where
  "ClaimNotifications now consumer mx l maxAttempts maxAge db =
     (let ids = map noID (take mx (sort_key noID (filter (claimable now maxAttempts maxAge) (odNotifications db))));
          P = (\<lambda>n. noID n \<in> set ids)
      in (sort_key noID (returning P (claim_notification consumer now l) (odNotifications db)),
          db\<lparr>odNotifications := update_where P (claim_notification consumer now l) (odNotifications db)\<rparr>))"

definition CompleteNotifications :: "int \<Rightarrow> int list \<Rightarrow> orch_db \<Rightarrow> orch_db" where
  "CompleteNotifications now ids db =
     db\<lparr>odNotifications := update_where (\<lambda>n. noID n \<in> set ids \<and> noDoneAt n = None)
          (\<lambda>n. n\<lparr>noDoneAt := Some now\<rparr>) (odNotifications db)\<rparr>"

definition PurgeNotifications :: "int \<Rightarrow> int \<Rightarrow> orch_db \<Rightarrow> nat \<times> orch_db" where
  "PurgeNotifications now keep db =
     (affected (\<lambda>n. noCreatedAt n < now - keep) (odNotifications db),
      db\<lparr>odNotifications := delete_where (\<lambda>n. noCreatedAt n < now - keep) (odNotifications db)\<rparr>)"

end
