(* ===== verification/OrchSteps.thy ===== *)
theory OrchSteps
  imports OrchStore
begin

text \<open>
  The orchestrator's database as a state machine: a step is one store method at some time, called the
  way the engine calls it.  The invariant \<open>db_ok\<close> holds in every reachable database; the lemmas after
  it say what stays as it is for ever (finished tasks, settled confirmations, stored results).
\<close>

subsection \<open>Steps\<close>

text \<open>
  What the engine promises of its arguments: a task is created or resumed into a state that is not
  \<open>TaskRunning\<close> (only a lease makes it run), \<open>update\<close> keeps the task's id, an event asks about at most
  one confirmation of its own conversation and no other event does, and carried-over events are
  those of the new conversation's owner.
\<close>

definition owner_of :: "orch_db \<Rightarrow> uuid \<Rightarrow> (uuid \<times> string) option" where
  "owner_of db i = map_option (\<lambda>c. (coTenantID c, coUserID c)) (lookup coID i (odConversations db))"

definition resumes :: "(task \<Rightarrow> (store_error, task) result) \<Rightarrow> bool" where
  "resumes update \<longleftrightarrow> (\<forall>t t'. update t = Inr t' \<longrightarrow> tkID t' = tkID t \<and> tkState t' \<noteq> TaskRunning)"

definition asks_own :: "orch_db \<Rightarrow> uuid \<Rightarrow> uuid option \<Rightarrow> bool" where
  "asks_own db conversation conf \<longleftrightarrow> (case conf of None \<Rightarrow> True | Some i \<Rightarrow>
     (case lookup cfID i (odConfirmations db) of None \<Rightarrow> False | Some c \<Rightarrow> cfConversationID c = conversation)
     \<and> (\<forall>e \<in> set (odEvents db). oeConfirmation e \<noteq> Some i))"

inductive store_step :: "orch_db \<Rightarrow> orch_db \<Rightarrow> bool" where
  CreateConversation: "store_step db (snd (CreateConversation now c db))"
| AdvanceTurn: "store_step db (AdvanceTurn i n db)"
| RecordTurn: "store_step db (snd (RecordTurn now i role itemID n text db))"
| CloseConversation: "store_step db (snd (CloseConversation now i db))"
| PurgeTranscripts: "store_step db (snd (PurgeTranscripts now retention db))"
| SaveToolCall: "store_step db (snd (SaveToolCall i callID name r db))"
| CreateTask: "tkState t \<noteq> TaskRunning \<Longrightarrow> store_step db (snd (CreateTask now t db))"
| LeaseTask: "store_step db (snd (LeaseTask now owner l db))"
| RenewLease: "store_step db (snd (RenewLease now i owner l db))"
| SaveProgress: "store_step db (snd (SaveProgress now t owner db))"
| SetTaskState: "st \<noteq> TaskRunning \<Longrightarrow> store_step db (snd (SetTaskState now t owner st res db))"
| ResumeTask: "resumes update \<Longrightarrow> store_step db (snd (ResumeTask now i update db))"
| CancelTask: "store_step db (snd (CancelTask now tenant user i db))"
| CreateConfirmation: "store_step db (snd (CreateConfirmation c db))"
| Settle: "store_step db (snd (Settle now conversation i n confirm db))"
| MarkAsked: "store_step db (MarkAsked i n db)"
| MarkCallAsked: "store_step db (snd (MarkCallAsked conversation callID n db))"
| ExpireConfirmations: "store_step db (snd (ExpireConfirmations now db))"
| AddEvent: "asks_own db conversation conf \<Longrightarrow> store_step db (snd (AddEvent now conversation payload conf db))"
| CarryOverEvents: "owner_of db conversation = Some (tenant, user) \<Longrightarrow>
    store_step db (snd (CarryOverEvents now conversation tenant user window db))"
| CloseAbandoned: "store_step db (snd (CloseAbandoned now db))"
| AckEvent: "store_step db (snd (AckEvent conversation n turn db))"
| UpsertDevice: "store_step db (snd (UpsertDevice now d db))"
| DeleteDevice: "store_step db (snd (DeleteDevice tenant user i db))"
| SaveApproval: "store_step db (snd (SaveApproval a db))"
| ExpireApprovals: "store_step db (snd (ExpireApprovals now db))"
| DeleteApproval: "store_step db (DeleteApproval approvalID db)"
| QueueMemoryJob: "store_step db (snd (QueueMemoryJob now i db))"
| LeaseMemoryJob: "store_step db (snd (LeaseMemoryJob now l db))"
| FinishMemoryJob: "store_step db (FinishMemoryJob now i js retryAfter lastError db)"
| AddNotification: "store_step db (AddNotification now n db)"
| ClaimNotifications: "store_step db (snd (ClaimNotifications now consumer mx l maxAttempts maxAge db))"
| CompleteNotifications: "store_step db (CompleteNotifications now ids db)"
| PurgeNotifications: "store_step db (snd (PurgeNotifications now keep db))"

abbreviation store_steps :: "orch_db \<Rightarrow> orch_db \<Rightarrow> bool" where
  "store_steps \<equiv> store_step\<^sup>*\<^sup>*"

subsection \<open>The invariant\<close>

text \<open>A task holds a lease exactly while it runs.\<close>

definition lease_ok :: "task_row \<Rightarrow> bool" where
  "lease_ok r \<longleftrightarrow> (trState r = TaskRunning \<longleftrightarrow> trLeaseOwner r \<noteq> None) \<and> (trLeaseOwner r = None \<longleftrightarrow> trLeaseUntil r = None)"

definition tasks_ok :: "task_row list \<Rightarrow> bool" where
  "tasks_ok rows \<longleftrightarrow> distinct (map trID rows) \<and> (\<forall>r \<in> set rows. lease_ok r)"

definition keys_ok :: "orch_db \<Rightarrow> bool" where
  "keys_ok db \<longleftrightarrow> distinct (map coID (odConversations db)) \<and> distinct (map turn_key (odTurns db))
     \<and> distinct (map call_key (odToolCalls db)) \<and> distinct (map cfID (odConfirmations db))
     \<and> distinct (map dvID (odDevices db)) \<and> distinct (map device_name_key (odDevices db))
     \<and> distinct (map daApprovalID (odApprovals db)) \<and> distinct (map mjConversation (odMemoryJobs db))"

definition serial_ok :: "int \<Rightarrow> int list \<Rightarrow> bool" where
  "serial_ok next ids \<longleftrightarrow> distinct ids \<and> (\<forall>i \<in> set ids. i < next)"

text \<open>
  Confirmations belong to a conversation, a confirmed one has been asked; an event belongs to a
  conversation and, while the confirmation it asks about is pending, to the same one.
\<close>

definition confirmation_ok :: "orch_db \<Rightarrow> confirmation \<Rightarrow> bool" where
  "confirmation_ok db c \<longleftrightarrow> lookup coID (cfConversationID c) (odConversations db) \<noteq> None
     \<and> (cfState c = Confirmed \<longrightarrow> cfAskedTurn c \<noteq> None)"

definition event_ok :: "orch_db \<Rightarrow> event_row \<Rightarrow> bool" where
  "event_ok db e \<longleftrightarrow> lookup coID (oeConversation e) (odConversations db) \<noteq> None
     \<and> (\<forall>i. oeConfirmation e = Some i \<longrightarrow> (\<exists>c. lookup cfID i (odConfirmations db) = Some c
          \<and> (cfState c = Pending \<longrightarrow> cfConversationID c = oeConversation e)))"

definition questions :: "event_row list \<Rightarrow> uuid list" where
  "questions es = List.map_filter oeConfirmation es"

definition dialog_ok :: "orch_db \<Rightarrow> bool" where
  "dialog_ok db \<longleftrightarrow> (\<forall>c \<in> set (odConfirmations db). confirmation_ok db c)
     \<and> (\<forall>e \<in> set (odEvents db). event_ok db e) \<and> distinct (questions (odEvents db))"

definition db_ok :: "orch_db \<Rightarrow> bool" where
  "db_ok db \<longleftrightarrow> tasks_ok (odTasks db) \<and> keys_ok db \<and> serial_ok (odNextEvent db) (map oeID (odEvents db))
     \<and> serial_ok (odNextNotification db) (map noID (odNotifications db)) \<and> dialog_ok db"

lemma db_ok_empty: "db_ok empty_orch_db"
  by (simp add: db_ok_def empty_orch_db_def tasks_ok_def keys_ok_def serial_ok_def dialog_ok_def questions_def
      List.map_filter_def)

text \<open>The methods by the tables they write.\<close>

lemmas task_ops = CreateTask_def LeaseTask_def RenewLease_def SaveProgress_def SetTaskState_def ResumeTask_def CancelTask_def
lemmas dialog_ops = CreateConversation_def AdvanceTurn_def RecordTurn_def CloseConversation_def PurgeTranscripts_def
  SaveToolCall_def CreateConfirmation_def Settle_def MarkAsked_def MarkCallAsked_def ExpireConfirmations_def
  AddEvent_def CarryOverEvents_def CloseAbandoned_def AckEvent_def Let_def
lemmas device_ops = UpsertDevice_def DeleteDevice_def SaveApproval_def ExpireApprovals_def DeleteApproval_def
lemmas queue_ops = QueueMemoryJob_def LeaseMemoryJob_def FinishMemoryJob_def AddNotification_def
  ClaimNotifications_def CompleteNotifications_def PurgeNotifications_def

subsection \<open>Tasks keep their keys and leases\<close>

lemma tasks_ok_update:
  assumes "tasks_ok rows" "\<And>r. P r \<Longrightarrow> trID (f r) = trID r" "\<And>r. r \<in> set rows \<Longrightarrow> P r \<Longrightarrow> lease_ok r \<Longrightarrow> lease_ok (f r)"
  shows "tasks_ok (update_where P f rows)"
  using assms by (auto simp: tasks_ok_def distinct_update_where set_update_where)

lemma tasks_ok_LeaseTask:
  assumes "tasks_ok (odTasks db)"
  shows "tasks_ok (odTasks (snd (LeaseTask now owner l db)))"
proof -
  have "tasks_ok (snd (update_first trID (\<lambda>r. tkUpdatedAt (trTask r)) (runnable now) (take_lease owner now l) (odTasks db)))"
    using assms
    by (auto simp: update_first_def take_lease_def lease_ok_def intro!: tasks_ok_update split: option.splits)
  then show ?thesis using assms by (auto simp: LeaseTask_def split: prod.splits option.splits)
qed

lemma tasks_ok_ResumeTask:
  assumes "tasks_ok (odTasks db)" "resumes update"
  shows "tasks_ok (odTasks (snd (ResumeTask now i update db)))"
proof (cases "lookup trID i (odTasks db)")
  case None
  with assms show ?thesis by (simp add: ResumeTask_def TaskByID_def)
next
  case (Some r0)
  have one: "r = r0" if "r \<in> set (odTasks db)" "trID r = i" for r
    using lookup_unique [of trID "odTasks db" r] that assms(1) Some by (simp add: tasks_ok_def)
  show ?thesis
  proof (cases "update (trTask r0)")
    case (Inl e)
    with Some assms show ?thesis by (simp add: ResumeTask_def TaskByID_def)
  next
    case (Inr t)
    with assms(2) have t: "tkID t = trID r0" "tkState t \<noteq> TaskRunning" by (auto simp: resumes_def)
    with Some have "tkID t = i" by (auto dest: lookup_Some)
    with Some Inr assms(1) t one show ?thesis
      by (auto simp: ResumeTask_def TaskByID_def lease_ok_def dest: one intro!: tasks_ok_update)
  qed
qed

lemma tasks_ok_step:
  assumes "store_step db db'" "tasks_ok (odTasks db)"
  shows "tasks_ok (odTasks db')"
  using assms
proof (cases rule: store_step.cases)
  case (CreateTask t now)
  with assms(2) show ?thesis by (auto simp: CreateTask_def tasks_ok_def lookup_None lease_ok_def)
next
  case (LeaseTask now owner l)
  with assms(2) show ?thesis by (simp add: tasks_ok_LeaseTask)
next
  case (RenewLease now i owner l)
  with assms(2) show ?thesis by (auto simp: RenewLease_def held_def lease_ok_def intro!: tasks_ok_update)
next
  case (SaveProgress now t owner)
  with assms(2) show ?thesis by (auto simp: SaveProgress_def held_def lease_ok_def intro!: tasks_ok_update)
next
  case (SetTaskState st now t owner res)
  with assms(2) show ?thesis by (auto simp: SetTaskState_def lease_ok_def intro!: tasks_ok_update)
next
  case (ResumeTask update now i)
  with assms(2) show ?thesis by (simp add: tasks_ok_ResumeTask)
next
  case (CancelTask now tenant user i)
  with assms(2) show ?thesis
    by (auto simp: CancelTask_def cancel_row_def lease_ok_def intro!: tasks_ok_update split: option.splits)
qed (simp_all add: dialog_ops device_ops queue_ops split: prod.splits option.splits list.splits)

subsection \<open>Keys stay keys\<close>

lemma conversations_step: "store_step db db' \<Longrightarrow> distinct (map coID (odConversations db)) \<Longrightarrow> distinct (map coID (odConversations db'))"
  by (erule store_step.cases)
    (auto simp: task_ops dialog_ops device_ops queue_ops lookup_None distinct_update_where simp del: distinct_map
      split: prod.splits option.splits list.splits if_splits sum.splits)

lemma turns_step: "store_step db db' \<Longrightarrow> distinct (map turn_key (odTurns db)) \<Longrightarrow> distinct (map turn_key (odTurns db'))"
  by (erule store_step.cases)
    (auto simp: task_ops dialog_ops device_ops queue_ops lookup_None distinct_update_where distinct_delete_where turn_key_def
      simp del: distinct_map split: prod.splits option.splits list.splits if_splits sum.splits)

lemma calls_step: "store_step db db' \<Longrightarrow> distinct (map call_key (odToolCalls db)) \<Longrightarrow> distinct (map call_key (odToolCalls db'))"
  by (erule store_step.cases)
    (auto simp: task_ops dialog_ops device_ops queue_ops lookup_None call_key_def
      simp del: distinct_map split: prod.splits option.splits list.splits if_splits sum.splits)

lemma confirmations_step: "store_step db db' \<Longrightarrow> distinct (map cfID (odConfirmations db)) \<Longrightarrow> distinct (map cfID (odConfirmations db'))"
  by (erule store_step.cases)
    (auto simp: task_ops dialog_ops device_ops queue_ops lookup_None distinct_update_where move_confirmation_def
      simp del: distinct_map split: prod.splits option.splits list.splits if_splits sum.splits)

lemma devices_step:
  "store_step db db' \<Longrightarrow> distinct (map dvID (odDevices db)) \<Longrightarrow> distinct (map dvID (odDevices db'))"
  "store_step db db' \<Longrightarrow> distinct (map device_name_key (odDevices db)) \<Longrightarrow> distinct (map device_name_key (odDevices db'))"
  by (erule store_step.cases;
      auto simp: task_ops dialog_ops device_ops queue_ops lookup_None distinct_update_where distinct_delete_where
      device_name_key_def replace_device_def
      simp del: distinct_map split: prod.splits option.splits list.splits if_splits sum.splits)+

lemma approvals_step: "store_step db db' \<Longrightarrow> distinct (map daApprovalID (odApprovals db)) \<Longrightarrow> distinct (map daApprovalID (odApprovals db'))"
  by (erule store_step.cases)
    (auto simp: task_ops dialog_ops device_ops queue_ops lookup_None distinct_delete_where
      simp del: distinct_map split: prod.splits option.splits list.splits if_splits sum.splits)

lemma jobs_step: "store_step db db' \<Longrightarrow> distinct (map mjConversation (odMemoryJobs db)) \<Longrightarrow> distinct (map mjConversation (odMemoryJobs db'))"
  by (erule store_step.cases)
    (auto simp: task_ops dialog_ops device_ops queue_ops lookup_None distinct_update_where update_first_def take_job_def
      simp del: distinct_map split: prod.splits option.splits list.splits if_splits sum.splits)

lemma keys_ok_step: "store_step db db' \<Longrightarrow> keys_ok db \<Longrightarrow> keys_ok db'"
  unfolding keys_ok_def
  by (intro conjI) (simp_all add: conversations_step turns_step calls_step confirmations_step devices_step
      approvals_step jobs_step)

text \<open>Rows with a serial number get fresh ones.\<close>

lemma serial_ok_insert: "serial_ok n ids \<Longrightarrow> serial_ok (n + 1) (ids @ [n])"
  by (auto simp: serial_ok_def)

lemma serial_ok_sub: "serial_ok n (map g xs) \<Longrightarrow> serial_ok n (map g (filter P xs))"
  by (auto simp: serial_ok_def distinct_map_filter)

lemma event_ids_step:
  "store_step db db' \<Longrightarrow> serial_ok (odNextEvent db) (map oeID (odEvents db)) \<Longrightarrow> serial_ok (odNextEvent db') (map oeID (odEvents db'))"
  by (erule store_step.cases)
    (auto simp: task_ops dialog_ops device_ops queue_ops serial_ok_insert map_update_where
      split: prod.splits option.splits list.splits if_splits sum.splits)

lemma notification_ids_step:
  "store_step db db' \<Longrightarrow> serial_ok (odNextNotification db) (map noID (odNotifications db)) \<Longrightarrow>
   serial_ok (odNextNotification db') (map noID (odNotifications db'))"
  by (erule store_step.cases)
    (auto simp: task_ops dialog_ops device_ops queue_ops serial_ok_insert serial_ok_sub map_update_where
      claim_notification_def delete_where_def split: prod.splits option.splits list.splits if_splits sum.splits)

subsection \<open>Questions and the events that ask them\<close>

text \<open>Conversations stay, with their owner.\<close>

lemma owner_update_where:
  "(\<And>c. P c \<Longrightarrow> coID (f c) = coID c \<and> coTenantID (f c) = coTenantID c \<and> coUserID (f c) = coUserID c) \<Longrightarrow>
   map_option (\<lambda>c. (coTenantID c, coUserID c)) (lookup coID i (update_where P f rows))
     = map_option (\<lambda>c. (coTenantID c, coUserID c)) (lookup coID i rows)"
  by (cases "lookup coID i rows") (auto simp: lookup_update_where)

lemma owner_of_step:
  "store_step db db' \<Longrightarrow> owner_of db i = Some ow \<Longrightarrow> owner_of db' i = Some ow"
  by (erule store_step.cases)
    (auto simp: task_ops dialog_ops device_ops queue_ops owner_of_def lookup_append owner_update_where
      simp del: map_option_eq_Some split: prod.splits option.splits list.splits if_splits sum.splits)

lemma lookup_owner: "lookup coID i (odConversations db) \<noteq> None \<longleftrightarrow> owner_of db i \<noteq> None"
  by (simp add: owner_of_def)

lemma conversation_stays:
  "store_step db db' \<Longrightarrow> lookup coID i (odConversations db) \<noteq> None \<Longrightarrow> lookup coID i (odConversations db') \<noteq> None"
  using owner_of_step [of db db' i] unfolding lookup_owner by auto

lemma dialog_ok_conversations:
  assumes "dialog_ok db" "odConfirmations db' = odConfirmations db" "odEvents db' = odEvents db"
    and "\<And>i. lookup coID i (odConversations db) \<noteq> None \<Longrightarrow> lookup coID i (odConversations db') \<noteq> None"
  shows "dialog_ok db'"
  using assms by (simp add: dialog_ok_def confirmation_ok_def event_ok_def)

lemma dialog_ok_confirmations:
  assumes "dialog_ok db" "odEvents db' = odEvents db" "odConversations db' = odConversations db"
    and "odConfirmations db' = update_where P f (odConfirmations db)"
    and f: "\<And>c. P c \<Longrightarrow> cfID (f c) = cfID c \<and> cfConversationID (f c) = cfConversationID c"
    and p: "\<And>c. P c \<Longrightarrow> cfState (f c) = Pending \<Longrightarrow> cfState c = Pending"
    and a: "\<And>c. P c \<Longrightarrow> cfState (f c) = Confirmed \<Longrightarrow> (cfState c = Confirmed \<longrightarrow> cfAskedTurn c \<noteq> None) \<Longrightarrow> cfAskedTurn (f c) \<noteq> None"
  shows "dialog_ok db'"
proof -
  have "confirmation_ok db' c" if "c \<in> set (odConfirmations db')" for c
    using that assms(1,3,4) f a by (auto simp: set_update_where dialog_ok_def confirmation_ok_def)
  moreover have "event_ok db' e" if "e \<in> set (odEvents db)" for e
  proof -
    have l: "lookup cfID i (odConfirmations db') = map_option (\<lambda>c. if P c then f c else c) (lookup cfID i (odConfirmations db))" for i
      using assms(4) f by (simp add: lookup_update_where)
    from that assms(1) have "event_ok db e" by (simp add: dialog_ok_def)
    then show ?thesis using assms(3) f p by (auto simp: event_ok_def l simp del: map_option_eq_Some)
  qed
  ultimately show ?thesis using assms(1,2) by (simp add: dialog_ok_def)
qed

lemma questions_simps [simp]:
  "questions [] = []"
  "questions (es @ fs) = questions es @ questions fs"
  "questions [e] = (case oeConfirmation e of None \<Rightarrow> [] | Some i \<Rightarrow> [i])"
  by (auto simp: questions_def List.map_filter_def split: option.splits)

lemma in_questions: "i \<in> set (questions es) \<longleftrightarrow> (\<exists>e \<in> set es. oeConfirmation e = Some i)"
  by (force simp: questions_def List.map_filter_def)

lemma questions_unique:
  "distinct (questions es) \<Longrightarrow> e \<in> set es \<Longrightarrow> e' \<in> set es \<Longrightarrow> oeConfirmation e = Some i \<Longrightarrow> oeConfirmation e' = Some i
    \<Longrightarrow> e = e'"
proof (induction es)
  case (Cons a es)
  have "questions (a # es) = questions [a] @ questions es" by (metis append_Cons append_Nil questions_simps(2))
  with Cons show ?case
    by (auto simp: in_questions split: option.splits)
qed simp

lemma questions_update_where:
  "(\<And>e. P e \<Longrightarrow> oeConfirmation (f e) = oeConfirmation e) \<Longrightarrow> questions (update_where P f es) = questions es"
  by (induction es) (auto simp: questions_def List.map_filter_def)

lemma dialog_ok_AddEvent:
  assumes ok: "dialog_ok db" and own: "asks_own db conversation conf"
  shows "dialog_ok (snd (AddEvent now conversation payload conf db))"
proof -
  obtain target live where t: "(case live_target now conversation db of None \<Rightarrow> (conversation, False) | Some t \<Rightarrow> (t, True)) = (target, live)"
    by (metis surj_pair)
  let ?e = "\<lparr>oeID = odNextEvent db, oeConversation = target, oePayload = payload, oeConfirmation = conf,
    oeAckedTurn = None, oeCreatedAt = now\<rparr>"
  let ?P = "\<lambda>c. target \<noteq> conversation \<and> Some (cfID c) = conf \<and> cfState c = Pending"
  let ?cs = "update_where ?P (move_confirmation target) (odConfirmations db)"
  let ?db' = "db\<lparr>odEvents := odEvents db @ [?e], odNextEvent := odNextEvent db + 1, odConfirmations := ?cs\<rparr>"
  have l: "lookup cfID i ?cs = map_option (\<lambda>c. if ?P c then move_confirmation target c else c) (lookup cfID i (odConfirmations db))" for i
    by (rule lookup_update_where) (simp add: move_confirmation_def)
  show ?thesis
  proof (cases "lookup coID target (odConversations db) = None")
    case True
    with ok t show ?thesis by (simp add: AddEvent_def)
  next
    case False
    have "odConfirmations db = ?cs" if "target = conversation \<or> conf = None"
      using that by (intro update_where_none [symmetric]) auto
    then have eq: "snd (AddEvent now conversation payload conf db) = ?db'"
      using False by (auto simp: AddEvent_def t Let_def intro!: arg_cong [where f = "\<lambda>x. odConfirmations_update (\<lambda>_. x) _"])
    have "confirmation_ok ?db' c" if "c \<in> set ?cs" for c
      using that ok False by (auto simp: set_update_where dialog_ok_def confirmation_ok_def move_confirmation_def)
    moreover have "event_ok ?db' e" if e: "e \<in> set (odEvents db)" for e
    proof -
      have "event_ok db e" using e ok by (simp add: dialog_ok_def)
      moreover have "lookup cfID i ?cs = lookup cfID i (odConfirmations db)" if "oeConfirmation e = Some i" for i
      proof (cases "lookup cfID i (odConfirmations db)")
        case (Some c)
        then have "cfID c = i" by (auto dest: lookup_Some)
        moreover have "conf \<noteq> Some i" using that e own by (auto simp: asks_own_def)
        ultimately show ?thesis using Some unfolding l by auto
      qed (simp add: l)
      ultimately show ?thesis by (simp add: event_ok_def)
    qed
    moreover have "\<exists>c. lookup cfID i ?cs = Some c \<and> (cfState c = Pending \<longrightarrow> cfConversationID c = target)" if i: "conf = Some i" for i
    proof -
      from own i obtain c where c: "lookup cfID i (odConfirmations db) = Some c" "cfConversationID c = conversation"
        by (auto simp: asks_own_def split: option.splits)
      then have "cfID c = i" by (auto dest: lookup_Some)
      with c i show ?thesis unfolding l by (simp add: move_confirmation_def)
    qed
    then have "event_ok ?db' ?e" using False by (simp add: event_ok_def)
    moreover have "distinct (questions (odEvents db @ [?e]))"
      using ok own by (auto simp: dialog_ok_def asks_own_def in_questions split: option.splits)
    ultimately show ?thesis unfolding eq using ok by (auto simp: dialog_ok_def)
  qed
qed

lemma dialog_ok_CarryOverEvents:
  assumes ok: "dialog_ok db"
  shows "dialog_ok (snd (CarryOverEvents now conversation tenant user window db))"
proof -
  let ?P = "unheard now conversation tenant user window db"
  let ?ids = "List.map_filter oeConfirmation (filter ?P (odEvents db))"
  let ?C = "\<lambda>c. cfID c \<in> set ?ids \<and> cfState c = Pending"
  let ?cs = "update_where ?C (move_confirmation conversation) (odConfirmations db)"
  let ?es = "update_where ?P (\<lambda>e. e\<lparr>oeConversation := conversation\<rparr>) (odEvents db)"
  let ?db' = "db\<lparr>odEvents := ?es, odConfirmations := ?cs\<rparr>"
  have l: "lookup cfID i ?cs = map_option (\<lambda>c. if ?C c then move_confirmation conversation c else c) (lookup cfID i (odConfirmations db))" for i
    by (rule lookup_update_where) (simp add: move_confirmation_def)
  have ids: "i \<in> set ?ids \<longleftrightarrow> (\<exists>e \<in> set (odEvents db). ?P e \<and> oeConfirmation e = Some i)" for i
    using in_questions [of i "filter ?P (odEvents db)"] by (auto simp: questions_def)
  show ?thesis
  proof (cases "filter ?P (odEvents db) \<noteq> [] \<and> lookup coID conversation (odConversations db) = None")
    case True
    with ok show ?thesis by (simp add: CarryOverEvents_def Let_def)
  next
    case False
    then have eq: "snd (CarryOverEvents now conversation tenant user window db) = ?db'"
      by (auto simp: CarryOverEvents_def Let_def)
    have conv: "lookup coID conversation (odConversations db) \<noteq> None" if "e \<in> set (odEvents db)" "?P e" for e
      using False that by (auto simp: filter_empty_conv)
    have C: "confirmation_ok ?db' c" if c: "c \<in> set ?cs" for c
      using c ok conv ids by (fastforce simp: set_update_where dialog_ok_def confirmation_ok_def move_confirmation_def)
    have "event_ok ?db' (if ?P e then e\<lparr>oeConversation := conversation\<rparr> else e)" if e: "e \<in> set (odEvents db)" for e
    proof -
      have ev: "event_ok db e" using e ok by (simp add: dialog_ok_def)
      have q: "i \<in> set ?ids \<longleftrightarrow> ?P e" if "oeConfirmation e = Some i" for i
      proof
        assume "i \<in> set ?ids"
        then obtain e' where e': "e' \<in> set (odEvents db)" "?P e'" "oeConfirmation e' = Some i" unfolding ids by blast
        have "distinct (questions (odEvents db))" using ok by (simp add: dialog_ok_def)
        from questions_unique [OF this e e'(1) that e'(3)] e'(2) show "?P e" by simp
      next
        assume "?P e"
        then show "i \<in> set ?ids" unfolding ids using that e by blast
      qed
      have "\<exists>c. lookup cfID i ?cs = Some c \<and> (cfState c = Pending \<longrightarrow>
          cfConversationID c = (if ?P e then conversation else oeConversation e))" if i: "oeConfirmation e = Some i" for i
      proof -
        from ev i obtain c where c: "lookup cfID i (odConfirmations db) = Some c"
          "cfState c = Pending \<longrightarrow> cfConversationID c = oeConversation e" by (auto simp: event_ok_def)
        then have "cfID c = i" by (auto dest: lookup_Some)
        with c q [OF i] show ?thesis unfolding l by (simp add: move_confirmation_def)
      qed
      with ev conv [OF e] show ?thesis by (auto simp: event_ok_def)
    qed
    then have E: "event_ok ?db' e" if "e \<in> set ?es" for e using that by (auto elim!: in_update_whereE)
    have "questions ?es = questions (odEvents db)" by (simp add: questions_update_where)
    with ok have Q: "distinct (questions ?es)" by (simp add: dialog_ok_def)
    show ?thesis unfolding eq dialog_ok_def using C E Q by simp
  qed
qed

lemma dialog_ok_same:
  "dialog_ok db \<Longrightarrow> odConversations db' = odConversations db \<Longrightarrow> odConfirmations db' = odConfirmations db \<Longrightarrow>
   odEvents db' = odEvents db \<Longrightarrow> dialog_ok db'"
  by (simp add: dialog_ok_conversations)

lemma odConfirmations_Settle:
  "odConfirmations (snd (Settle now conversation i n confirm db)) =
     update_where (settleable now conversation i n (if confirm then Confirmed else Cancelled))
       (\<lambda>c. c\<lparr>cfState := if confirm then Confirmed else Cancelled\<rparr>) (odConfirmations db)"
  "odEvents (snd (Settle now conversation i n confirm db)) = odEvents db"
  "odConversations (snd (Settle now conversation i n confirm db)) = odConversations db"
  by (auto simp: Settle_def Let_def returning_def filter_empty_conv update_where_none split: list.splits)

lemma coalesce_not_None [simp]: "coalesce x y \<noteq> None"
  by (simp add: coalesce_def split: option.splits)

lemma dialog_ok_CreateConfirmation:
  "dialog_ok db \<Longrightarrow> dialog_ok (snd (CreateConfirmation c db))"
  by (fastforce simp: CreateConfirmation_def dialog_ok_def confirmation_ok_def event_ok_def lookup_append)

lemma dialog_ok_AckEvent:
  assumes ok: "dialog_ok db"
  shows "dialog_ok (snd (AckEvent conversation i turn db))"
proof -
  let ?es = "update_where (\<lambda>e. oeID e = i \<and> oeConversation e = conversation)
    (\<lambda>e. e\<lparr>oeAckedTurn := coalesce (oeAckedTurn e) turn\<rparr>) (odEvents db)"
  have "event_ok (db\<lparr>odEvents := ?es\<rparr>) e" if "e \<in> set ?es" for e
    using that ok by (auto simp: dialog_ok_def event_ok_def elim!: in_update_whereE)
  moreover have "questions ?es = questions (odEvents db)" by (simp add: questions_update_where)
  ultimately have "dialog_ok (db\<lparr>odEvents := ?es\<rparr>)" using ok by (simp add: dialog_ok_def confirmation_ok_def)
  with ok show ?thesis by (simp add: AckEvent_def Let_def split: list.splits)
qed

lemma dialog_ok_CancelTask:
  assumes "dialog_ok db"
  shows "dialog_ok (snd (CancelTask now tenant user i db))"
proof (cases "query_row (cancellable tenant user i) (odTasks db)")
  case None
  with assms show ?thesis by (simp add: CancelTask_def)
next
  case (Some r)
  then show ?thesis
    by (intro dialog_ok_confirmations [OF assms]) (simp add: CancelTask_def; auto)+
qed

lemma dialog_ok_step:
  assumes "store_step db db'" "dialog_ok db"
  shows "dialog_ok db'"
  using assms
proof (cases rule: store_step.cases)
  case (CancelTask now tenant user i)
  with assms(2) show ?thesis by (simp add: dialog_ok_CancelTask)
next
  case (CreateConfirmation c)
  with assms(2) show ?thesis by (simp add: dialog_ok_CreateConfirmation)
next
  case (Settle now conversation i n confirm)
  then show ?thesis
    by (intro dialog_ok_confirmations [OF assms(2), where P = "settleable now conversation i n (if confirm then Confirmed else Cancelled)"])
      (auto simp: odConfirmations_Settle settleable_def split: option.splits)
next
  case (MarkAsked i n)
  then show ?thesis by (intro dialog_ok_confirmations [OF assms(2)]) (simp add: MarkAsked_def; auto)+
next
  case (MarkCallAsked conversation callID n)
  then show ?thesis by (intro dialog_ok_confirmations [OF assms(2)]) (simp add: MarkCallAsked_def Let_def; auto)+
next
  case (ExpireConfirmations now)
  then show ?thesis by (intro dialog_ok_confirmations [OF assms(2)]) (simp add: ExpireConfirmations_def; auto)+
next
  case (AddEvent conversation conf now payload)
  with assms(2) show ?thesis by (simp add: dialog_ok_AddEvent)
next
  case (CarryOverEvents conversation tenant user now window)
  with assms(2) show ?thesis by (simp add: dialog_ok_CarryOverEvents)
next
  case (AckEvent conversation n turn)
  with assms(2) show ?thesis by (simp add: dialog_ok_AckEvent)
qed (intro dialog_ok_conversations [OF assms(2)] conversation_stays [OF assms(1)];
  simp add: task_ops dialog_ops device_ops queue_ops split: prod.splits option.splits sum.splits)+

lemma db_ok_step: "store_step db db' \<Longrightarrow> db_ok db \<Longrightarrow> db_ok db'"
  unfolding db_ok_def by (simp add: tasks_ok_step keys_ok_step event_ids_step notification_ids_step dialog_ok_step)

lemma db_ok_steps: "store_steps db db' \<Longrightarrow> db_ok db \<Longrightarrow> db_ok db'"
  by (induction rule: rtranclp_induct) (auto intro: db_ok_step)

end
