(* ===== verification/OrchSafety.thy ===== *)
theory OrchSafety
  imports OrchSteps
begin

text \<open>
  What the orchestrator's store promises the engine: leases exclude, finished tasks and settled
  confirmations stay as they are, a question stays with the user it is for and has to be asked again
  when it moves, stored call results are stable, notifications are handed out to one consumer at a time.
\<close>

subsection \<open>Leases\<close>

interpretation task_queue: lease_queue trID "\<lambda>r. tkUpdatedAt (trTask r)" runnable take_lease
  by unfold_locales (auto simp: take_lease_def runnable_def)

interpretation job_queue: lease_queue mjConversation mjNotBefore job_due "\<lambda>_ :: unit. take_job"
  by unfold_locales (auto simp: take_job_def job_due_def)

lemma LeaseTask_cases:
  assumes "LeaseTask now w l db = (Inr t, db')"
  obtains r rows where "update_first trID (\<lambda>r. tkUpdatedAt (trTask r)) (runnable now) (take_lease w now l) (odTasks db) = (Some r, rows)"
    "t = trTask r" "db' = db\<lparr>odTasks := rows\<rparr>"
  using assms by (auto simp: LeaseTask_def split: prod.splits option.splits)

lemma LeaseTask_lookup:
  assumes "db_ok db" "LeaseTask now w l db = (Inr t, db')"
  shows "\<exists>r. runnable now r \<and> lookup trID (tkID t) (odTasks db) = Some r \<and> t = trTask (take_lease w now l r)
    \<and> lookup trID (tkID t) (odTasks db') = Some (take_lease w now l r)"
proof -
  from assms(2) obtain r rows where
    u: "update_first trID (\<lambda>r. tkUpdatedAt (trTask r)) (runnable now) (take_lease w now l) (odTasks db) = (Some r, rows)"
    and t: "t = trTask r" "db' = db\<lparr>odTasks := rows\<rparr>" by (rule LeaseTask_cases)
  have d: "distinct (map trID (odTasks db))" using assms(1) by (simp add: db_ok_def tasks_ok_def)
  from task_queue.update_first_claims [OF d u] obtain r0 where
    r0: "r0 \<in> set (odTasks db)" "runnable now r0" "r = take_lease w now l r0" "lookup trID (trID r0) rows = Some r" by blast
  then have "trID r0 = tkID t" using t by (simp add: task_queue.claim_key)
  with r0 t lookup_unique [OF d r0(1)] show ?thesis by auto
qed

lemma LeaseTask_other:
  assumes "db_ok db" "lookup trID i (odTasks db) = Some r" "\<not> runnable now r"
  shows "lookup trID i (odTasks (snd (LeaseTask now w l db))) = Some r"
proof (cases "query_first (\<lambda>r. tkUpdatedAt (trTask r)) (runnable now) (odTasks db)")
  case None
  with assms(2) show ?thesis by (simp add: LeaseTask_def update_first_def)
next
  case (Some x)
  note q = query_first_Some [OF Some]
  have "distinct (map trID (odTasks db))" using assms(1) by (simp add: db_ok_def tasks_ok_def)
  from lookup_unique [OF this q(1)] assms(2,3) q(2) have "trID x \<noteq> i" by auto
  moreover have "trID r = i" using assms(2) by (auto dest: lookup_Some)
  ultimately show ?thesis
    using assms(2) Some by (simp add: LeaseTask_def update_first_def lookup_update_where task_queue.claim_key)
qed

lemma ResumeTask_other:
  assumes "resumes update" "lookup trID i (odTasks db) = Some r"
    and "trState r \<noteq> TaskAwaitingConfirmation" "trState r \<noteq> TaskAwaitingApproval"
  shows "lookup trID i (odTasks (snd (ResumeTask now j update db))) = Some r"
proof (cases "lookup trID j (odTasks db)")
  case None
  with assms(2) show ?thesis by (simp add: ResumeTask_def TaskByID_def)
next
  case (Some x)
  have k: "trID x = j" "trID r = i" using Some assms(2) by (auto dest: lookup_Some)
  show ?thesis
  proof (cases "i = j")
    case True
    with Some assms(2-4) show ?thesis by (simp add: ResumeTask_def TaskByID_def)
  next
    case False
    with Some k assms(1,2) show ?thesis
      by (auto simp: ResumeTask_def TaskByID_def lookup_update_where resumes_def split: sum.splits)
  qed
qed

subsection \<open>Finished tasks\<close>

lemma terminal_step:
  assumes "store_step db db'" "db_ok db" "lookup trID i (odTasks db) = Some r" "Terminal (trTask r)"
  shows "lookup trID i (odTasks db') = Some r"
  using assms(1)
proof (cases rule: store_step.cases)
  case (LeaseTask now owner l)
  have "\<not> runnable now r" using assms(4) by (auto simp: runnable_def Terminal_def)
  with LeaseTask assms(2,3) show ?thesis by (simp add: LeaseTask_other)
next
  case (ResumeTask update now j)
  with assms(3,4) show ?thesis by (auto simp: Terminal_def intro!: ResumeTask_other)
qed (use assms(3,4) in \<open>auto simp: task_ops dialog_ops device_ops queue_ops lookup_append lookup_update_where held_def
    Terminal_def cancellable_def cancel_row_def split: prod.splits option.splits list.splits\<close>)

lemma terminal_steps:
  assumes "store_steps db db'" "db_ok db" "lookup trID i (odTasks db) = Some r" "Terminal (trTask r)"
  shows "lookup trID i (odTasks db') = Some r"
  using assms
proof (induction rule: rtranclp_induct)
  case (step db1 db2)
  then show ?case using db_ok_steps [OF step.hyps(1)] by (blast intro: terminal_step)
qed simp

subsection \<open>How a confirmation changes\<close>

text \<open>
  What it is about never changes; once settled it stays settled, where it is; in its conversation the
  turn it was asked in never changes, and in another one it has not been asked.
\<close>

definition same_question :: "confirmation \<Rightarrow> confirmation \<Rightarrow> bool" where
  "same_question c c' \<longleftrightarrow> cfID c' = cfID c \<and> cfTaskID c' = cfTaskID c \<and> cfCallID c' = cfCallID c
     \<and> cfAction c' = cfAction c \<and> cfSummary c' = cfSummary c \<and> cfExpiresAt c' = cfExpiresAt c
     \<and> (cfState c \<noteq> Pending \<longrightarrow> cfState c' = cfState c \<and> cfConversationID c' = cfConversationID c)"

definition evolves :: "confirmation \<Rightarrow> confirmation \<Rightarrow> bool" where
  "evolves c c' \<longleftrightarrow> same_question c c'
     \<and> (if cfConversationID c' = cfConversationID c then \<forall>a. cfAskedTurn c = Some a \<longrightarrow> cfAskedTurn c' = Some a
        else cfAskedTurn c' = None)"

lemma same_question_refl [simp]: "same_question c c"
  by (simp add: same_question_def)

lemma evolves_refl [simp]: "evolves c c"
  by (simp add: evolves_def)

lemma same_question_trans: "same_question a b \<Longrightarrow> same_question b c \<Longrightarrow> same_question a c"
  by (auto simp: same_question_def)

definition moves_ok :: "orch_db \<Rightarrow> orch_db \<Rightarrow> uuid \<Rightarrow> confirmation \<Rightarrow> bool" where
  "moves_ok db db' i c \<longleftrightarrow> (\<exists>c'. lookup cfID i (odConfirmations db') = Some c' \<and> evolves c c'
     \<and> owner_of db (cfConversationID c') = owner_of db (cfConversationID c))"

lemma moves_ok_update:
  assumes "lookup cfID i (odConfirmations db) = Some c" "odConfirmations db' = update_where P f (odConfirmations db)"
    and "\<And>c. P c \<Longrightarrow> cfID (f c) = cfID c" "P c \<Longrightarrow> evolves c (f c)"
    and "P c \<Longrightarrow> owner_of db (cfConversationID (f c)) = owner_of db (cfConversationID c)"
  shows "moves_ok db db' i c"
  using assms by (simp add: moves_ok_def lookup_update_where)

lemma live_target_owner:
  assumes "db_ok db" "live_target now conversation db = Some t"
  shows "owner_of db t = owner_of db conversation"
proof -
  from assms(2) obtain c where c: "lookup coID conversation (odConversations db) = Some c"
    by (auto simp: live_target_def split: option.splits)
  show ?thesis
  proof (cases "coClosedAt c = None")
    case True
    with assms(2) c show ?thesis by (simp add: live_target_def)
  next
    case False
    with assms(2) c obtain o1 where o1: "t = coID o1"
      "query_first (\<lambda>o1. - coCreatedAt o1) (\<lambda>o1. coTenantID o1 = coTenantID c \<and> coUserID o1 = coUserID c
         \<and> coClosedAt o1 = None \<and> coCreatedAt o1 > now - ConversationLifetime) (odConversations db) = Some o1"
      by (auto simp: live_target_def)
    note q = query_first_Some(1,2) [OF o1(2)]
    have "distinct (map coID (odConversations db))" using assms(1) by (simp add: db_ok_def keys_ok_def)
    from lookup_unique [OF this q(1)] q(2) c o1(1) show ?thesis by (simp add: owner_of_def)
  qed
qed

lemma AddEvent_moves:
  assumes "db_ok db" "asks_own db conversation conf" "lookup cfID i (odConfirmations db) = Some c"
  shows "moves_ok db (snd (AddEvent now conversation payload conf db)) i c"
proof -
  obtain target live where t: "(case live_target now conversation db of None \<Rightarrow> (conversation, False) | Some t \<Rightarrow> (t, True)) = (target, live)"
    by (metis surj_pair)
  have ow: "owner_of db target = owner_of db conversation"
    using t live_target_owner [OF assms(1)] by (auto split: option.splits)
  show ?thesis
  proof (cases "lookup coID target (odConversations db) = None \<or> target = conversation \<or> conf = None")
    case True
    with assms(3) t show ?thesis by (auto simp: moves_ok_def AddEvent_def Let_def)
  next
    case False
    have own: "cfConversationID c = conversation" if "Some (cfID c) = conf"
      using that assms(2,3) lookup_Some [OF assms(3)] by (auto simp: asks_own_def)
    have e: "odConfirmations (snd (AddEvent now conversation payload conf db)) =
        update_where (\<lambda>c. Some (cfID c) = conf \<and> cfState c = Pending) (move_confirmation target) (odConfirmations db)"
      using False by (auto simp: AddEvent_def t Let_def)
    show ?thesis using False own ow
      by (intro moves_ok_update [OF assms(3) e])
        (auto simp: evolves_def same_question_def move_confirmation_def)
  qed
qed

lemma CarryOverEvents_moves:
  assumes "db_ok db" "owner_of db conversation = Some (tenant, user)" "lookup cfID i (odConfirmations db) = Some c"
  shows "moves_ok db (snd (CarryOverEvents now conversation tenant user window db)) i c"
proof (cases "lookup coID conversation (odConversations db) = None")
  case True
  with assms(2) show ?thesis by (simp add: owner_of_def)
next
  case False
  let ?moved = "filter (unheard now conversation tenant user window db) (odEvents db)"
  have e: "odConfirmations (snd (CarryOverEvents now conversation tenant user window db)) =
      update_where (\<lambda>c. cfID c \<in> set (List.map_filter oeConfirmation ?moved) \<and> cfState c = Pending)
        (move_confirmation conversation) (odConfirmations db)"
    using False by (auto simp: CarryOverEvents_def Let_def)
  have "cfConversationID c \<noteq> conversation \<and> owner_of db (cfConversationID c) = Some (tenant, user)"
    if "cfID c \<in> set (List.map_filter oeConfirmation ?moved)" "cfState c = Pending"
  proof -
    from that(1) obtain ev where ev: "ev \<in> set (odEvents db)" "unheard now conversation tenant user window db ev"
      "oeConfirmation ev = Some (cfID c)" by (force simp: List.map_filter_def)
    then have "event_ok db ev" using assms(1) by (simp add: db_ok_def dialog_ok_def)
    moreover have "cfID c = i" using assms(3) by (auto dest: lookup_Some)
    ultimately have conv: "cfConversationID c = oeConversation ev" using ev(3) assms(3) that(2) by (simp add: event_ok_def)
    from ev(2) obtain d where d: "d \<in> set (odConversations db)" "oeConversation ev = coID d" "coTenantID d = tenant"
      "coUserID d = user" "coID d \<noteq> conversation" by (auto simp: unheard_def)
    have "distinct (map coID (odConversations db))" using assms(1) by (simp add: db_ok_def keys_ok_def)
    from lookup_unique [OF this d(1)] d conv show ?thesis by (simp add: owner_of_def)
  qed
  then show ?thesis using assms(2)
    by (intro moves_ok_update [OF assms(3) e]) (auto simp: evolves_def same_question_def move_confirmation_def)
qed

lemma confirmation_step:
  assumes "store_step db db'" "db_ok db" "lookup cfID i (odConfirmations db) = Some c"
  shows "moves_ok db db' i c"
  using assms(1)
proof (cases rule: store_step.cases)
  case (AddEvent conversation conf now payload)
  with assms(2,3) show ?thesis by (simp add: AddEvent_moves)
next
  case (CarryOverEvents conversation tenant user now window)
  with assms(2,3) show ?thesis by (simp add: CarryOverEvents_moves)
next
  case (Settle now conversation j n confirm)
  then show ?thesis
    by (intro moves_ok_update [OF assms(3), where P = "settleable now conversation j n (if confirm then Confirmed else Cancelled)"])
      (auto simp: odConfirmations_Settle settleable_def evolves_def same_question_def)
next
  case (MarkAsked j n)
  then show ?thesis
    by (intro moves_ok_update [OF assms(3)]) (simp add: MarkAsked_def; auto simp: evolves_def same_question_def coalesce_def)+
next
  case (MarkCallAsked conversation callID n)
  then show ?thesis
    by (intro moves_ok_update [OF assms(3)])
      (simp add: MarkCallAsked_def Let_def; auto simp: evolves_def same_question_def coalesce_def)+
next
  case (ExpireConfirmations now)
  then show ?thesis
    by (intro moves_ok_update [OF assms(3)])
      (simp add: ExpireConfirmations_def; auto simp: evolves_def same_question_def overdue_def)+
next
  case (CancelTask now tenant user j)
  show ?thesis
  proof (cases "query_row (cancellable tenant user j) (odTasks db)")
    case None
    with CancelTask assms(3) show ?thesis by (simp add: CancelTask_def moves_ok_def)
  next
    case (Some r)
    with CancelTask show ?thesis
      by (intro moves_ok_update [OF assms(3)]) (simp add: CancelTask_def; auto simp: evolves_def same_question_def)+
  qed
qed (use assms(3) in \<open>auto simp: moves_ok_def task_ops dialog_ops device_ops queue_ops lookup_append
    split: prod.splits option.splits list.splits sum.splits\<close>)

lemma confirmation_steps:
  assumes "store_steps db db'" "db_ok db" "lookup cfID i (odConfirmations db) = Some c"
  shows "\<exists>c'. lookup cfID i (odConfirmations db') = Some c' \<and> same_question c c'
    \<and> owner_of db' (cfConversationID c') = owner_of db (cfConversationID c)"
  using assms
proof (induction rule: rtranclp_induct)
  case base
  then show ?case by simp
next
  case (step db1 db2)
  then obtain c1 where c1: "lookup cfID i (odConfirmations db1) = Some c1" "same_question c c1"
    "owner_of db1 (cfConversationID c1) = owner_of db (cfConversationID c)" by blast
  have ok: "db_ok db1" using db_ok_steps [OF step.hyps(1) step.prems(1)] .
  from confirmation_step [OF step.hyps(2) ok c1(1)] obtain c2 where
    c2: "lookup cfID i (odConfirmations db2) = Some c2" "same_question c1 c2"
      "owner_of db1 (cfConversationID c2) = owner_of db1 (cfConversationID c1)"
    by (auto simp: moves_ok_def evolves_def)
  have "confirmation_ok db1 c1" using ok c1(1) by (auto simp: db_ok_def dialog_ok_def dest: lookup_Some)
  then obtain ow where ow: "owner_of db1 (cfConversationID c1) = Some ow"
    unfolding confirmation_ok_def lookup_owner by auto
  then have "owner_of db2 (cfConversationID c2) = Some ow" using owner_of_step [OF step.hyps(2)] c2(3) by simp
  with c1 c2 ow show ?case by (auto intro: same_question_trans)
qed

subsection \<open>Settling\<close>

lemma Settle_lookup:
  assumes "db_ok db" "Settle now conversation i n confirm db = (Inr c, db')"
  shows "\<exists>c0. lookup cfID i (odConfirmations db) = Some c0 \<and>
      settleable now conversation i n (if confirm then Confirmed else Cancelled) c0 \<and>
      c = c0\<lparr>cfState := if confirm then Confirmed else Cancelled\<rparr> \<and> lookup cfID i (odConfirmations db') = Some c"
proof -
  let ?st = "if confirm then Confirmed else Cancelled"
  let ?P = "settleable now conversation i n ?st"
  from assms(2) obtain c0 cs where f: "filter ?P (odConfirmations db) = c0 # cs" "c = c0\<lparr>cfState := ?st\<rparr>"
    by (auto simp: Settle_def Let_def returning_def split: list.splits)
  then have "c0 \<in> set (filter ?P (odConfirmations db))" by simp
  then have c0: "c0 \<in> set (odConfirmations db)" "?P c0" by auto
  then have "cfID c0 = i" by (simp add: settleable_def)
  moreover have d: "distinct (map cfID (odConfirmations db))" using assms(1) by (simp add: db_ok_def keys_ok_def)
  ultimately have l: "lookup cfID i (odConfirmations db) = Some c0" using lookup_unique [OF d c0(1)] by simp
  have "odConfirmations db' = update_where ?P (\<lambda>c. c\<lparr>cfState := ?st\<rparr>) (odConfirmations db)"
    using odConfirmations_Settle(1) [of now conversation i n confirm db] assms(2) by simp
  with l c0(2) f(2) show ?thesis by (simp add: lookup_update_where)
qed

lemma Settle_refused:
  assumes "lookup cfID i (odConfirmations db) = Some c" "db_ok db" "cfState c \<noteq> Pending"
  shows "Settle now conversation i n confirm db = (Inl ErrNotFound, db)"
proof -
  have "\<not> settleable now conversation i n st x" if "x \<in> set (odConfirmations db)" for x st
  proof
    assume s: "settleable now conversation i n st x"
    have "distinct (map cfID (odConfirmations db))" using assms(2) by (simp add: db_ok_def keys_ok_def)
    from lookup_unique [OF this that] s assms(1,3) show False by (auto simp: settleable_def)
  qed
  then have "filter (settleable now conversation i n st) (odConfirmations db) = []" for st
    by (auto simp: filter_empty_conv)
  then show ?thesis by (simp add: Settle_def Let_def returning_def)
qed

subsection \<open>A database for the examples\<close>

definition sample_conversation :: conversation where
  "sample_conversation = \<lparr>coID = ''c1'', coTenantID = ''t'', coUserID = ''ann'', coSessionID = [], coProvider = 1,
     coLocale = ''en'', coTools = [], coUserTurn = 3, coClosedAt = None, coCreatedAt = 50\<rparr>"

definition sample_task :: task where
  "sample_task = \<lparr>tkID = ''k1'', tkTenantID = ''t'', tkUserID = ''ann'', tkConversationID = Some ''c1'', tkKind = KindAgent,
     tkProvider = 1, tkGoal = ''book a table'', tkState = TaskQueued, tkResult = [], tkSteps = 0, tkTools = [],
     tkHistory = ''[]'', tkPending = ''[]'', tkDeadline = 9000, tkCreatedAt = 60, tkUpdatedAt = 60\<rparr>"

definition sample_confirmation :: confirmation where
  "sample_confirmation = \<lparr>cfID = ''q1'', cfConversationID = ''c1'', cfTaskID = None, cfCallID = ''call'', cfAction = ''{}'',
     cfSummary = ''send it'', cfAskedTurn = Some 1, cfState = Pending, cfExpiresAt = 8000\<rparr>"

definition orch_sample :: orch_db where
  "orch_sample = empty_orch_db\<lparr>odConversations := [sample_conversation],
     odTasks := [\<lparr>trTask = sample_task, trLeaseOwner = None, trLeaseUntil = None\<rparr>],
     odConfirmations := [sample_confirmation]\<rparr>"

lemma orch_sample_ok: "db_ok orch_sample"
  by (simp add: db_ok_def orch_sample_def empty_orch_db_def tasks_ok_def lease_ok_def sample_task_def keys_ok_def
      serial_ok_def dialog_ok_def confirmation_ok_def sample_confirmation_def sample_conversation_def)

subsection \<open>Guarantees\<close>



text \<open>
  C23.  A finished task is final: no later operation, by a worker that lost its lease, by the user or by
  the maintenance loops, changes anything of a task that succeeded, failed or was cancelled.
\<close>

theorem finished_task_stays:
  assumes "db_ok db" "lookup trID i (odTasks db) = Some r" "Terminal (trTask r)" "store_steps db db'"
  shows "lookup trID i (odTasks db') = Some r"
  by (rule terminal_steps [OF assms(4,1,2,3)])

theorem finished_task_stays_witness:
  "\<exists>r. lookup trID ''k1'' (odTasks (snd (CancelTask 70 ''t'' ''ann'' ''k1'' orch_sample))) = Some r \<and> Terminal (trTask r) \<and>
     lookup trID ''k1'' (odTasks (snd (LeaseTask 80 ''w'' 30 (snd (CancelTask 70 ''t'' ''ann'' ''k1'' orch_sample))))) = Some r"
proof -
  let ?db = "snd (CancelTask 70 ''t'' ''ann'' ''k1'' orch_sample)"
  obtain r where r: "lookup trID ''k1'' (odTasks ?db) = Some r" "Terminal (trTask r)"
    by (simp add: CancelTask_def orch_sample_def sample_task_def cancellable_def cancel_row_def Terminal_def)
  have ok: "db_ok ?db" by (rule db_ok_step [OF store_step.CancelTask orch_sample_ok])
  have "store_steps ?db (snd (LeaseTask 80 ''w'' 30 ?db))" by (rule r_into_rtranclp) (rule store_step.LeaseTask)
  from finished_task_stays [OF ok r this] r show ?thesis by blast
qed

text \<open>
  C24.  A confirmation counts once, and only after the user was asked: confirming succeeds only for a
  pending, unexpired confirmation of this conversation whose question was asked in an earlier user turn,
  and after that every further attempt to confirm or cancel it, whatever happened in between, is refused.
\<close>

theorem Settle_once:
  assumes "db_ok db" "Settle now conversation i n True db = (Inr c, db1)"
  shows "(\<exists>c0 asked. lookup cfID i (odConfirmations db) = Some c0 \<and> cfState c0 = Pending \<and> now < cfExpiresAt c0
      \<and> cfConversationID c0 = conversation \<and> cfAskedTurn c0 = Some asked \<and> asked < n \<and> c = c0\<lparr>cfState := Confirmed\<rparr>)
    \<and> (\<forall>db2. store_steps db1 db2 \<longrightarrow>
      (\<forall>now' conversation' n' confirm. Settle now' conversation' i n' confirm db2 = (Inl ErrNotFound, db2)))"
proof -
  from Settle_lookup [OF assms] obtain c0 where c0: "lookup cfID i (odConfirmations db) = Some c0"
    "settleable now conversation i n Confirmed c0" "c = c0\<lparr>cfState := Confirmed\<rparr>" "lookup cfID i (odConfirmations db1) = Some c"
    by auto
  have ok: "db_ok db1" using db_ok_step [OF store_step.Settle assms(1), of now conversation i n True] assms(2) by simp
  have "Settle now' conversation' i n' confirm db2 = (Inl ErrNotFound, db2)" if st: "store_steps db1 db2"
    for db2 now' conversation' n' confirm
  proof -
    from confirmation_steps [OF st ok c0(4)] obtain c' where c': "lookup cfID i (odConfirmations db2) = Some c'" "same_question c c'"
      by blast
    then have "cfState c' \<noteq> Pending" using c0(3) by (simp add: same_question_def)
    from Settle_refused [OF c'(1) db_ok_steps [OF st ok] this] show ?thesis .
  qed
  moreover have "\<exists>asked. cfAskedTurn c0 = Some asked \<and> asked < n" "cfState c0 = Pending" "now < cfExpiresAt c0"
    "cfConversationID c0 = conversation"
    using c0(2) by (auto simp: settleable_def split: option.splits)
  ultimately show ?thesis using c0(1,3) by blast
qed

theorem Settle_once_witness:
  "\<exists>c db1. Settle 100 ''c1'' ''q1'' 2 True orch_sample = (Inr c, db1) \<and> cfState c = Confirmed \<and>
     Settle 110 ''c1'' ''q1'' 3 True (AdvanceTurn ''c1'' 3 db1) = (Inl ErrNotFound, AdvanceTurn ''c1'' 3 db1)"
proof -
  obtain c db1 where s: "Settle 100 ''c1'' ''q1'' 2 True orch_sample = (Inr c, db1)"
    by (simp add: Settle_def returning_def orch_sample_def sample_confirmation_def settleable_def Let_def)
  have "store_steps db1 (AdvanceTurn ''c1'' 3 db1)" by (rule r_into_rtranclp) (rule store_step.AdvanceTurn)
  with Settle_once [OF orch_sample_ok s] s show ?thesis by (metis confirmation.select_convs(8) confirmation.update_convs(8) confirmation.surjective)
qed

text \<open>
  C25.  A question stays with the user it is for: whatever happens to a confirmation, what it is about does
  not change and the conversation it is in belongs to the same tenant and user.
\<close>

theorem question_keeps_owner:
  assumes "db_ok db" "lookup cfID i (odConfirmations db) = Some c" "store_steps db db'"
  shows "\<exists>c'. lookup cfID i (odConfirmations db') = Some c' \<and> cfAction c' = cfAction c \<and> cfTaskID c' = cfTaskID c
    \<and> cfExpiresAt c' = cfExpiresAt c \<and> owner_of db' (cfConversationID c') = owner_of db (cfConversationID c)"
  using confirmation_steps [OF assms(3,1,2)] by (auto simp: same_question_def)

theorem question_keeps_owner_witness:
  "lookup cfID ''q1'' (odConfirmations orch_sample) = Some sample_confirmation \<and>
   (\<exists>c'. lookup cfID ''q1'' (odConfirmations (snd (CloseConversation 70 ''c1'' orch_sample))) = Some c' \<and>
      cfAction c' = ''{}'')"
proof -
  have l: "lookup cfID ''q1'' (odConfirmations orch_sample) = Some sample_confirmation"
    by (simp add: orch_sample_def sample_confirmation_def)
  have "store_steps orch_sample (snd (CloseConversation 70 ''c1'' orch_sample))"
    by (rule r_into_rtranclp) (rule store_step.CloseConversation)
  from question_keeps_owner [OF orch_sample_ok l this] l show ?thesis by (auto simp: sample_confirmation_def)
qed

text \<open>
  C26.  A question that moves to another conversation has to be asked again there: no step both moves a
  confirmation and leaves it asked, and in the conversation it is in, the turn it was asked in is never changed.
\<close>

theorem moved_question_is_unasked:
  assumes "db_ok db" "lookup cfID i (odConfirmations db) = Some c" "store_step db db'"
    and "lookup cfID i (odConfirmations db') = Some c'"
  shows "if cfConversationID c' = cfConversationID c then \<forall>a. cfAskedTurn c = Some a \<longrightarrow> cfAskedTurn c' = Some a
    else cfAskedTurn c' = None \<and> cfState c = Pending"
  using confirmation_step [OF assms(3,1,2)] assms(4) by (auto simp: moves_ok_def evolves_def same_question_def split: if_splits)

theorem moved_question_is_unasked_witness:
  "\<exists>c'. lookup cfID ''q1'' (odConfirmations (MarkAsked ''q1'' 9 orch_sample)) = Some c' \<and> cfAskedTurn c' = Some 1"
proof -
  have l: "lookup cfID ''q1'' (odConfirmations orch_sample) = Some sample_confirmation"
    by (simp add: orch_sample_def sample_confirmation_def)
  obtain c' where l': "lookup cfID ''q1'' (odConfirmations (MarkAsked ''q1'' 9 orch_sample)) = Some c'"
    "cfConversationID c' = ''c1''"
    by (simp add: orch_sample_def sample_confirmation_def MarkAsked_def)
  from moved_question_is_unasked [OF orch_sample_ok l store_step.MarkAsked l'(1)] l' show ?thesis
    by (simp add: sample_confirmation_def)
qed

text \<open>
  C27.  Concurrent workers never run the same task: as long as the row says that \<open>w\<close> holds the lease and it
  has not run out, no call of \<^verbatim>\<open>LeaseTask\<close> returns that task; and a worker that does not hold the lease
  can neither renew it, nor save progress, nor change the task's state.
\<close>

theorem LeaseTask_exclusive:
  assumes "db_ok db" "lookup trID i (odTasks db) = Some r" "trLeaseOwner r = Some w" "trLeaseUntil r = Some u" "now \<le> u"
    and "w' \<noteq> w" "tkID t = i"
  shows "(\<forall>t' db'. LeaseTask now w' l db = (Inr t', db') \<longrightarrow> tkID t' \<noteq> i)
    \<and> RenewLease now i w' l db = (False, db) \<and> SaveProgress now t w' db = (False, db)
    \<and> SetTaskState now t w' st res db = (False, db)"
proof -
  have d: "distinct (map trID (odTasks db))" using assms(1) by (simp add: db_ok_def tasks_ok_def)
  have "trID r = i" "r \<in> set (odTasks db)" using assms(2) by (auto dest: lookup_Some)
  then have "\<not> held i w' x" if "x \<in> set (odTasks db)" for x
    using that assms(3,6) key_unique [OF d, of x r] by (auto simp: held_def)
  then have n: "filter (held i w') (odTasks db) = []" "\<And>f. update_where (held i w') f (odTasks db) = odTasks db"
    by (auto simp: filter_empty_conv intro: update_where_none)
  have "trState r = TaskRunning"
    using assms(1,3) \<open>r \<in> set (odTasks db)\<close> by (auto simp: db_ok_def tasks_ok_def lease_ok_def)
  with assms(4,5) have "\<not> runnable now r" by (simp add: runnable_def)
  then have "tkID t' \<noteq> i" if "LeaseTask now w' l db = (Inr t', db')" for t' db'
    using LeaseTask_lookup [OF assms(1) that] assms(2) by auto
  with n assms(7) show ?thesis
    by (simp add: RenewLease_def SaveProgress_def SetTaskState_def affected_def)
qed

definition leased_sample :: orch_db where
  "leased_sample = snd (LeaseTask 100 ''w1'' 30 orch_sample)"

theorem LeaseTask_exclusive_witness:
  "fst (LeaseTask 120 ''w2'' 30 leased_sample) = Inl ErrNotFound \<and> SaveProgress 120 sample_task ''w2'' leased_sample = (False, leased_sample)"
proof -
  have ok: "db_ok leased_sample" unfolding leased_sample_def by (rule db_ok_step [OF store_step.LeaseTask orch_sample_ok])
  obtain r where r: "lookup trID ''k1'' (odTasks leased_sample) = Some r" "trLeaseOwner r = Some ''w1''" "trLeaseUntil r = Some 130"
    and only: "odTasks leased_sample = [r]" "trState r = TaskRunning"
    by (simp add: leased_sample_def orch_sample_def sample_task_def LeaseTask_def update_first_def query_first_def runnable_def
        take_lease_def)
  have "tkID sample_task = ''k1''" by (simp add: sample_task_def)
  from LeaseTask_exclusive [OF ok r _ _ this, of 120 "''w2''" 30] only r(3) show ?thesis
    by (simp add: LeaseTask_def update_first_def query_first_def runnable_def)
qed

lemma ToolCall_step: "store_step db db' \<Longrightarrow> ToolCall conversation callID db = Inr r \<Longrightarrow> ToolCall conversation callID db' = Inr r"
  by (erule store_step.cases)
    (auto simp: ToolCall_def task_ops dialog_ops device_ops queue_ops lookup_append
      split: prod.splits option.splits list.splits if_splits sum.splits)

text \<open>
  C28.  The result of a voice function call is stored once: whatever happens later, and however often
  the call is stored again, reading it gives the first result.
\<close>

theorem ToolCall_stable:
  assumes "ToolCall conversation callID db = Inr r" "store_steps db db'"
  shows "ToolCall conversation callID db' = Inr r"
  using assms(2,1) by (induction rule: rtranclp_induct) (auto intro: ToolCall_step)

theorem ToolCall_stable_witness:
  "ToolCall ''c1'' ''x'' (snd (SaveToolCall ''c1'' ''x'' ''f'' \<lparr>crOutput = ''first'', crIsError = False, crAckRequired = False\<rparr> orch_sample))
     = Inr \<lparr>crOutput = ''first'', crIsError = False, crAckRequired = False\<rparr> \<and>
   ToolCall ''c1'' ''x'' (snd (SaveToolCall ''c1'' ''x'' ''f'' \<lparr>crOutput = ''second'', crIsError = True, crAckRequired = False\<rparr>
     (snd (SaveToolCall ''c1'' ''x'' ''f'' \<lparr>crOutput = ''first'', crIsError = False, crAckRequired = False\<rparr> orch_sample))))
     = Inr \<lparr>crOutput = ''first'', crIsError = False, crAckRequired = False\<rparr>"
proof -
  let ?r = "\<lparr>crOutput = ''first'', crIsError = False, crAckRequired = False\<rparr>"
  let ?db = "snd (SaveToolCall ''c1'' ''x'' ''f'' ?r orch_sample)"
  have t: "ToolCall ''c1'' ''x'' ?db = Inr ?r"
    by (simp add: ToolCall_def SaveToolCall_def orch_sample_def empty_orch_db_def sample_conversation_def call_key_def)
  have st: "store_steps ?db (snd (SaveToolCall ''c1'' ''x'' ''f'' \<lparr>crOutput = ''second'', crIsError = True, crAckRequired = False\<rparr> ?db))"
    by (rule r_into_rtranclp) (rule store_step.SaveToolCall)
  show ?thesis using t ToolCall_stable [OF t st] by blast
qed

subsection \<open>Notifications\<close>

lemma ClaimNotifications_returned:
  assumes "distinct (map noID (odNotifications db))" "ClaimNotifications now consumer mx l maxAttempts maxAge db = (ns, db')" "n \<in> set ns"
  shows "\<exists>n0 \<in> set (odNotifications db). claimable now maxAttempts maxAge n0 \<and> n = claim_notification consumer now l n0"
proof -
  let ?take = "take mx (sort_key noID (filter (claimable now maxAttempts maxAge) (odNotifications db)))"
  from assms(2,3) obtain n0 where n0: "n0 \<in> set (odNotifications db)" "noID n0 \<in> noID ` set ?take" "n = claim_notification consumer now l n0"
    by (auto simp: ClaimNotifications_def Let_def returning_def)
  then obtain n1 where n1: "n1 \<in> set ?take" "noID n1 = noID n0" by auto
  then have "n1 \<in> set (odNotifications db)" "claimable now maxAttempts maxAge n1" using set_take_subset [of mx] by fastforce+
  moreover from this have "n1 = n0" using key_unique [OF assms(1)] n0(1) n1(2) by blast
  ultimately show ?thesis using n0 by blast
qed

lemma ClaimNotifications_rows:
  assumes "distinct (map noID (odNotifications db))" "ClaimNotifications now consumer mx l maxAttempts maxAge db = (ns, db')" "n \<in> set ns"
  shows "lookup noID (noID n) (odNotifications db') = Some n"
proof -
  define ids where "ids = map noID (take mx (sort_key noID (filter (claimable now maxAttempts maxAge) (odNotifications db))))"
  from assms(2,3) obtain n0 where n0: "n0 \<in> set (odNotifications db)" "noID n0 \<in> set ids" "n = claim_notification consumer now l n0"
    "odNotifications db' = update_where (\<lambda>n. noID n \<in> set ids) (claim_notification consumer now l) (odNotifications db)"
    by (auto simp: ClaimNotifications_def returning_def Let_def simp flip: ids_def)
  have k: "noID n = noID n0" using n0(3) by (simp add: claim_notification_def)
  have "lookup noID (noID n0) (odNotifications db') = map_option (\<lambda>n. if noID n \<in> set ids then claim_notification consumer now l n else n)
      (lookup noID (noID n0) (odNotifications db))"
    unfolding n0(4) by (rule lookup_update_where) (simp add: claim_notification_def)
  with lookup_unique [OF assms(1) n0(1)] n0 k show ?thesis by simp
qed

lemma ClaimNotifications_length:
  assumes "distinct (map noID (odNotifications db))" "ClaimNotifications now consumer mx l maxAttempts maxAge db = (ns, db')"
  shows "length ns \<le> mx"
proof -
  define ids where "ids = map noID (take mx (sort_key noID (filter (claimable now maxAttempts maxAge) (odNotifications db))))"
  have "length ns = length (filter (\<lambda>n. noID n \<in> set ids) (odNotifications db))"
    using assms(2) by (auto simp: ClaimNotifications_def returning_def Let_def simp flip: ids_def)
  also have "\<dots> \<le> length ids" by (rule length_filter_keys [OF assms(1)])
  also have "\<dots> \<le> mx" by (simp add: ids_def)
  finally show ?thesis .
qed


definition sample_notification :: notification where
  "sample_notification = \<lparr>noID = 0, noTenantID = ''t'', noUserID = ''ann'', noKind = NotifyFinished, noTaskID = ''k1'',
     noTaskState = TaskSucceeded, noClaimedBy = None, noClaimedUntil = None, noAttempts = 0, noDoneAt = None, noCreatedAt = 0\<rparr>"

definition notified_sample :: orch_db where
  "notified_sample = AddNotification 100 sample_notification orch_sample"


subsection \<open>Carrying over\<close>

lemma Events_all:
  assumes "length (odEvents db) \<le> limit"
  shows "set (Events conversation after limit db) = {e \<in> set (odEvents db). oeConversation e = conversation \<and> after < oeID e}"
proof -
  have "length (filter (\<lambda>e. oeConversation e = conversation \<and> after < oeID e) (odEvents db)) \<le> limit"
    using length_filter_le assms by (rule le_trans)
  then show ?thesis by (simp add: Events_def)
qed

text \<open>
  C30.  What a user never heard is told in the next conversation: an event of one of the user's closed
  conversations, recent and not acknowledged, is among the events of the new conversation after
  \<^verbatim>\<open>CarryOverEvents\<close>, and the pending question it asks about waits there, not asked yet.
\<close>

theorem CarryOverEvents_delivers:
  assumes "db_ok db" "owner_of db conversation = Some (tenant, user)" "e \<in> set (odEvents db)"
    and "owner_of db (oeConversation e) = Some (tenant, user)" "oeConversation e \<noteq> conversation"
    and "\<exists>c at. lookup coID (oeConversation e) (odConversations db) = Some c \<and> coClosedAt c = Some at"
    and "oeAckedTurn e = None" "now - window < oeCreatedAt e" "after < oeID e" "length (odEvents db) \<le> limit"
  shows "\<exists>n db'. CarryOverEvents now conversation tenant user window db = (Inr n, db')
    \<and> e\<lparr>oeConversation := conversation\<rparr> \<in> set (Events conversation after limit db')
    \<and> (\<forall>i c. oeConfirmation e = Some i \<and> lookup cfID i (odConfirmations db) = Some c \<and> cfState c = Pending \<longrightarrow>
         lookup cfID i (odConfirmations db') = Some (c\<lparr>cfConversationID := conversation, cfAskedTurn := None\<rparr>))"
proof -
  let ?P = "unheard now conversation tenant user window db"
  let ?ids = "List.map_filter oeConfirmation (filter ?P (odEvents db))"
  let ?cs = "update_where (\<lambda>c. cfID c \<in> set ?ids \<and> cfState c = Pending) (move_confirmation conversation) (odConfirmations db)"
  let ?db' = "db\<lparr>odEvents := update_where ?P (\<lambda>e. e\<lparr>oeConversation := conversation\<rparr>) (odEvents db), odConfirmations := ?cs\<rparr>"
  from assms(2) have r: "CarryOverEvents now conversation tenant user window db = (Inr (length (filter ?P (odEvents db))), ?db')"
    by (auto simp: CarryOverEvents_def Let_def owner_of_def)
  from assms(4,6) obtain c where "c \<in> set (odConversations db)" "coID c = oeConversation e" "coTenantID c = tenant" "coUserID c = user"
    "coClosedAt c \<noteq> None" using lookup_Some [of coID "oeConversation e" "odConversations db"] by (auto simp: owner_of_def)
  with assms(5,7,8) have P: "?P e" unfolding unheard_def by (intro conjI bexI [of _ c]) auto
  with assms(3) have "e\<lparr>oeConversation := conversation\<rparr> \<in> set (odEvents ?db')" by (force simp: set_update_where)
  with assms(9,10) have ev: "e\<lparr>oeConversation := conversation\<rparr> \<in> set (Events conversation after limit ?db')"
    by (simp add: Events_all)
  have "lookup cfID i ?cs = Some (c\<lparr>cfConversationID := conversation, cfAskedTurn := None\<rparr>)"
    if c: "oeConfirmation e = Some i" "lookup cfID i (odConfirmations db) = Some c" "cfState c = Pending" for i c
  proof -
    have "i \<in> set ?ids" using P assms(3) c(1) by (force simp: List.map_filter_def)
    moreover have "cfID c = i" using c(2) by (auto dest: lookup_Some)
    moreover have "lookup cfID i ?cs = map_option (\<lambda>c. if cfID c \<in> set ?ids \<and> cfState c = Pending then move_confirmation conversation c else c)
        (lookup cfID i (odConfirmations db))" by (rule lookup_update_where) (simp add: move_confirmation_def)
    ultimately show ?thesis using c by (simp add: move_confirmation_def)
  qed
  with r ev show ?thesis by auto
qed

definition closed_sample :: orch_db where
  "closed_sample = orch_sample\<lparr>odConversations := [sample_conversation\<lparr>coClosedAt := Some 70\<rparr>, sample_conversation\<lparr>coID := ''c2''\<rparr>],
     odEvents := [\<lparr>oeID = 1, oeConversation = ''c1'', oePayload = ''hello'', oeConfirmation = Some ''q1'', oeAckedTurn = None, oeCreatedAt = 65\<rparr>],
     odNextEvent := 2\<rparr>"

theorem CarryOverEvents_delivers_witness:
  "\<exists>n db'. CarryOverEvents 90 ''c2'' ''t'' ''ann'' 500 closed_sample = (Inr n, db') \<and>
     map oePayload (Events ''c2'' 0 10 db') = [''hello''] \<and>
     lookup cfID ''q1'' (odConfirmations db') = Some (sample_confirmation\<lparr>cfConversationID := ''c2'', cfAskedTurn := None\<rparr>)"
proof -
  let ?e = "\<lparr>oeID = 1, oeConversation = ''c1'', oePayload = ''hello'', oeConfirmation = Some ''q1'', oeAckedTurn = None, oeCreatedAt = 65\<rparr>"
  have ok: "db_ok closed_sample"
    by (simp add: db_ok_def closed_sample_def orch_sample_def empty_orch_db_def tasks_ok_def lease_ok_def sample_task_def keys_ok_def
      serial_ok_def dialog_ok_def confirmation_ok_def event_ok_def sample_confirmation_def sample_conversation_def questions_def
      List.map_filter_def)
  have o: "owner_of closed_sample ''c2'' = Some (''t'', ''ann'')" "owner_of closed_sample (oeConversation ?e) = Some (''t'', ''ann'')"
    by (simp_all add: owner_of_def closed_sample_def sample_conversation_def)
  have e: "?e \<in> set (odEvents closed_sample)" and n: "oeConversation ?e \<noteq> ''c2''"
    and c: "\<exists>c at. lookup coID (oeConversation ?e) (odConversations closed_sample) = Some c \<and> coClosedAt c = Some at"
    by (simp_all add: closed_sample_def sample_conversation_def)
  from CarryOverEvents_delivers [OF ok o(1) e o(2) n c, of 90 500 0 10] obtain k db' where
    k: "CarryOverEvents 90 ''c2'' ''t'' ''ann'' 500 closed_sample = (Inr k, db')"
      "?e\<lparr>oeConversation := ''c2''\<rparr> \<in> set (Events ''c2'' 0 10 db')"
      "\<forall>c. lookup cfID ''q1'' (odConfirmations closed_sample) = Some c \<and> cfState c = Pending \<longrightarrow>
         lookup cfID ''q1'' (odConfirmations db') = Some (c\<lparr>cfConversationID := ''c2'', cfAskedTurn := None\<rparr>)"
    by (auto simp: closed_sample_def)
  have "length (odEvents db') = 1" using k(1) by (auto simp: CarryOverEvents_def Let_def closed_sample_def split: if_splits)
  then obtain x where x: "odEvents db' = [x]" by (auto simp: length_Suc_conv)
  with k(2) have "Events ''c2'' 0 10 db' = [?e\<lparr>oeConversation := ''c2''\<rparr>]" by (auto simp: Events_def split: if_splits)
  with k show ?thesis by (auto simp: closed_sample_def orch_sample_def sample_confirmation_def)
qed

end
