(* ===== verification/OrchCatalog.thy ===== *)
theory OrchCatalog
  imports OrchDb Json
begin

text \<open>
  Tool catalogs, after \<^verbatim>\<open>services/orchestrator/internal/engine/catalog.go\<close>: the names, descriptions and
  targets of the tools a conversation or a task may use.  A Go map is an association list with
  distinct keys.
\<close>

definition ToolRecall :: string where "ToolRecall = ''recall_memory''"
definition ToolRemember :: string where "ToolRemember = ''remember''"
definition ToolStart :: string where "ToolStart = ''start_task''"
definition ToolConfirm :: string where "ToolConfirm = ''confirm_action''"
definition ToolCancel :: string where "ToolCancel = ''cancel_action''"
definition ToolDevice :: string where "ToolDevice = ''run_on_computer''"
definition kindMCP :: string where "kindMCP = ''mcp''"

definition maxDescription :: nat where "maxDescription = 1024"
definition maxTaskMCPTools :: nat where "maxTaskMCPTools = 100"
definition maxSchemaBytes :: nat where "maxSchemaBytes = 16384"

subsection \<open>Names\<close>

text \<open>
  \<^verbatim>\<open>strings.ToLower\<close> of a rune, as far as it can be told apart afterwards: besides \<^verbatim>\<open>A-Z\<close> only U+0130
  and U+212A have an ASCII lower case.
\<close>

definition lower_rune :: "rune \<Rightarrow> rune" where
  "lower_rune r = (if 65 \<le> r \<and> r \<le> 90 then r + 32 else if r = 304 then 105 else if r = 8490 then 107 else r)"

definition safe_rune :: "rune \<Rightarrow> bool" where
  "safe_rune r \<longleftrightarrow> 97 \<le> r \<and> r \<le> 122 \<or> 65 \<le> r \<and> r \<le> 90 \<or> 48 \<le> r \<and> r \<le> 57 \<or> r = 95 \<or> r = 45"

text \<open>\<^verbatim>\<open>unsafeName.ReplaceAllString(s, "_")\<close>: a run of unsafe runes becomes one underscore.\<close>

fun replace_unsafe :: "bool \<Rightarrow> rune list \<Rightarrow> string" where
  "replace_unsafe run [] = []"
| "replace_unsafe run (r # rs) =
     (if safe_rune r then char_of r # replace_unsafe False rs
      else (if run then [] else ''_'') @ replace_unsafe True rs)"

definition trim_dashes :: "string \<Rightarrow> string" where
  "trim_dashes s = rev (dropWhile (\<lambda>c. c \<in> set ''_-'') (rev (dropWhile (\<lambda>c. c \<in> set ''_-'') s)))"

definition slug :: "string \<Rightarrow> nat \<Rightarrow> string" where
  "slug s0 mx =
     (let s = trim_dashes (replace_unsafe False (map (lower_rune \<circ> fst) (runes s0)));
          s' = (if length s > mx then trim_dashes (take mx s) else s)
      in if s' = [] then ''x'' else s')"

text \<open>
  The loop of \<^verbatim>\<open>uniqueName\<close> tries \<open>base\<close>, \<open>base_2\<close>, \<open>base_3\<close>, ...; one more candidate than there are
  names in use is enough, as they are all different.
\<close>

definition name_base :: "string \<Rightarrow> string \<Rightarrow> string" where
  "name_base integration tool = slug integration 20 @ ''__'' @ slug tool 40"

definition candidate :: "string \<Rightarrow> nat \<Rightarrow> string" where
  "candidate base i = (if i = 1 then base else base @ ''_'' @ FormatUint i)"

definition uniqueName :: "string \<Rightarrow> string \<Rightarrow> (string \<times> 'v) list \<Rightarrow> string" where
  "uniqueName integration tool used =
     (let base = name_base integration tool
      in case find (\<lambda>i. candidate base i \<notin> fst ` set used) [1..<length used + 2] of
           None \<Rightarrow> base
         | Some i \<Rightarrow> candidate base i)"

fun truncate_at :: "string \<Rightarrow> nat \<Rightarrow> nat" where
  "truncate_at s 0 = 0"
| "truncate_at s (Suc n) = (if cont (byte (s ! Suc n)) then truncate_at s n else Suc n)"

definition truncate_text :: "string \<Rightarrow> nat \<Rightarrow> string" where
  "truncate_text s n = (if length s \<le> n then s else take (truncate_at s n) s)"

subsection \<open>The catalog\<close>

record function_tool =
  ftName :: string
  ftDescription :: string
  ftParameters :: string

record catalog =
  catTools :: "function_tool list"
  catTargets :: toolset

definition put :: "'k \<Rightarrow> 'v \<Rightarrow> ('k \<times> 'v) list \<Rightarrow> ('k \<times> 'v) list" where
  "put k v m = (if k \<in> fst ` set m then map (\<lambda>(k', v'). if k' = k then (k, v) else (k', v')) m else m @ [(k, v)])"

definition catalog_add :: "string \<Rightarrow> string \<Rightarrow> string \<Rightarrow> target \<Rightarrow> catalog \<Rightarrow> catalog" where
  "catalog_add name description parameters tgt c =
     c\<lparr>catTools := catTools c @ [\<lparr>ftName = name, ftDescription = description, ftParameters = parameters\<rparr>],
       catTargets := put name (tgt\<lparr>taDescription := description, taParameters := parameters\<rparr>) (catTargets c)\<rparr>"

definition json_strings :: "string list \<Rightarrow> string" where
  "json_strings ss = ''['' @ commas (map json_quote ss) @ '']''"

definition schema :: "string \<Rightarrow> string list \<Rightarrow> string" where
  "schema properties required =
     ''{'' @ json_quote ''type'' @ '':'' @ json_quote ''object'' @ '','' @ json_quote ''properties'' @ '':{'' @ properties @
     ''},'' @ json_quote ''required'' @ '':'' @ json_strings required @ ''}''"

definition string_property :: "string \<Rightarrow> string \<Rightarrow> string" where
  "string_property name description =
     json_quote name @ '':{'' @ json_quote ''type'' @ '':'' @ json_quote ''string'' @
     (if description = [] then [] else '','' @ json_quote ''description'' @ '':'' @ json_quote description) @ ''}''"

definition zero_target :: target where
  "zero_target = \<lparr>taKind = [], taIntegrationID = [], taIntegration = [], taTool = [], taTitle = [], taReadOnly = False,
     taDescription = [], taParameters = []\<rparr>"

fun join :: "string \<Rightarrow> string list \<Rightarrow> string" where
  "join sep [] = []"
| "join sep [s] = s"
| "join sep (s # t # r) = s @ sep @ join sep (t # r)"

definition device_schema :: "string list \<Rightarrow> string" where
  "device_schema names = schema
     (json_quote ''device'' @ '':{'' @ json_quote ''type'' @ '':'' @ json_quote ''string'' @ '','' @ json_quote ''enum'' @ '':'' @
        json_strings names @ ''},'' @
      string_property ''program'' ''Absolute path of the executable, e.g. /usr/bin/git'' @ '','' @
      json_quote ''args'' @ '':{'' @ json_quote ''type'' @ '':'' @ json_quote ''array'' @ '','' @ json_quote ''items'' @ '':{'' @
        json_quote ''type'' @ '':'' @ json_quote ''string'' @ ''}},'' @
      string_property ''working_directory'' ''Absolute path; optional'')
     [''device'', ''program'']"

definition add_builtin :: "string \<Rightarrow> string \<Rightarrow> string \<Rightarrow> catalog \<Rightarrow> catalog" where
  "add_builtin name description parameters = catalog_add name description parameters (zero_target\<lparr>taKind := name\<rparr>)"

definition builtins :: "bool \<Rightarrow> device list \<Rightarrow> catalog \<Rightarrow> catalog" where
  "builtins voice devices c =
     (let c1 = add_builtin ToolRecall ''Search the user's long-term memory (people, projects, past conversations, notes).''
                 (schema (string_property ''query'' ''What to look up'') [''query'']) c;
          c2 = add_builtin ToolRemember ''Save a fact to the user's long-term memory.''
                 (schema (string_property ''note'' ''The fact, as a standalone sentence'') [''note'']) c1;
          c3 = (if voice then
                  add_builtin ToolCancel ''Drop an action the user declined.''
                    (schema (string_property ''confirmation_id'' []) [''confirmation_id''])
                  (add_builtin ToolConfirm ''Carry out an action the user has just explicitly agreed to.''
                    (schema (string_property ''confirmation_id'' []) [''confirmation_id''])
                  (add_builtin ToolStart ''Start a background task for work with several steps or apps; the result is reported later.''
                    (schema (string_property ''goal'' ''What to achieve, with all details the user gave'') [''goal'']) c2))
                else c2);
          names = map dvName devices
      in if devices \<noteq> [] then
           add_builtin ToolDevice
             (''Run a program on the user's computer ('' @ join '', '' names @ ''), sandboxed. Commands '' @
              ''outside the computer's allowlist wait for the user's approval on their phone.'')
             (device_schema names) c3
         else c3)"

record mcp_tool =
  mtIntegrationID :: string
  mtIntegrationName :: string
  mtName :: string
  mtTitle :: string
  mtDescription :: string
  mtInputSchemaJson :: string
  mtReadOnly :: bool

text \<open>
  \<^verbatim>\<open>parameters["type"] == "object"\<close> of the schema decoded into a map: the last member of that name counts.
  (A number too large for a float64 also makes the decoding fail; that case is left out.)
\<close>

definition object_schema :: "string \<Rightarrow> bool" where
  "object_schema text = (case json_parse text of
     Some (JObj ms) \<Rightarrow>
       (case rev (filter (\<lambda>(k, _, _). k = ''type'') ms) of
          (_, _, JStr t) # _ \<Rightarrow> t = ''object''
        | _ \<Rightarrow> False)
   | _ \<Rightarrow> False)"

definition tool_title :: "mcp_tool \<Rightarrow> string" where
  "tool_title t = (if mtTitle t = [] then mtName t else mtTitle t)"

definition mcp_target :: "mcp_tool \<Rightarrow> target" where
  "mcp_target t = zero_target\<lparr>taKind := kindMCP, taIntegrationID := mtIntegrationID t, taIntegration := mtIntegrationName t,
     taTool := mtName t, taTitle := tool_title t, taReadOnly := mtReadOnly t\<rparr>"

fun add_integrations :: "mcp_tool list \<Rightarrow> nat \<Rightarrow> catalog \<Rightarrow> catalog" where
  "add_integrations [] limit c = c"
| "add_integrations (t # ts) limit c =
     (if limit = 0 then c
      else if length (mtInputSchemaJson t) > maxSchemaBytes \<or> \<not> object_schema (mtInputSchemaJson t)
      then add_integrations ts limit c
      else add_integrations ts (limit - 1)
        (catalog_add (uniqueName (mtIntegrationName t) (mtName t) (catTargets c))
           (truncate_text (''['' @ mtIntegrationName t @ ''] '' @ tool_title t @ '': '' @ mtDescription t) maxDescription)
           (mtInputSchemaJson t) (mcp_target t) c))"

definition integrations :: "mcp_tool list \<Rightarrow> nat \<Rightarrow> catalog \<Rightarrow> catalog" where
  "integrations tools limit c = add_integrations (sort_key (\<lambda>t. \<not> mtReadOnly t) tools) limit c"

text \<open>
  \<^verbatim>\<open>buildCatalog\<close> after its two calls: \<open>tools\<close> is what the router listed, \<open>None\<close> when that failed.
\<close>

definition buildCatalog :: "bool \<Rightarrow> nat \<Rightarrow> device list \<Rightarrow> mcp_tool list option \<Rightarrow> catalog" where
  "buildCatalog voice maxVoiceTools devices tools =
     (let c = builtins voice devices \<lparr>catTools = [], catTargets = []\<rparr>;
          limit = (if voice then maxVoiceTools else maxTaskMCPTools)
      in case tools of None \<Rightarrow> c | Some ts \<Rightarrow> integrations ts limit c)"

subsection \<open>Names are fresh and short enough\<close>

lemma candidate_inj: "1 \<le> i \<Longrightarrow> 1 \<le> j \<Longrightarrow> candidate base i = candidate base j \<Longrightarrow> i = j"
  using parse_uint_FormatUint by (auto simp: candidate_def split: if_splits) (metis parse_uint_FormatUint)

text \<open>By counting: among one more candidates than names in use there is a free one.\<close>

lemma free_candidate: "\<exists>i. 1 \<le> i \<and> i < length used + 2 \<and> candidate base i \<notin> fst ` set used"
proof (rule ccontr)
  assume "\<not> ?thesis"
  then have "candidate base ` {1..<length used + 2} \<subseteq> fst ` set used" by auto
  then have "card (candidate base ` {1..<length used + 2}) \<le> card (fst ` set used)" by (intro card_mono) auto
  also have "\<dots> \<le> length used" by (metis card_length length_map list.set_map)
  also have "card (candidate base ` {1..<length used + 2}) = card {1..<length used + 2}"
    by (intro card_image inj_onI) (auto intro: candidate_inj)
  finally show False by (simp only: card_atLeastLessThan)
qed

lemma find_Some_in: "find P xs = Some x \<Longrightarrow> x \<in> set xs \<and> P x"
  by (auto simp: find_Some_iff)

lemma uniqueName_candidate:
  "\<exists>i. 1 \<le> i \<and> i < length used + 2 \<and> uniqueName integration tool used = candidate (name_base integration tool) i
     \<and> candidate (name_base integration tool) i \<notin> fst ` set used"
proof (cases "find (\<lambda>i. candidate (name_base integration tool) i \<notin> fst ` set used) [1..<length used + 2]")
  case None
  obtain i where "1 \<le> i" "i < length used + 2" "candidate (name_base integration tool) i \<notin> fst ` set used"
    using free_candidate [of used "name_base integration tool"] by blast
  moreover from this have "i \<in> set [1..<length used + 2]" by (simp only: set_upt atLeastLessThan_iff)
  ultimately show ?thesis using None unfolding find_None_iff by blast
next
  case (Some i)
  from find_Some_in [OF this] have f: "i \<in> set [1..<length used + 2]" "candidate (name_base integration tool) i \<notin> fst ` set used"
    by blast+
  from f(1) have "1 \<le> i \<and> i < length used + 2" by (simp only: set_upt atLeastLessThan_iff)
  moreover have "uniqueName integration tool used = candidate (name_base integration tool) i"
    unfolding uniqueName_def Let_def Some by simp
  ultimately show ?thesis using f(2) by blast
qed

lemma length_trim_dashes: "length (trim_dashes s) \<le> length s"
  unfolding trim_dashes_def by (metis length_dropWhile_le length_rev order.trans)

lemma length_slug: "1 \<le> mx \<Longrightarrow> length (slug s mx) \<le> mx"
proof -
  assume "1 \<le> mx"
  moreover have "length (trim_dashes (take mx t)) \<le> mx" for t
    using length_trim_dashes [of "take mx t"] by simp
  ultimately show ?thesis by (auto simp: slug_def Let_def)
qed

lemma length_name_base: "length (name_base integration tool) \<le> 62"
  using length_slug [of 20 integration] length_slug [of 40 tool] by (simp add: name_base_def)

lemma length_FormatUint: "n < 10 \<Longrightarrow> length (FormatUint n) = 1"
  by (simp add: FormatUint.simps)

subsection \<open>A catalog and its targets\<close>

text \<open>Every declared tool has a target under its name, and no name is declared twice.\<close>

definition cat_ok :: "catalog \<Rightarrow> bool" where
  "cat_ok c \<longleftrightarrow> map ftName (catTools c) = map fst (catTargets c) \<and> distinct (map fst (catTargets c))"

definition mcp_entries :: "catalog \<Rightarrow> (string \<times> target) list" where
  "mcp_entries c = filter (\<lambda>(n, t). taKind t = kindMCP) (catTargets c)"

text \<open>What a target of an integration tool says is what the router said about the tool.\<close>

definition describes :: "target \<Rightarrow> mcp_tool \<Rightarrow> bool" where
  "describes t m \<longleftrightarrow> taIntegrationID t = mtIntegrationID m \<and> taIntegration t = mtIntegrationName m \<and> taTool t = mtName m
     \<and> taReadOnly t = mtReadOnly m \<and> taParameters t = mtInputSchemaJson m"

lemma catTargets_add:
  "name \<notin> fst ` set (catTargets c) \<Longrightarrow> catTargets (catalog_add name d p t c) =
     catTargets c @ [(name, t\<lparr>taDescription := d, taParameters := p\<rparr>)]"
  by (simp add: catalog_add_def put_def)

lemma cat_ok_add: "cat_ok c \<Longrightarrow> name \<notin> fst ` set (catTargets c) \<Longrightarrow> cat_ok (catalog_add name d p t c)"
  using catTargets_add [of name c d p t] by (simp add: cat_ok_def catalog_add_def)

lemma add_integrations_ok:
  assumes "cat_ok c"
  shows "cat_ok (add_integrations ts limit c) \<and> length (mcp_entries (add_integrations ts limit c)) \<le> length (mcp_entries c) + limit \<and>
    (\<forall>e \<in> set (mcp_entries (add_integrations ts limit c)). e \<in> set (mcp_entries c) \<or> (\<exists>m \<in> set ts. describes (snd e) m))"
  using assms
proof (induction ts limit c rule: add_integrations.induct)
  case (1 limit c)
  then show ?case by simp
next
  case (2 t ts limit c)
  let ?name = "uniqueName (mtIntegrationName t) (mtName t) (catTargets c)"
  let ?d = "truncate_text (''['' @ mtIntegrationName t @ ''] '' @ tool_title t @ '': '' @ mtDescription t) maxDescription"
  define c' where "c' = catalog_add ?name ?d (mtInputSchemaJson t) (mcp_target t) c"
  define x where "x = (?name, (mcp_target t)\<lparr>taDescription := ?d, taParameters := mtInputSchemaJson t\<rparr>)"
  have fresh: "?name \<notin> fst ` set (catTargets c)"
    using uniqueName_candidate [of "catTargets c" "mtIntegrationName t" "mtName t"] by (metis (no_types))
  have ok: "cat_ok c'" unfolding c'_def by (rule cat_ok_add [OF 2(3) fresh])
  have m: "mcp_entries c' = mcp_entries c @ [x]"
    using catTargets_add [OF fresh] by (simp add: mcp_entries_def mcp_target_def c'_def x_def)
  have d: "describes (snd x) t" by (simp add: describes_def mcp_target_def zero_target_def x_def)
  consider "limit = 0" | "limit > 0" "length (mtInputSchemaJson t) > maxSchemaBytes \<or> \<not> object_schema (mtInputSchemaJson t)"
    | "limit > 0" "\<not> (length (mtInputSchemaJson t) > maxSchemaBytes \<or> \<not> object_schema (mtInputSchemaJson t))" by auto
  then show ?case
  proof cases
    case 1
    with 2(3) show ?thesis by simp
  next
    case 2
    with "2.IH"(1) "2.prems" show ?thesis by auto
  next
    case 3
    have eq: "add_integrations (t # ts) limit c = add_integrations ts (limit - 1) c'" using 3 by (simp add: c'_def)
    have "cat_ok (add_integrations ts (limit - 1) c') \<and>
        length (mcp_entries (add_integrations ts (limit - 1) c')) \<le> length (mcp_entries c') + (limit - 1) \<and>
        (\<forall>e \<in> set (mcp_entries (add_integrations ts (limit - 1) c')). e \<in> set (mcp_entries c') \<or> (\<exists>m \<in> set ts. describes (snd e) m))"
      using "2.IH"(2) 3 ok unfolding c'_def by blast
    then show ?thesis unfolding eq m using d 3(1) by auto
  qed
qed

definition builtin_catalog :: "string list \<Rightarrow> catalog \<Rightarrow> bool" where
  "builtin_catalog ns c \<longleftrightarrow> cat_ok c \<and> fst ` set (catTargets c) = set ns \<and> mcp_entries c = []"

lemma builtin_catalog_add:
  "builtin_catalog ns c \<Longrightarrow> n \<notin> set ns \<Longrightarrow> n \<noteq> kindMCP \<Longrightarrow> builtin_catalog (n # ns) (add_builtin n d p c)"
  using cat_ok_add [of c n d p "zero_target\<lparr>taKind := n\<rparr>"] catTargets_add [of n c d p "zero_target\<lparr>taKind := n\<rparr>"]
  by (auto simp: builtin_catalog_def add_builtin_def mcp_entries_def)

lemmas tool_names = ToolRecall_def ToolRemember_def ToolStart_def ToolConfirm_def ToolCancel_def ToolDevice_def kindMCP_def

lemma builtins_ok: "\<exists>ns. builtin_catalog ns (builtins voice devices \<lparr>catTools = [], catTargets = []\<rparr>)"
proof -
  have e: "builtin_catalog [] \<lparr>catTools = [], catTargets = []\<rparr>" by (simp add: builtin_catalog_def cat_ok_def mcp_entries_def)
  have two: "builtin_catalog [ToolRemember, ToolRecall] (add_builtin ToolRemember d2 p2 (add_builtin ToolRecall d1 p1 \<lparr>catTools = [], catTargets = []\<rparr>))"
    for d1 p1 d2 p2 by (intro builtin_catalog_add e) (simp_all add: tool_names)
  have five: "builtin_catalog [ToolCancel, ToolConfirm, ToolStart, ToolRemember, ToolRecall]
      (add_builtin ToolCancel d5 p5 (add_builtin ToolConfirm d4 p4 (add_builtin ToolStart d3 p3 c)))"
    if "builtin_catalog [ToolRemember, ToolRecall] c" for c d3 p3 d4 p4 d5 p5
    by (intro builtin_catalog_add that) (simp_all add: tool_names)
  have dev: "builtin_catalog (ToolDevice # ns) (add_builtin ToolDevice d p c)"
    if "builtin_catalog ns c" "ns = [ToolRemember, ToolRecall] \<or> ns = [ToolCancel, ToolConfirm, ToolStart, ToolRemember, ToolRecall]" for ns c d p
    using that by (intro builtin_catalog_add) (auto simp: tool_names)
  show ?thesis
    unfolding builtins_def Let_def
    by (cases voice; cases "devices = []"; simp only: if_True if_False simp_thms)
      (blast intro: two five dev [OF five [OF two]] dev [OF two])+
qed

text \<open>
  C31.  A catalog offers each name once, with exactly one target behind it; the built-in tools cannot be
  shadowed; at most the limit of integration tools is added; and the target of an integration tool is the
  router's tool: in particular it counts as read-only only if the router said so.
\<close>

theorem buildCatalog_ok:
  "let c = buildCatalog voice mx devices tools; ts = (case tools of None \<Rightarrow> [] | Some ts \<Rightarrow> ts) in
     map ftName (catTools c) = map fst (catTargets c) \<and> distinct (map fst (catTargets c))
     \<and> length (mcp_entries c) \<le> (if voice then mx else maxTaskMCPTools)
     \<and> (\<forall>e \<in> set (mcp_entries c). \<exists>m \<in> set ts. describes (snd e) m)"
proof (cases tools)
  case None
  then show ?thesis using builtins_ok [of voice devices]
    by (auto simp: buildCatalog_def builtin_catalog_def cat_ok_def Let_def)
next
  case (Some ts)
  define c where "c = builtins voice devices \<lparr>catTools = [], catTargets = []\<rparr>"
  have "cat_ok c" "mcp_entries c = []" using builtins_ok [of voice devices] by (auto simp: c_def builtin_catalog_def)
  with add_integrations_ok [of c "sort_key (\<lambda>t. \<not> mtReadOnly t) ts" "if voice then mx else maxTaskMCPTools"] Some
  show ?thesis by (simp add: buildCatalog_def integrations_def cat_ok_def Let_def c_def [symmetric])
qed

definition sample_tool :: mcp_tool where
  "sample_tool = \<lparr>mtIntegrationID = ''i1'', mtIntegrationName = ''Mail'', mtName = ''send'', mtTitle = [], mtDescription = ''Send a mail'',
     mtInputSchemaJson = ''{'' @ [CHR 0x22] @ ''type'' @ [CHR 0x22] @ '':'' @ [CHR 0x22] @ ''object'' @ [CHR 0x22] @ ''}'',
     mtReadOnly = False\<rparr>"

theorem buildCatalog_ok_witness:
  "let c = buildCatalog True 10 [] (Some [sample_tool, sample_tool]) in
     distinct (map fst (catTargets c)) \<and> length (mcp_entries c) \<le> 10"
  using buildCatalog_ok [of True 10 "[]" "Some [sample_tool, sample_tool]"] by (simp add: Let_def)

text \<open>
  C32.  The name made for an integration's tool is never one in use, and it is within the 64 characters
  that models accept as long as at most eight names are in use.
\<close>

theorem uniqueName_fresh:
  "uniqueName integration tool used \<notin> fst ` set used \<and>
   (length used \<le> 8 \<longrightarrow> length (uniqueName integration tool used) \<le> 64)"
proof -
  obtain i where i: "1 \<le> i" "i < length used + 2" "uniqueName integration tool used = candidate (name_base integration tool) i"
    "candidate (name_base integration tool) i \<notin> fst ` set used"
    using uniqueName_candidate by blast
  have "length (candidate (name_base integration tool) i) \<le> 64" if "length used \<le> 8"
    using that i(2) length_name_base [of integration tool] by (simp add: candidate_def length_FormatUint)
  with i(3,4) show ?thesis by simp
qed

theorem uniqueName_fresh_witness:
  "length [(''mail__send'', 0 :: nat)] \<le> 8 \<and> length (uniqueName ''Mail'' ''send'' [(''mail__send'', 0 :: nat)]) \<le> 64"
  using uniqueName_fresh [of "''Mail''" "''send''" "[(''mail__send'', 0 :: nat)]"] by simp

lemma replace_unsafe_replicate: "safe_rune r \<Longrightarrow> replace_unsafe False (replicate n r) = replicate n (char_of r)"
  by (induction n) auto

lemma slug_replicate:
  assumes "byte c < 128" "safe_rune (lower_rune (byte c))" "char_of (lower_rune (byte c)) = c" "c \<notin> set ''_-''" "0 < n" "n \<le> mx"
  shows "slug (replicate n c) mx = replicate n c"
proof -
  have r: "runes (replicate n c) = replicate n (byte c, [c])" using assms(1) by (subst runes_ascii) auto
  have d: "dropWhile (\<lambda>c. c \<in> set ''_-'') (replicate n c) = replicate n c"
    using assms(4,5) by (cases n) auto
  have "trim_dashes (replicate n c) = replicate n c" unfolding trim_dashes_def d by (simp only: rev_replicate d)
  with assms r show ?thesis by (simp add: slug_def Let_def replace_unsafe_replicate)
qed

text \<open>
  C34.  Beyond that the promise of 64 characters does not hold: with nine names of one base in use, the
  tenth has a two-digit suffix, and 20 + 2 + 40 characters with \<^verbatim>\<open>_10\<close> are 65.
\<close>

theorem uniqueName_too_long:
  "\<exists>used :: (string \<times> nat) list. length used = 9 \<and>
     length (uniqueName (replicate 20 (CHR ''a'')) (replicate 40 (CHR ''b'')) used) = 65"
proof -
  let ?a = "replicate 20 (CHR ''a'')" and ?b = "replicate 40 (CHR ''b'')"
  let ?used = "map (\<lambda>i. (candidate (name_base ?a ?b) i, 0 :: nat)) [1..<10]"
  have "char_of (97 :: nat) = CHR ''a''" "char_of (98 :: nat) = CHR ''b''" by code_simp+
  then have "slug ?a 20 = ?a" "slug ?b 40 = ?b"
    by - (rule slug_replicate; simp add: byte_def safe_rune_def lower_rune_def)+
  then have base: "length (name_base ?a ?b) = 62" by (simp add: name_base_def)
  obtain i where i: "1 \<le> i" "i < length ?used + 2" "uniqueName ?a ?b ?used = candidate (name_base ?a ?b) i"
    "candidate (name_base ?a ?b) i \<notin> fst ` set ?used"
    using uniqueName_candidate by blast
  have "i = 10"
  proof (rule ccontr)
    assume "i \<noteq> 10"
    with i(1,2) have "i \<in> set [1..<10]" by simp
    with i(4) show False by (auto simp: image_iff)
  qed
  moreover have "length (FormatUint 10) = 2" by code_simp
  ultimately have "length (uniqueName ?a ?b ?used) = 65" using i(3) base by (simp add: candidate_def)
  moreover have "length ?used = 9" by simp
  ultimately show ?thesis by blast
qed

subsection \<open>Cutting a text\<close>

lemma truncate_at_le: "truncate_at s n \<le> n"
  by (induction n) auto

lemma truncate_at_start: "truncate_at s n = 0 \<or> \<not> cont (byte (s ! truncate_at s n))"
  by (induction n) auto

lemma truncate_at_skipped: "truncate_at s n < i \<Longrightarrow> i \<le> n \<Longrightarrow> cont (byte (s ! i))"
  by (induction n) (auto simp: le_Suc_eq split: if_splits)

text \<open>The cut is at the start of a rune.\<close>

lemma truncate_at_boundary:
  assumes "s = concat (map EncodeRune rs)" "n < length s"
  obtains k where "k < length rs" "truncate_at s n = length (concat (map EncodeRune (take k rs)))"
proof (cases "truncate_at s n = 0")
  case True
  moreover have "rs \<noteq> []" using assms by auto
  ultimately show ?thesis using that [of 0] by simp
next
  case False
  with truncate_at_start [of s n] have "\<not> cont (byte (s ! truncate_at s n))" by simp
  moreover have "truncate_at s n < length s" using truncate_at_le [of s n] assms(2) by simp
  ultimately show ?thesis using encoded_boundary [of "truncate_at s n" rs] assms(1) that by auto
qed

text \<open>
  C33.  Cutting a UTF-8 text never splits a character: what is left is the text of its first \<open>k\<close> characters,
  at most \<open>n\<close> bytes, and at most three bytes shorter than that when something was cut.
\<close>

theorem truncate_whole_runes:
  assumes "s = concat (map EncodeRune rs)"
  shows "\<exists>k. truncate_text s n = concat (map EncodeRune (take k rs)) \<and>
    (length s \<le> n \<longrightarrow> truncate_text s n = s) \<and>
    (n < length s \<longrightarrow> length (truncate_text s n) \<le> n \<and> n < length (truncate_text s n) + 4)"
proof (cases "length s \<le> n")
  case True
  then show ?thesis using assms by (intro exI [of _ "length rs"]) (simp add: truncate_text_def)
next
  case False
  let ?m = "truncate_at s n"
  have m: "?m \<le> n" "?m < length s" using truncate_at_le [of s n] False by simp_all
  obtain k where k: "k < length rs" "?m = length (concat (map EncodeRune (take k rs)))"
    using truncate_at_boundary [OF assms, of n] False by auto
  have e: "s = concat (map EncodeRune (take k rs)) @ concat (map EncodeRune (drop k rs))"
    unfolding assms concat_append [symmetric] map_append [symmetric] append_take_drop_id ..
  have t: "truncate_text s n = concat (map EncodeRune (take k rs))"
  proof -
    have "take (length (concat (map EncodeRune (take k rs)))) s = concat (map EncodeRune (take k rs))"
      by (subst e) (simp only: take_append take_all order_refl diff_self_eq_0 take_0 append_Nil2)
    with False show ?thesis by (simp only: truncate_text_def if_False k(2))
  qed
  let ?next = "?m + length (EncodeRune (rs ! k))"
  have next1: "?next = length (concat (map EncodeRune (take (Suc k) rs)))"
    using k by (simp add: take_Suc_conv_app_nth)
  have "n < ?next"
  proof (rule ccontr)
    assume "\<not> n < ?next"
    then have "cont (byte (s ! ?next))"
      using EncodeRune_nonempty [of "rs ! k"] truncate_at_skipped [of s n ?next] by simp
    moreover have "Suc k < length rs"
    proof (rule ccontr)
      assume "\<not> Suc k < length rs"
      with k(1) next1 assms have "?next = length s" by simp
      with \<open>\<not> n < ?next\<close> False show False by simp
    qed
    ultimately show False using encoded_start(1) [of "Suc k" rs] next1 assms by simp
  qed
  moreover have "length (truncate_text s n) = ?m" unfolding t k(2) ..
  ultimately show ?thesis using t m False length_EncodeRune [of "rs ! k"] by (intro exI [of _ k]) linarith
qed

theorem truncate_whole_runes_witness:
  "\<exists>k. truncate_text (concat (map EncodeRune [233, 233])) 3 = concat (map EncodeRune (take k [233, 233])) \<and>
    length (truncate_text (concat (map EncodeRune [233, 233])) 3) \<le> 3"
proof -
  have "3 < length (concat (map EncodeRune [233, 233]))" by (simp add: EncodeRune_def valid_rune_def)
  with truncate_whole_runes [OF refl, of "[233, 233]" 3] show ?thesis by blast
qed

end
