(* ===== verification/EngineEvents.thy ===== *)
theory EngineEvents
  imports EngineWorld
begin

text \<open>
  Events and notifications, after \<^verbatim>\<open>services/orchestrator/internal/engine/engine.go\<close>: the broker that wakes
  waiting streams, \<^verbatim>\<open>emit\<close> and \<^verbatim>\<open>notify\<close>, and the two loops that wait, \<^verbatim>\<open>Watch\<close> and \<^verbatim>\<open>ClaimNotifications\<close>.  A
  waiting loop may run for as long as its caller stays: \<open>n\<close> bounds the number of its rounds, \<open>None\<close> is
  a loop that has not ended after them.
\<close>

subsection \<open>The broker\<close>

definition broker_subscribe :: "uuid \<Rightarrow> nat \<Rightarrow> broker \<Rightarrow> broker" where
  "broker_subscribe i ch b = b @ [(i, ch, False)]"

definition broker_unsubscribe :: "uuid \<Rightarrow> nat \<Rightarrow> broker \<Rightarrow> broker" where
  "broker_unsubscribe i ch b = filter (\<lambda>(j, c, _). \<not> (j = i \<and> c = ch)) b"

text \<open>A send to a channel whose buffer is full is dropped: the signal is there already.\<close>

definition broker_notify :: "uuid \<Rightarrow> broker \<Rightarrow> broker" where
  "broker_notify i b = map (\<lambda>(j, c, full). (j, c, full \<or> j = i)) b"

definition broker_receive :: "uuid \<Rightarrow> nat \<Rightarrow> broker \<Rightarrow> broker" where
  "broker_receive i ch b = map (\<lambda>(j, c, full). (j, c, full \<and> \<not> (j = i \<and> c = ch))) b"

definition subscribe :: "uuid \<Rightarrow> nat eng" where
  "subscribe i = State (\<lambda>w. (wTick w, w\<lparr>wBroker := broker_subscribe i (wTick w) (wBroker w), wTick := Suc (wTick w)\<rparr>))"

definition unsubscribe :: "uuid \<Rightarrow> nat \<Rightarrow> unit eng" where
  "unsubscribe i ch = State (\<lambda>w. ((), w\<lparr>wBroker := broker_unsubscribe i ch (wBroker w)\<rparr>))"

definition wake_topic :: "uuid \<Rightarrow> unit eng" where
  "wake_topic i = State (\<lambda>w. ((), w\<lparr>wBroker := broker_notify i (wBroker w)\<rparr>))"

definition receive :: "uuid \<Rightarrow> nat \<Rightarrow> unit eng" where
  "receive i ch = State (\<lambda>w. ((), w\<lparr>wBroker := broker_receive i ch (wBroker w)\<rparr>))"

definition signal :: "unit eng" where
  "signal = State (\<lambda>w. ((), w\<lparr>wWake := True\<rparr>))"

subsection \<open>Telling the user\<close>

definition emit :: "env \<Rightarrow> uuid option \<Rightarrow> event_kind \<Rightarrow> string \<Rightarrow> uuid option \<Rightarrow> bool eng" where
  "emit env conversation ev message conf = (case conversation of
     None \<Rightarrow> ret False
   | Some c \<Rightarrow> do {
       now \<leftarrow> time_now env;
       (case eMarshalEvent env \<lparr>ceEvent = ev, ceMessage = message, ceCreateTime = now, ceEventId = 0\<rparr> of
          None \<Rightarrow> ret False
        | Some payload \<Rightarrow> do {
            r \<leftarrow> sql env (\<lambda>now db. AddEvent now c payload conf db);
            (case r of
               Inl _ \<Rightarrow> ret False
             | Inr (tgt, live) \<Rightarrow> do {
                 wake_topic tgt;
                 ret live
               })
          })
     })"

definition notificationsTopic :: uuid where "notificationsTopic = uuid_Nil"

text \<open>The store reads the owner, the kind and the task of the notification given; it numbers it itself.\<close>

definition notify :: "env \<Rightarrow> task \<Rightarrow> notification_kind \<Rightarrow> unit eng" where
  "notify env t kind = do {
     r \<leftarrow> sql_do env (\<lambda>now db. AddNotification now \<lparr>noID = 0, noTenantID = tkTenantID t, noUserID = tkUserID t, noKind = kind,
            noTaskID = tkID t, noTaskState = tkState t, noClaimedBy = None, noClaimedUntil = None, noAttempts = 0,
            noDoneAt = None, noCreatedAt = 0\<rparr> db);
     (case r of
        Inl _ \<Rightarrow> ret ()
      | Inr _ \<Rightarrow> wake_topic notificationsTopic)
   }"

subsection \<open>Claiming notifications\<close>

definition notificationLease :: int where "notificationLease = 60000000"
definition notificationAttempts :: nat where "notificationAttempts = 5"
definition notificationMaxAge :: int where "notificationMaxAge = 3600000000"

fun claim_loop :: "nat \<Rightarrow> env \<Rightarrow> string \<Rightarrow> nat \<Rightarrow> int \<Rightarrow> nat \<Rightarrow> (store_error, notification list) result option eng" where
  "claim_loop 0 env consumer mx deadline ch = ret None"
| "claim_loop (Suc n) env consumer mx deadline ch = do {
     r \<leftarrow> sql_ok env (\<lambda>now db. ClaimNotifications now consumer mx notificationLease notificationAttempts notificationMaxAge db);
     (case r of
        Inl e \<Rightarrow> ret (Some (Inl e))
      | Inr claimed \<Rightarrow>
          if claimed \<noteq> [] then ret (Some (Inr claimed))
          else do {
            now \<leftarrow> time_now env;
            if deadline - now \<le> 0 then ret (Some (Inr []))
            else do {
              stop \<leftarrow> ctx_done env;
              if stop then ret (Some (Inr []))
              else do {
                receive notificationsTopic ch;
                claim_loop n env consumer mx deadline ch
              }
            }
          })
   }"

definition Engine_ClaimNotifications :: "nat \<Rightarrow> env \<Rightarrow> string \<Rightarrow> nat \<Rightarrow> int
    \<Rightarrow> (store_error, notification list) result option eng" where
  "Engine_ClaimNotifications n env consumer mx wait = do {
     ch \<leftarrow> subscribe notificationsTopic;
     now \<leftarrow> time_now env;
     r \<leftarrow> claim_loop n env consumer mx (now + wait) ch;
     unsubscribe notificationsTopic ch;
     ret r
   }"

subsection \<open>Watching a conversation\<close>

text \<open>
  \<open>send\<close> is the caller's function: whether the stream took the event.  The loop returns the events sent
  with the error that ended it, if any.
\<close>

type_synonym sender = "nat \<Rightarrow> conversation_event \<Rightarrow> bool"

datatype watch_error = WatchStore store_error | WatchDecode | WatchSend

type_synonym watch_result = "watch_error option \<times> conversation_event list"

fun send_events :: "env \<Rightarrow> sender \<Rightarrow> event_row list \<Rightarrow> int \<Rightarrow> conversation_event list
    \<Rightarrow> (watch_result + int \<times> conversation_event list) eng" where
  "send_events env send [] cursor sent = ret (Inr (cursor, sent))"
| "send_events env send (ev # evs) cursor sent = (case eUnmarshalEvent env (oePayload ev) of
     None \<Rightarrow> ret (Inl (Some WatchDecode, sent))
   | Some event0 \<Rightarrow>
       let event = event0\<lparr>ceEventId := oeID ev\<rparr>
       in do {
         k \<leftarrow> tick;
         if send k event then send_events env send evs (oeID ev) (sent @ [event])
         else ret (Inl (Some WatchSend, sent))
       })"

fun watch_loop :: "nat \<Rightarrow> env \<Rightarrow> sender \<Rightarrow> uuid \<Rightarrow> nat \<Rightarrow> int \<Rightarrow> conversation_event list \<Rightarrow> watch_result option eng" where
  "watch_loop 0 env send conversation ch cursor sent = ret None"
| "watch_loop (Suc n) env send conversation ch cursor sent = do {
     r \<leftarrow> sql_query env (\<lambda>now db. Inr (Events conversation cursor 100 db));
     (case r of
        Inl e \<Rightarrow> ret (Some (Some (WatchStore e), sent))
      | Inr events \<Rightarrow> do {
          s \<leftarrow> send_events env send events cursor sent;
          (case s of
             Inl res \<Rightarrow> ret (Some res)
           | Inr (cursor', sent') \<Rightarrow>
               if length events = 100 then watch_loop n env send conversation ch cursor' sent'
               else do {
                 q \<leftarrow> sql_query env (\<lambda>now db. Conversation conversation db);
                 (case q of
                    Inl e \<Rightarrow> ret (Some (Some (WatchStore e), sent'))
                  | Inr conv \<Rightarrow>
                      if coClosedAt conv \<noteq> None then ret (Some (None, sent'))
                      else do {
                        stop \<leftarrow> ctx_done env;
                        if stop then ret (Some (None, sent'))
                        else do {
                          receive conversation ch;
                          watch_loop n env send conversation ch cursor' sent'
                        }
                      })
               })
        })
   }"

definition Watch :: "nat \<Rightarrow> env \<Rightarrow> sender \<Rightarrow> uuid \<Rightarrow> int \<Rightarrow> watch_result option eng" where
  "Watch n env send conversation after = do {
     r \<leftarrow> (if after = 0 then sql_query env (\<lambda>now db. Inr (LastAcked conversation db)) else ret (Inr after));
     (case r of
        Inl e \<Rightarrow> ret (Some (Some (WatchStore e), []))
      | Inr cursor \<Rightarrow> do {
          ch \<leftarrow> subscribe conversation;
          res \<leftarrow> watch_loop n env send conversation ch cursor [];
          unsubscribe conversation ch;
          ret res
        })
   }"

end
