(* ===== verification/EngineTools.thy ===== *)
theory EngineTools
  imports EngineEvents
begin

text \<open>
  Running one tool, after \<^verbatim>\<open>services/orchestrator/internal/engine/execute.go\<close> and \<^verbatim>\<open>audit.go\<close>.  A tool that
  cannot complete now answers with a \<open>pause\<close>: an action that needs the user's confirmation or a command
  that needs a signed approval.
\<close>

subsection \<open>Callers, actions and pauses\<close>

definition maxResultText :: nat where "maxResultText = 12288"
definition maxStructured :: nat where "maxStructured = 8192"
definition maxCommandOutput :: nat where "maxCommandOutput = 8192"
definition recallBudget :: int where "recallBudget = 600"
definition taskCommandTimeout :: int where "taskCommandTimeout = 300000000"

record caller =
  caTenant :: string
  caUser :: string
  caConversation :: "uuid option"
  caProvider :: int
  caLocale :: string
  caTask :: "uuid option"
  caCallID :: string
  caTurn :: int

record action =
  acKind :: string
  acIntegrationID :: string
  acIntegration :: string
  acTool :: string
  acTitle :: string
  acArguments :: string

record pending_device =
  pdDevice :: device
  pdCommand :: command
  pdRequired :: approval_required

datatype pause = NeedsConfirmation string action | NeedsApproval string pending_device

text \<open>
  \<^verbatim>\<open>mustJSON\<close> of an action: empty members are left out; a member that is not JSON makes \<^verbatim>\<open>json.Marshal\<close> fail,
  whose error is dropped with the value.
\<close>

definition omitempty :: "string \<Rightarrow> string \<Rightarrow> (string \<times> jval) list" where
  "omitempty name s = (if s = [] then [] else [(name, VStr s)])"

definition encode_action :: "action \<Rightarrow> string" where
  "encode_action a =
     (if acArguments a \<noteq> [] \<and> \<not> json_valid (acArguments a) then []
      else print_struct ([(''kind'', VStr (acKind a))] @ omitempty ''integration_id'' (acIntegrationID a) @
        omitempty ''integration'' (acIntegration a) @ omitempty ''tool'' (acTool a) @ omitempty ''title'' (acTitle a) @
        (if acArguments a = [] then [] else [(''arguments'', VRaw (acArguments a))])))"

definition zero_action :: action where
  "zero_action = \<lparr>acKind = [], acIntegrationID = [], acIntegration = [], acTool = [], acTitle = [], acArguments = []\<rparr>"

text \<open>\<^verbatim>\<open>json.Unmarshal\<close> into an action: whether it failed, and what it filled in.\<close>

definition decode_action :: "string \<Rightarrow> bool \<times> action" where
  "decode_action text = (case json_parse text of
     None \<Rightarrow> (True, zero_action)
   | Some j \<Rightarrow>
       let k = decode_field ''kind'' dec_string [] j; i = decode_field ''integration_id'' dec_string [] j;
           n = decode_field ''integration'' dec_string [] j; t = decode_field ''tool'' dec_string [] j;
           h = decode_field ''title'' dec_string [] j; a = decode_field ''arguments'' dec_raw [] j
       in (fst k \<or> fst i \<or> fst n \<or> fst t \<or> fst h \<or> fst a,
           \<lparr>acKind = snd k, acIntegrationID = snd i, acIntegration = snd n, acTool = snd t, acTitle = snd h, acArguments = snd a\<rparr>))"

text \<open>The ellipsis is U+2026 in UTF-8.\<close>

definition ellipsis :: string where "ellipsis = [CHR 0xE2, CHR 0x80, CHR 0xA6]"

definition action_summary :: "action \<Rightarrow> string" where
  "action_summary a =
     (let args = (if length (acArguments a) > 300 then truncate_text (acArguments a) 300 @ ellipsis else acArguments a)
      in acIntegration a @ '': '' @ acTitle a @ '' '' @ args)"

subsection \<open>The audit trail\<close>

definition audit :: "env \<Rightarrow> string \<Rightarrow> string \<Rightarrow> actor \<Rightarrow> string \<Rightarrow> string \<Rightarrow> string \<Rightarrow> outcome \<Rightarrow> string
    \<Rightarrow> (string \<times> string) list \<Rightarrow> unit eng" where
  "audit env tenant user who act targetType targetID out reason details =
     call (AuditRecord \<lparr>auTenantID = tenant, auActor = who, auOnBehalfOf = user, auAction = act, auTargetType = targetType,
       auTargetID = targetID, auOutcome = out, auReason = reason, auRequestID = eRequestID env, auDetails = details\<rparr>) (\<lambda>_. ())"

definition actionDetails :: "action \<Rightarrow> (string \<times> string) list" where
  "actionDetails a = [(''kind'', acKind a)] @ (if acTool a = [] then [] else [(''tool'', acTool a)]) @
     (if acIntegration a = [] then [] else [(''integration'', acIntegration a)])"

definition taskOutcome :: "task_state \<Rightarrow> outcome option" where
  "taskOutcome state = (case state of TaskSucceeded \<Rightarrow> Some Success | TaskFailed \<Rightarrow> Some Failure | _ \<Rightarrow> None)"

definition auditCommand :: "env \<Rightarrow> string \<Rightarrow> string \<Rightarrow> string \<Rightarrow> string \<Rightarrow> bool \<Rightarrow> bool \<Rightarrow> unit eng" where
  "auditCommand env tenant user dev program failed approved =
     audit env tenant user (DeviceActor dev) ''command.ran'' ''device'' dev (if failed then Failure else Success) []
       [(''program'', truncate_text program 256), (''approved'', if approved then ''true'' else ''false'')]"

subsection \<open>Memory\<close>

definition recall :: "env \<Rightarrow> caller \<Rightarrow> string \<Rightarrow> (string \<times> bool) eng" where
  "recall env c query = do {
     let req = \<lparr>rqTenantId = caTenant c, rqUserId = caUser c, rqQuery = truncate_text query 2000, rqTokenBudget = recallBudget\<rparr>;
     r \<leftarrow> call (Retrieve req) (\<lambda>k. eRetrieve env k req);
     ret (case r of
       Inl _ \<Rightarrow> failure ''memory is unavailable right now''
     | Inr found \<Rightarrow>
         if found = [] then (output_json [(''context'', VStr []), (''note'', VStr ''Nothing relevant is remembered.'')], False)
         else (output_json [(''context'', VStr found)], False))
   }"

definition remember :: "env \<Rightarrow> caller \<Rightarrow> string \<Rightarrow> (string \<times> bool) eng" where
  "remember env c note = do {
     i \<leftarrow> new_uuid env;
     let req = \<lparr>uqTenantId = caTenant c, uqUserId = caUser c, uqSourceId = ''note:'' @ i, uqSourceKind = ''note'',
       uqSourceTitle = ''Asked to remember'', uqOccurredTime = None, uqEntities = [], uqRelations = [],
       uqPassages = [truncate_text (TrimSpace note) 8000]\<rparr>;
     r \<leftarrow> call (UpsertKnowledge req) (\<lambda>k. eUpsert env k req);
     ret (case r of
       Inl _ \<Rightarrow> failure ''memory is unavailable right now''
     | Inr _ \<Rightarrow> (output_json [(''status'', VStr ''remembered'')], False))
   }"

subsection \<open>Integrations\<close>

definition last_reason :: "rpc_error \<Rightarrow> string" where
  "last_reason err = (if reReasons err = [] then [] else last (reReasons err))"

definition mcpError :: "string \<Rightarrow> rpc_error \<Rightarrow> string" where
  "mcpError integration err =
     (let reason = last_reason err in
      if reason = ''ERROR_REASON_NEEDS_REAUTHORIZATION''
      then ''The '' @ integration @ '' connection must be reauthorized in the Jarvis dashboard.''
      else if reason = ''ERROR_REASON_NOT_CONNECTED''
      then integration @ '' is not connected yet; the user must finish connecting it in the dashboard.''
      else if reason = ''ERROR_REASON_RATE_LIMITED'' then ''Too many calls right now; try again in a minute.''
      else if reCode err = DeadlineExceeded then integration @ '' did not answer in time.''
      else if reCode err = Aborted then integration @ '' refused the call: '' @ truncate_text (reMessage err) 300
      else integration @ '' is unavailable right now.'')"

definition block_text :: "content_block \<Rightarrow> string list" where
  "block_text b = (case b of TextBlock t \<Rightarrow> [t] | LinkBlock uri \<Rightarrow> [uri] | ResourceBlock t \<Rightarrow> [t] | OtherBlock \<Rightarrow> [])"

definition mcp_result :: "mcp_response \<Rightarrow> (string \<times> jval) list" where
  "mcp_result resp =
     (let text = join [CHR 0x0A] (concat (map block_text (mrContent resp))); s = mrStructuredContentJson resp
      in [(''result'', VStr (truncate_text text maxResultText))]
         @ (if s \<noteq> [] \<and> length s \<le> maxStructured \<and> json_valid s then [(''structured'', VRaw s)] else [])
         @ (if mrTruncated resp \<or> length text > maxResultText then [(''truncated'', VBool True)] else [])
         @ (if mrIsError resp then [(''tool_error'', VBool True)] else []))"

definition mcp_arguments :: "string \<Rightarrow> string" where
  "mcp_arguments args = (if TrimSpace args = [] then ''{}'' else args)"

definition mcp_request_of :: "env \<Rightarrow> caller \<Rightarrow> string \<Rightarrow> string \<Rightarrow> string \<Rightarrow> mcp_request" where
  "mcp_request_of env c integrationID tool args = \<lparr>mqTenantId = caTenant c, mqUserId = caUser c, mqIntegrationId = integrationID,
     mqToolName = tool, mqArgumentsJson = mcp_arguments args, mqTimeout = opToolTimeout (eOpts env)\<rparr>"

definition callMCP :: "env \<Rightarrow> caller \<Rightarrow> string \<Rightarrow> string \<Rightarrow> string \<Rightarrow> string \<Rightarrow> (string \<times> bool) eng" where
  "callMCP env c integrationID integration tool args = do {
     let req = mcp_request_of env c integrationID tool args;
     r \<leftarrow> call (McpCallTool req) (\<lambda>k. eCallTool env k req);
     ret (case r of
       Inl err \<Rightarrow> failure (mcpError integration err)
     | Inr resp \<Rightarrow> (output_json (mcp_result resp), mrIsError resp))
   }"

definition runAction :: "env \<Rightarrow> caller \<Rightarrow> action \<Rightarrow> (string \<times> bool) eng" where
  "runAction env c a =
     (if acKind a \<noteq> kindMCP then ret (failure ''unknown action'')
      else callMCP env c (acIntegrationID a) (acIntegration a) (acTool a) (acArguments a))"

subsection \<open>Commands on the user's computer\<close>

definition deviceError :: "string \<Rightarrow> rpc_error \<Rightarrow> string" where
  "deviceError name err =
     (if reDeadline err \<or> reCode err = DeadlineExceeded then name @ '' did not answer in time.''
      else if reCode err = PermissionDenied then name @ '' refused the command: '' @ truncate_text (reMessage err) 300
      else if reCode err \<in> {InvalidArgument, FailedPrecondition, ResourceExhausted}
      then name @ '' could not run the command: '' @ truncate_text (reMessage err) 300
      else name @ '' is not reachable (is it online and on the tailnet?).'')"

definition clip :: "bytes \<Rightarrow> bool \<Rightarrow> string" where
  "clip b cut0 =
     (let s = ToValidUTF8 b ''?''; long = length s > maxCommandOutput; s' = (if long then truncate_text s maxCommandOutput else s)
      in if cut0 \<or> long then s' @ [CHR 0x0A] @ ''[output truncated]'' else s')"

definition commandOutput :: "command_result \<Rightarrow> string \<times> bool" where
  "commandOutput r =
     (output_json ([(''exit_code'', VInt (rsExitCode r)), (''stdout'', VStr (clip (rsStdout r) (rsStdoutTruncated r))),
        (''stderr'', VStr (clip (rsStderr r) (rsStderrTruncated r)))] @
        (if rsTimedOut r then [(''timed_out'', VBool True)] else [])),
      rsExitCode r \<noteq> 0 \<or> rsTimedOut r)"

definition zero_result :: command_result where
  "zero_result = \<lparr>rsExitCode = 0, rsStdout = [], rsStderr = [], rsStdoutTruncated = False, rsStderrTruncated = False, rsTimedOut = False\<rparr>"

text \<open>
  The request of \<^verbatim>\<open>execDevice\<close> copies the command and adds the approval.  How long the engine waits is part
  of the call: a later answer is \<^verbatim>\<open>DeadlineExceeded\<close>.
\<close>

definition execDevice :: "env \<Rightarrow> caller \<Rightarrow> device \<Rightarrow> command \<Rightarrow> signed_approval option
    \<Rightarrow> (rpc_error, exec_response) result eng" where
  "execDevice env c dev cmd approval = do {
     e \<leftarrow> call (DeviceClient dev) (\<lambda>k. eClient env k dev);
     (case e of
        Some err \<Rightarrow> ret (Inl err)
      | None \<Rightarrow> do {
          let timeout = (if caTask c \<noteq> None \<or> approval \<noteq> None then taskCommandTimeout else opToolTimeout (eOpts env));
          call (ExecuteCommand dev cmd approval timeout) (\<lambda>k. eExecute env k dev cmd approval timeout)
        })
   }"

record device_args =
  agDevice :: string
  agProgram :: string
  agArgs :: "string list"
  agWorkingDirectory :: string

definition decode_device_args :: "string \<Rightarrow> bool \<times> device_args" where
  "decode_device_args raw = (case json_parse raw of
     None \<Rightarrow> (True, \<lparr>agDevice = [], agProgram = [], agArgs = [], agWorkingDirectory = []\<rparr>)
   | Some j \<Rightarrow>
       let d = decode_field ''device'' dec_string [] j; p = decode_field ''program'' dec_string [] j;
           a = decode_field ''args'' dec_strings [] j; w = decode_field ''working_directory'' dec_string [] j
       in (fst d \<or> fst p \<or> fst a \<or> fst w,
           \<lparr>agDevice = snd d, agProgram = snd p, agArgs = snd a, agWorkingDirectory = snd w\<rparr>))"

text \<open>The loop over the devices keeps the last that matches.\<close>

definition pick_device :: "string \<Rightarrow> device list \<Rightarrow> device option" where
  "pick_device name devices =
     (case filter (\<lambda>d. dvName d = name \<or> name = [] \<and> length devices = 1) devices of [] \<Rightarrow> None | ds \<Rightarrow> Some (last ds))"

definition noPause :: "string \<times> bool \<Rightarrow> string \<times> bool \<times> pause option" where
  "noPause r = (fst r, snd r, None)"

definition runDevice :: "env \<Rightarrow> caller \<Rightarrow> string \<Rightarrow> (string \<times> bool \<times> pause option) eng" where
  "runDevice env c raw =
     (let (err, i) = decode_device_args raw in
      if err \<or> agProgram i = [] then ret (noPause (failure ''program (an absolute path) is required''))
      else do {
        q \<leftarrow> sql_query env (\<lambda>now db. Inr (Devices (mustUUID env (caTenant c)) (caUser c) db));
        (case q of
           Inl _ \<Rightarrow> ret (noPause (failure ''the device list is unavailable''))
         | Inr devices \<Rightarrow>
             (case pick_device (agDevice i) devices of
                None \<Rightarrow> ret (noPause (failure ''no such device''))
              | Some dev \<Rightarrow> do {
                  let cmd = \<lparr>cmProgram = agProgram i, cmArgs = agArgs i, cmWorkingDirectory = agWorkingDirectory i,
                    cmTimeout = None, cmSandbox = None\<rparr>;
                  resp \<leftarrow> execDevice env c dev cmd None;
                  (case resp of
                     Inl e \<Rightarrow> ret (noPause (failure (deviceError (dvName dev) e)))
                   | Inr (ApprovalRequired req) \<Rightarrow>
                       ret ([], False, Some (NeedsApproval
                         (truncate_text (dvName dev @ '': '' @ agProgram i @ '' '' @ join '' '' (agArgs i)) 500)
                         \<lparr>pdDevice = dev, pdCommand = cmd, pdRequired = req\<rparr>))
                   | Inr other \<Rightarrow> do {
                       let r = commandOutput (case other of ExecResult x \<Rightarrow> x | _ \<Rightarrow> zero_result);
                       auditCommand env (caTenant c) (caUser c) (dvName dev) (agProgram i) (snd r) False;
                       ret (noPause r)
                     })
                }))
      })"

subsection \<open>Dispatch\<close>

definition dec_arg :: "string \<Rightarrow> string \<Rightarrow> bool \<times> string" where
  "dec_arg name args = (case json_parse args of None \<Rightarrow> (True, []) | Some j \<Rightarrow> decode_field name dec_string [] j)"

definition dispatch :: "env \<Rightarrow> caller \<Rightarrow> target \<Rightarrow> string \<Rightarrow> (string \<times> bool \<times> pause option) eng" where
  "dispatch env c tgt args =
     (if taKind tgt = ToolRecall then
        (let (err, query) = dec_arg ''Query'' args in
         if err \<or> TrimSpace query = [] then ret (noPause (failure ''query is required''))
         else do {r \<leftarrow> recall env c query; ret (noPause r)})
      else if taKind tgt = ToolRemember then
        (let (err, note) = dec_arg ''Note'' args in
         if err \<or> TrimSpace note = [] then ret (noPause (failure ''note is required''))
         else do {r \<leftarrow> remember env c note; ret (noPause r)})
      else if taKind tgt = ToolDevice then runDevice env c args
      else if taKind tgt = kindMCP then
        (if \<not> taReadOnly tgt then
           let a = \<lparr>acKind = kindMCP, acIntegrationID = taIntegrationID tgt, acIntegration = taIntegration tgt,
             acTool = taTool tgt, acTitle = taTitle tgt, acArguments = args\<rparr>
           in ret ([], False, Some (NeedsConfirmation (action_summary a) a))
         else do {
           r \<leftarrow> callMCP env c (taIntegrationID tgt) (taIntegration tgt) (taTool tgt) args;
           ret (noPause r)
         })
      else ret (noPause (failure ''this tool is not available here'')))"

text \<open>\<^verbatim>\<open>execute\<close> adds only metrics.\<close>

definition execute :: "env \<Rightarrow> caller \<Rightarrow> target \<Rightarrow> string \<Rightarrow> (string \<times> bool \<times> pause option) eng" where
  "execute env c tgt args = dispatch env c tgt args"

end
