(* ===== verification/EngineVoice.thy ===== *)
theory EngineVoice
  imports EngineState
begin

text \<open>
  Conversations, after \<^verbatim>\<open>services/orchestrator/internal/engine/voice.go\<close>: opening and closing one, its turns
  and acknowledgements, the realtime model's tool calls with the confirmations they need, and signed
  approvals of device commands.  Operations of the store that have the same name get the prefix
  \<open>Engine_\<close> here.
\<close>

datatype conversation_error = ErrConversationNotFound | ErrConversationClosed | StoreError store_error

definition maxGoal :: nat where "maxGoal = 4000"
definition carryOverWindow :: int where "carryOverWindow = 86400000000"

subsection \<open>Opening, turns, closing\<close>

definition build_catalog :: "env \<Rightarrow> string \<Rightarrow> string \<Rightarrow> bool \<Rightarrow> (store_error, catalog) result eng" where
  "build_catalog env tenant user voice = do {
     q \<leftarrow> sql_query env (\<lambda>now db. Inr (Devices (mustUUID env tenant) user db));
     (case q of
        Inl e \<Rightarrow> ret (Inl e)
      | Inr devices \<Rightarrow> do {
          r \<leftarrow> call (McpListTools tenant user) (eListTools env);
          ret (Inr (buildCatalog voice (opMaxVoiceTools (eOpts env)) devices (case r of Inl _ \<Rightarrow> None | Inr ts \<Rightarrow> Some ts)))
        })
   }"

text \<open>
  The conversation is created, then the events its user has not heard yet move to it; failing to move
  them is only logged.
\<close>

definition start_conversation :: "env \<Rightarrow> conversation \<Rightarrow> (store_error, unit) result eng" where
  "start_conversation env conv = do {
     q \<leftarrow> sql env (\<lambda>now db. CreateConversation now conv db);
     (case q of
        Inl e \<Rightarrow> ret (Inl e)
      | Inr _ \<Rightarrow> do {
          sql env (\<lambda>now db. CarryOverEvents now (coID conv) (coTenantID conv) (coUserID conv) carryOverWindow db);
          ret (Inr ())
        })
   }"

definition Open :: "env \<Rightarrow> string \<Rightarrow> string \<Rightarrow> string \<Rightarrow> int \<Rightarrow> string
    \<Rightarrow> (store_error, uuid \<times> string \<times> function_tool list) result eng" where
  "Open env tenant user sessionID provider locale = do {
     r \<leftarrow> build_catalog env tenant user True;
     (case r of
        Inl e \<Rightarrow> ret (Inl e)
      | Inr c \<Rightarrow> do {
          i \<leftarrow> new_uuid env;
          q \<leftarrow> start_conversation env \<lparr>coID = i, coTenantID = mustUUID env tenant, coUserID = user, coSessionID = sessionID,
            coProvider = provider, coLocale = locale, coTools = catTargets c, coUserTurn = 0, coClosedAt = None,
            coCreatedAt = 0\<rparr>;
          ret (case q of Inl e \<Rightarrow> Inl e | Inr _ \<Rightarrow> Inr (i, VoiceInstructions, catTools c))
        })
   }"

definition openConversation :: "env \<Rightarrow> uuid \<Rightarrow> (conversation_error, conversation) result eng" where
  "openConversation env i = do {
     q \<leftarrow> sql_query env (\<lambda>now db. Conversation i db);
     ret (case q of
       Inl ErrNotFound \<Rightarrow> Inl ErrConversationNotFound
     | Inl e \<Rightarrow> Inl (StoreError e)
     | Inr conv \<Rightarrow> if coClosedAt conv \<noteq> None then Inl ErrConversationClosed else Inr conv)
   }"

definition store_result :: "(store_error, 'a) result \<Rightarrow> (conversation_error, 'a) result" where
  "store_result r = (case r of Inl e \<Rightarrow> Inl (StoreError e) | Inr x \<Rightarrow> Inr x)"

definition Engine_RecordTurn :: "env \<Rightarrow> uuid \<Rightarrow> string \<Rightarrow> string \<Rightarrow> int \<Rightarrow> string \<Rightarrow> (conversation_error, unit) result eng" where
  "Engine_RecordTurn env i role itemID turn text = do {
     o1 \<leftarrow> openConversation env i;
     (case o1 of
        Inl e \<Rightarrow> ret (Inl e)
      | Inr _ \<Rightarrow> do {
          a \<leftarrow> sql_do env (\<lambda>now db. AdvanceTurn i turn db);
          (case a of
             Inl e \<Rightarrow> ret (Inl (StoreError e))
           | Inr _ \<Rightarrow> do {
               r \<leftarrow> sql env (\<lambda>now db. RecordTurn now i role itemID turn text db);
               ret (store_result r)
             })
        })
   }"

definition Close :: "env \<Rightarrow> uuid \<Rightarrow> (conversation_error, unit) result eng" where
  "Close env i = do {
     r \<leftarrow> sql_ok env (\<lambda>now db. CloseConversation now i db);
     (case r of
        Inl e \<Rightarrow> ret (Inl (StoreError e))
      | Inr closed \<Rightarrow> do {
          q \<leftarrow> sql_query env (\<lambda>now db. Conversation i db);
          if q = Inl ErrNotFound then ret (Inl ErrConversationNotFound)
          else if closed then do {
            wake_topic i;
            m \<leftarrow> sql env (\<lambda>now db. QueueMemoryJob now i db);
            ret (store_result m)
          }
          else ret (Inr ())
        })
   }"

definition Ack :: "env \<Rightarrow> uuid \<Rightarrow> int \<Rightarrow> int \<Rightarrow> (conversation_error, unit) result eng" where
  "Ack env i eventID turn = do {
     r \<leftarrow> sql env (\<lambda>now db. AckEvent i eventID turn db);
     (case r of
        Inl ErrNotFound \<Rightarrow> ret (Inl ErrConversationNotFound)
      | Inl e \<Rightarrow> ret (Inl (StoreError e))
      | Inr None \<Rightarrow> ret (Inr ())
      | Inr (Some conf) \<Rightarrow> do {
          m \<leftarrow> sql_do env (\<lambda>now db. MarkAsked conf turn db);
          ret (store_result m)
        })
   }"

definition AckToolOutput :: "env \<Rightarrow> uuid \<Rightarrow> string \<Rightarrow> int \<Rightarrow> (conversation_error, unit) result eng" where
  "AckToolOutput env i callID turn = do {
     o1 \<leftarrow> openConversation env i;
     (case o1 of
        Inl e \<Rightarrow> ret (Inl e)
      | Inr _ \<Rightarrow> do {
          r \<leftarrow> sql_ok env (\<lambda>now db. MarkCallAsked i callID turn db);
          ret (case r of Inl e \<Rightarrow> Inl (StoreError e) | Inr _ \<Rightarrow> Inr ())
        })
   }"

subsection \<open>Confirmations\<close>

definition instruction :: string where
  "instruction = ''Ask the user in one short sentence whether to do exactly this. Call confirm_action only '' @
     ''after they clearly agree in their next reply; call cancel_action if they decline.''"

definition askConfirmation :: "env \<Rightarrow> caller \<Rightarrow> string \<Rightarrow> action \<Rightarrow> (string \<times> bool) eng" where
  "askConfirmation env c summary a = do {
     i \<leftarrow> new_uuid env;
     now \<leftarrow> time_now env;
     r \<leftarrow> create_confirmation env \<lparr>cfID = i, cfConversationID = (case caConversation c of None \<Rightarrow> uuid_Nil | Some v \<Rightarrow> v),
       cfTaskID = None, cfCallID = caCallID c, cfAction = encode_action a, cfSummary = summary, cfAskedTurn = None,
       cfState = Pending, cfExpiresAt = now + opConfirmationTTL (eOpts env)\<rparr>;
     (case r of
        Inl _ \<Rightarrow> ret (failure ''could not prepare the action'')
      | Inr _ \<Rightarrow> do {
          audit env (caTenant c) (caUser c) Assistant ''action.confirmation_requested'' ''confirmation'' i Success []
            (actionDetails a);
          ret (output_json [(''status'', VStr ''needs_confirmation''), (''confirmation_id'', VStr i), (''action'', VStr summary),
            (''instruction'', VStr instruction)], False)
        })
   }"

definition state_name :: "confirmation_state \<Rightarrow> string" where
  "state_name st = (case st of Pending \<Rightarrow> ''pending'' | Confirmed \<Rightarrow> ''confirmed'' | Cancelled \<Rightarrow> ''cancelled'' | Expired \<Rightarrow> ''expired'')"

definition refuse :: "env \<Rightarrow> caller \<Rightarrow> uuid \<Rightarrow> bool \<Rightarrow> (string \<times> bool) eng" where
  "refuse env c i confirm = do {
     q \<leftarrow> sql_query env (\<lambda>now db. Confirmation (case caConversation c of None \<Rightarrow> uuid_Nil | Some v \<Rightarrow> v) i db);
     (case q of
        Inl ErrNotFound \<Rightarrow> ret (failure ''unknown confirmation_id'')
      | Inl _ \<Rightarrow> ret (failure ''could not check the action'')
      | Inr conf \<Rightarrow>
          if cfState conf \<noteq> Pending then ret (failure (''this action was already '' @ state_name (cfState conf)))
          else do {
            now \<leftarrow> time_now env;
            if now > cfExpiresAt conf then ret (failure ''this action expired; ask the user again if they still want it'')
            else if confirm then do {
              audit env (caTenant c) (caUser c) Assistant ''action.confirmation_blocked'' ''confirmation'' i Denied
                ''no_user_answer'' [];
              ret (failure ''The user has not answered yet. Ask them and wait for their reply before calling confirm_action.'')
            }
            else ret (failure ''could not cancel the action'')
          })
   }"

text \<open>
  \<open>settled\<close> is \<^verbatim>\<open>settle\<close> after the store settled the confirmation: a confirmed action runs, and a task that
  waits on it gets the outcome.
\<close>

definition settled :: "env \<Rightarrow> caller \<Rightarrow> uuid \<Rightarrow> bool \<Rightarrow> confirmation \<Rightarrow> (string \<times> bool) eng" where
  "settled env c i confirm conf = do {
     let (err, a) = decode_action (cfAction conf);
     audit env (caTenant c) (caUser c) (User (caUser c)) (if confirm then ''action.confirmed'' else ''action.declined'')
       ''confirmation'' i Success [] (actionDetails a);
     if err then ret (failure ''the action is unreadable'')
     else do {
       res \<leftarrow> (if confirm then runAction env c a
         else ret (output_json [(''status'', VStr ''cancelled''), (''note'', VStr ''The action was not done.'')], False));
       (case cfTaskID conf of
          None \<Rightarrow> ret res
        | Some task \<Rightarrow> do {
            resume_task env task (completePending env (cfCallID conf)
              (if confirm then fst res
               else output_json [(''error'', VStr ''The user declined this action; it was not done.'')]));
            signal;
            ret (if confirm then
                (output_json [(''status'', VStr ''done''), (''result'', VRaw (fst res)),
                   (''note'', VStr ''The task continues; its result will be reported when it finishes.'')], snd res)
              else (output_json [(''status'', VStr ''cancelled''),
                   (''note'', VStr ''The task continues without this action.'')], False))
          })
     }
   }"

definition settle :: "env \<Rightarrow> caller \<Rightarrow> uuid \<Rightarrow> bool \<Rightarrow> (string \<times> bool) eng" where
  "settle env c i confirm = do {
     r \<leftarrow> sql env (\<lambda>now db. Settle now (case caConversation c of None \<Rightarrow> uuid_Nil | Some v \<Rightarrow> v) i (caTurn c) confirm db);
     (case r of
        Inr conf \<Rightarrow> settled env c i confirm conf
      | Inl ErrNotFound \<Rightarrow> refuse env c i confirm
      | Inl _ \<Rightarrow> ret (failure ''could not settle the action''))
   }"

subsection \<open>Starting a task\<close>

definition startTask :: "env \<Rightarrow> caller \<Rightarrow> string \<Rightarrow> (string \<times> bool) eng" where
  "startTask env c goal = do {
     r \<leftarrow> build_catalog env (caTenant c) (caUser c) False;
     (case r of
        Inl _ \<Rightarrow> ret (failure ''could not start the task'')
      | Inr cat \<Rightarrow> do {
          intro \<leftarrow> taskIntro env c goal;
          i \<leftarrow> new_uuid env;
          now \<leftarrow> time_now env;
          q \<leftarrow> create_task env \<lparr>tkID = i, tkTenantID = mustUUID env (caTenant c), tkUserID = caUser c,
            tkConversationID = caConversation c, tkKind = KindAgent, tkProvider = caProvider c, tkGoal = goal,
            tkState = TaskQueued, tkResult = [], tkSteps = 0, tkTools = catTargets cat,
            tkHistory = encodeItems env [UserText intro], tkPending = [], tkDeadline = now + opTaskTimeout (eOpts env),
            tkCreatedAt = 0, tkUpdatedAt = 0\<rparr>;
          (case q of
             Inl _ \<Rightarrow> ret (failure ''could not start the task'')
           | Inr _ \<Rightarrow> do {
               signal;
               audit env (caTenant c) (caUser c) Assistant ''task.started'' ''task'' i Success [] [(''kind'', kind_name KindAgent)];
               ret (output_json [(''status'', VStr ''started''), (''task_id'', VStr i),
                 (''note'', VStr ''Tell the user you are on it and will report back.'')], False)
             })
        })
   }"

subsection \<open>Approvals\<close>

definition approvalExpiry :: "env \<Rightarrow> approval_required \<Rightarrow> int eng" where
  "approvalExpiry env req = (case arExpireTime req of
     None \<Rightarrow> do {now \<leftarrow> time_now env; ret (now + 300000000)}
   | Some expiry \<Rightarrow> do {
       now \<leftarrow> time_now env;
       if expiry > now then ret expiry else do {now' \<leftarrow> time_now env; ret (now' + 300000000)}
     })"

definition Engine_saveApproval :: "env \<Rightarrow> uuid \<Rightarrow> string \<Rightarrow> pending_device \<Rightarrow> (store_error, unit) result eng" where
  "Engine_saveApproval env taskID callID p = (case eMarshalCommand env (pdCommand p) of
     None \<Rightarrow> ret (Inl (ErrUpdate ''marshal''))
   | Some cmd \<Rightarrow> do {
       expiry \<leftarrow> approvalExpiry env (pdRequired p);
       save_approval env \<lparr>daApprovalID = arApprovalId (pdRequired p), daDeviceID = dvID (pdDevice p), daTaskID = taskID,
         daCallID = callID, daCommand = cmd, daPayload = arPayload (pdRequired p), daExpiresAt = expiry\<rparr>
     })"

definition audit_approval :: "env \<Rightarrow> string \<Rightarrow> string \<Rightarrow> uuid \<Rightarrow> pending_device \<Rightarrow> unit eng" where
  "audit_approval env tenant user task p =
     audit env tenant user Assistant ''command.approval_requested'' ''task'' task Success []
       [(''device'', dvName (pdDevice p)), (''program'', cmProgram (pdCommand p))]"

definition awaitApproval :: "env \<Rightarrow> caller \<Rightarrow> string \<Rightarrow> pending_device \<Rightarrow> (string \<times> bool) eng" where
  "awaitApproval env c summary p = do {
     i \<leftarrow> new_uuid env;
     expiry \<leftarrow> approvalExpiry env (pdRequired p);
     let t = \<lparr>tkID = i, tkTenantID = mustUUID env (caTenant c), tkUserID = caUser c, tkConversationID = caConversation c,
       tkKind = KindCommand, tkProvider = caProvider c, tkGoal = ''Run on '' @ summary, tkState = TaskAwaitingApproval,
       tkResult = [], tkSteps = 0, tkTools = [], tkHistory = [],
       tkPending = (case eMarshalCommand env (pdCommand p) of None \<Rightarrow> [] | Some cmd \<Rightarrow> cmd), tkDeadline = expiry,
       tkCreatedAt = 0, tkUpdatedAt = 0\<rparr>;
     q \<leftarrow> create_task env t;
     (case q of
        Inl _ \<Rightarrow> ret (failure ''could not queue the command'')
      | Inr _ \<Rightarrow> do {
          s \<leftarrow> Engine_saveApproval env i [] p;
          (case s of
             Inl _ \<Rightarrow> ret (failure ''could not queue the command'')
           | Inr _ \<Rightarrow> do {
               notify env t NotifyApproval;
               audit_approval env (caTenant c) (caUser c) i p;
               ret (output_json [(''status'', VStr ''waiting_for_approval''), (''task_id'', VStr i),
                 (''note'', VStr ''The command needs the user's approval on their phone; its result will be reported when it runs.'')], False)
             })
        })
   }"

definition drop_update :: "env \<Rightarrow> string \<Rightarrow> string \<Rightarrow> task \<Rightarrow> (store_error, task) result" where
  "drop_update env callID why t =
     (if tkKind t = KindCommand then Inr (t\<lparr>tkState := TaskFailed, tkResult := why\<rparr>)
      else completePending env callID (output_json [(''error'', VStr why)]) t)"

definition dropApproval :: "env \<Rightarrow> device_approval \<Rightarrow> string \<Rightarrow> string \<Rightarrow> unit eng" where
  "dropApproval env a why reason = do {
     sql_do env (\<lambda>now db. DeleteApproval (daApprovalID a) db);
     r \<leftarrow> resume_task env (daTaskID a) (drop_update env (daCallID a) why);
     (case r of
        Inl _ \<Rightarrow> ret ()
      | Inr t \<Rightarrow> do {
          audit env (tkTenantID t) (tkUserID t) Assistant ''command.not_run'' ''approval'' (daApprovalID a) Denied reason [];
          if tkKind t = KindCommand then finished env t else signal
        })
   }"

datatype approval_error = ErrApprovalNotFound | ErrApprovalRejected string | ApprovalStore store_error | ApprovalDecode
  | ApprovalDevice rpc_error

definition approve_update :: "env \<Rightarrow> string \<Rightarrow> string \<Rightarrow> task \<Rightarrow> (store_error, task) result" where
  "approve_update env callID out t =
     (if tkKind t = KindCommand then Inr (t\<lparr>tkState := TaskSucceeded, tkResult := out\<rparr>)
      else completePending env callID out t)"

definition rejected_text :: "string \<Rightarrow> string" where
  "rejected_text message = ''The computer rejected the approval ('' @ truncate_text message 200 @ ''), so the command did not run. '' @
     ''The user's phone may not be one of its approvers; ask again once that is fixed.''"

definition zero_caller :: caller where
  "zero_caller = \<lparr>caTenant = [], caUser = [], caConversation = None, caProvider = 0, caLocale = [], caTask = None, caCallID = [],
     caTurn = 0\<rparr>"

definition run_approved :: "env \<Rightarrow> string \<Rightarrow> string \<Rightarrow> device_approval \<Rightarrow> device \<Rightarrow> command \<Rightarrow> signed_approval
    \<Rightarrow> (approval_error, string) result eng" where
  "run_approved env tenant user a dev cmd approval = do {
     resp \<leftarrow> execDevice env (zero_caller\<lparr>caTenant := tenant, caUser := user\<rparr>) dev cmd (Some approval);
     (case resp of
        Inl e \<Rightarrow>
          if reCode e = PermissionDenied \<or> reCode e = FailedPrecondition then do {
            dropApproval env a (rejected_text (reMessage e)) ''approval_rejected'';
            ret (Inl (ErrApprovalRejected (truncate_text (reMessage e) 300)))
          }
          else ret (Inl (ApprovalDevice e))
      | Inr (ExecResult res) \<Rightarrow> do {
          let (out, failed) = commandOutput res;
          sql_do env (\<lambda>now db. DeleteApproval (saApprovalId approval) db);
          auditCommand env tenant user (dvName dev) (cmProgram cmd) failed True;
          r \<leftarrow> resume_task env (daTaskID a) (approve_update env (daCallID a) out);
          (case r of
             Inl _ \<Rightarrow> ret (Inr out)
           | Inr t \<Rightarrow> do {
               (if tkKind t = KindCommand then finished env t else signal);
               ret (Inr out)
             })
        }
      | Inr _ \<Rightarrow> do {
          dropApproval env a ''The computer asked for another approval; the command did not run.'' ''approval_asked_again'';
          ret (Inl (ErrApprovalRejected ''the device asked for approval again''))
        })
   }"

definition SubmitApproval :: "env \<Rightarrow> string \<Rightarrow> string \<Rightarrow> string \<Rightarrow> string \<Rightarrow> bytes \<Rightarrow> (approval_error, string) result eng" where
  "SubmitApproval env tenant user approvalID approverID signature = do {
     q \<leftarrow> sql_query env (\<lambda>now db. Approval now (mustUUID env tenant) user approvalID db);
     (case q of
        Inl ErrNotFound \<Rightarrow> ret (Inl ErrApprovalNotFound)
      | Inl e \<Rightarrow> ret (Inl (ApprovalStore e))
      | Inr a \<Rightarrow> do {
          d \<leftarrow> sql_query env (\<lambda>now db. DeviceByID (daDeviceID a) db);
          (case d of
             Inl e \<Rightarrow> ret (Inl (ApprovalStore e))
           | Inr dev \<Rightarrow>
               (case eUnmarshalCommand env (daCommand a) of
                  None \<Rightarrow> ret (Inl ApprovalDecode)
                | Some cmd \<Rightarrow> run_approved env tenant user a dev cmd
                    \<lparr>saApprovalId = approvalID, saApproverId = approverID, saSignature = signature\<rparr>))
        })
   }"

subsection \<open>The realtime model's tool calls\<close>

definition voiceTool :: "env \<Rightarrow> conversation \<Rightarrow> caller \<Rightarrow> string \<Rightarrow> string \<Rightarrow> (string \<times> bool \<times> pause option) eng" where
  "voiceTool env conv c name args = (case map_of (coTools conv) name of
     None \<Rightarrow> ret (noPause (failure (''unknown tool '' @ truncate_text name 64)))
   | Some tgt \<Rightarrow>
       if \<not> json_valid args then ret (noPause (failure ''arguments must be a JSON object''))
       else if taKind tgt = ToolStart then
         (let (err, goal) = dec_arg ''Goal'' args in
          if err \<or> TrimSpace goal = [] then ret (noPause (failure ''goal is required''))
          else do {r \<leftarrow> startTask env c (truncate_text (TrimSpace goal) maxGoal); ret (noPause r)})
       else if taKind tgt = ToolConfirm \<or> taKind tgt = ToolCancel then
         (case eParseUUID env (snd (dec_arg ''confirmation_id'' args)) of
            None \<Rightarrow> ret (noPause (failure ''confirmation_id is required''))
          | Some i \<Rightarrow> do {r \<leftarrow> settle env c i (taKind tgt = ToolConfirm); ret (noPause r)})
       else execute env c tgt args)"

definition voiceCall :: "env \<Rightarrow> conversation \<Rightarrow> caller \<Rightarrow> string \<Rightarrow> string \<Rightarrow> call_result eng" where
  "voiceCall env conv c name args = do {
     (out, isError, p) \<leftarrow> voiceTool env conv c name args;
     (case p of
        None \<Rightarrow> ret \<lparr>crOutput = out, crIsError = isError, crAckRequired = False\<rparr>
      | Some (NeedsConfirmation summary a) \<Rightarrow> do {
          r \<leftarrow> askConfirmation env c summary a;
          ret \<lparr>crOutput = fst r, crIsError = snd r, crAckRequired = \<not> snd r\<rparr>
        }
      | Some (NeedsApproval summary d) \<Rightarrow> do {
          r \<leftarrow> awaitApproval env c summary d;
          ret \<lparr>crOutput = fst r, crIsError = snd r, crAckRequired = False\<rparr>
        })
   }"

definition voice_caller :: "conversation \<Rightarrow> uuid \<Rightarrow> string \<Rightarrow> int \<Rightarrow> caller" where
  "voice_caller conv i callID turn = \<lparr>caTenant = coTenantID conv, caUser = coUserID conv, caConversation = Some i,
     caProvider = coProvider conv, caLocale = coLocale conv, caTask = None, caCallID = callID, caTurn = turn\<rparr>"

definition Engine_CallTool :: "env \<Rightarrow> uuid \<Rightarrow> string \<Rightarrow> string \<Rightarrow> string \<Rightarrow> int \<Rightarrow> (conversation_error, call_result) result eng" where
  "Engine_CallTool env i callID name args turn = do {
     o1 \<leftarrow> openConversation env i;
     (case o1 of
        Inl e \<Rightarrow> ret (Inl e)
      | Inr conv \<Rightarrow> do {
          q \<leftarrow> sql_query env (\<lambda>now db. ToolCall i callID db);
          (case q of
             Inr r \<Rightarrow> ret (Inr r)
           | Inl ErrNotFound \<Rightarrow> do {
               a \<leftarrow> sql_do env (\<lambda>now db. AdvanceTurn i turn db);
               (case a of
                  Inl e \<Rightarrow> ret (Inl (StoreError e))
                | Inr _ \<Rightarrow> do {
                    r \<leftarrow> voiceCall env conv (voice_caller conv i callID turn) name args;
                    s \<leftarrow> sql env (\<lambda>now db. SaveToolCall i callID name r db);
                    (case s of
                       Inl e \<Rightarrow> ret (Inl (StoreError e))
                     | Inr _ \<Rightarrow> ret (Inr r))
                  })
             }
           | Inl e \<Rightarrow> ret (Inl (StoreError e)))
        })
   }"

end
