(* ===== verification/EngineTasks.thy ===== *)
theory EngineTasks
  imports EngineVoice
begin

text \<open>
  Background tasks, after \<^verbatim>\<open>services/orchestrator/internal/engine/tasks.go\<close>.  A worker that leased a task runs
  its loop: make the pending tool calls one by one, then ask the agent for the next step.  The goroutine
  that renews the lease is \<open>renew_tick\<close>, one of the others' steps for the loop; that it cancels the
  loop's context is part of when \<open>eDone\<close> says so.  The loop ends: a step uses up one of the steps the task may
  take, a call one of the pending calls, a failed step one of its three tries.
\<close>

definition taskLease :: int where "taskLease = 60000000"
definition maxTransientErrors :: nat where "maxTransientErrors = 3"
definition maxResultForUser :: nat where "maxResultForUser = 2000"

subsection \<open>Asking the agent\<close>

datatype decide_error = Permanent string | Transient

definition providerName :: "int \<Rightarrow> string" where
  "providerName p = (if p = PROVIDER_XAI then ''xAI'' else ''OpenAI'')"

definition toolSpecs :: "toolset \<Rightarrow> tool_spec list" where
  "toolSpecs tools = map (\<lambda>(name, t). \<lparr>tsName = name, tsDescription = taDescription t, tsParametersJson = taParameters t\<rparr>)
     (sort_key fst tools)"

definition decide_request_of :: "env \<Rightarrow> task \<Rightarrow> bytes \<Rightarrow> item list \<Rightarrow> decide_request" where
  "decide_request_of env t key items = \<lparr>dqProvider = tkProvider t, dqModel = model env (tkProvider t), dqApiKey = key,
     dqInstructions = TaskInstructions, dqItems = items, dqTools = toolSpecs (tkTools t)\<rparr>"

definition decide :: "env \<Rightarrow> task \<Rightarrow> item list \<Rightarrow> (decide_error, decide_response) result eng" where
  "decide env t items = do {
     a \<leftarrow> call (ProviderKey (tkTenantID t) (tkProvider t)) (\<lambda>k. eProviderKey env k (tkTenantID t) (tkProvider t));
     (case a of
        NoKey \<Rightarrow> ret (Inl (Permanent (''There is no '' @ providerName (tkProvider t) @ '' key in the Jarvis vault for this account.'')))
      | KeyError _ \<Rightarrow> ret (Inl Transient)
      | Key key \<Rightarrow> do {
          let req = decide_request_of env t key items;
          r \<leftarrow> call (Decide req) (\<lambda>k. eDecide env k req);
          ret (case r of
            Inr resp \<Rightarrow> Inr resp
          | Inl e \<Rightarrow>
              if reCode e = Unauthenticated
              then Inl (Permanent (''The '' @ providerName (tkProvider t) @ '' key was rejected; update it in the dashboard.''))
              else if reCode e = InvalidArgument \<or> reCode e = FailedPrecondition
              then Inl (Permanent ''The AI provider refused the request.'')
              else Inl Transient)
        })
   }"

subsection \<open>Saving, finishing, pausing\<close>

definition with_state :: "env \<Rightarrow> item list \<Rightarrow> agent_call list \<Rightarrow> task \<Rightarrow> task" where
  "with_state env items calls t = t\<lparr>tkHistory := encodeItems env items, tkPending := encodeCalls env calls\<rparr>"

definition save :: "env \<Rightarrow> string \<Rightarrow> task \<Rightarrow> unit eng" where
  "save env owner t = do {
     save_progress env t owner;
     ret ()
   }"

definition finish :: "env \<Rightarrow> string \<Rightarrow> task \<Rightarrow> item list \<Rightarrow> agent_call list \<Rightarrow> task_state \<Rightarrow> string \<Rightarrow> unit eng" where
  "finish env owner t0 items calls state res = do {
     let t = (with_state env items calls t0)\<lparr>tkState := state, tkResult := truncate_text (TrimSpace res) maxResultForUser\<rparr>;
     r \<leftarrow> set_task_state env t owner state (tkResult t);
     (case r of
        Inr True \<Rightarrow> finished env t
      | _ \<Rightarrow> ret ())
   }"

definition expireWithoutConversation :: "env \<Rightarrow> task \<Rightarrow> string \<Rightarrow> unit eng" where
  "expireWithoutConversation env t callID = do {
     resume_task env (tkID t) (completePending env callID
       (output_json [(''error'', VStr ''The user could not be asked to confirm this action; it was not done.'')]));
     signal
   }"

definition confirmation_message :: "env \<Rightarrow> task \<Rightarrow> string \<Rightarrow> uuid \<Rightarrow> string" where
  "confirmation_message env t summary i = ''[Jarvis] The background task '' @ Quote (ePrintable env) (truncate_text (tkGoal t) 200) @
     '' wants to do this: '' @ summary @ ''. Ask the user whether to go ahead, then call confirm_action or cancel_action '' @
     ''with confirmation_id '' @ i @ ''.''"

definition pause_for_confirmation :: "env \<Rightarrow> string \<Rightarrow> task \<Rightarrow> string \<Rightarrow> string \<Rightarrow> action \<Rightarrow> unit eng" where
  "pause_for_confirmation env owner t callID summary a = do {
     r \<leftarrow> set_task_state env t owner TaskAwaitingConfirmation [];
     (case r of
        Inr True \<Rightarrow> do {
          i \<leftarrow> new_uuid env;
          now \<leftarrow> time_now env;
          (case tkConversationID t of
             None \<Rightarrow> expireWithoutConversation env t callID
           | Some conv \<Rightarrow> do {
               q \<leftarrow> create_confirmation env \<lparr>cfID = i, cfConversationID = conv, cfTaskID = Some (tkID t), cfCallID = callID,
                 cfAction = encode_action a, cfSummary = summary, cfAskedTurn = None, cfState = Pending,
                 cfExpiresAt = now + opConfirmationTTL (eOpts env)\<rparr>;
               (case q of
                  Inl _ \<Rightarrow> ret ()
                | Inr _ \<Rightarrow> do {
                    audit env (tkTenantID t) (tkUserID t) Assistant ''action.confirmation_requested'' ''confirmation'' i Success []
                      (actionDetails a);
                    heard \<leftarrow> emit env (Some conv) (ConfirmationRequested i (tkID t) summary)
                      (confirmation_message env t summary i) (Some i);
                    if \<not> heard then notify env (t\<lparr>tkState := TaskAwaitingConfirmation\<rparr>) NotifyConfirmation else ret ()
                  })
             })
        }
      | _ \<Rightarrow> ret ())
   }"

definition pause_for_approval :: "env \<Rightarrow> string \<Rightarrow> task \<Rightarrow> string \<Rightarrow> string \<Rightarrow> pending_device \<Rightarrow> unit eng" where
  "pause_for_approval env owner t callID summary p = do {
     r \<leftarrow> set_task_state env t owner TaskAwaitingApproval [];
     (case r of
        Inr True \<Rightarrow> do {
          s \<leftarrow> Engine_saveApproval env (tkID t) callID p;
          (case s of
             Inl _ \<Rightarrow> ret ()
           | Inr _ \<Rightarrow> do {
               emit env (tkConversationID t)
                 (DeviceApprovalRequested (arApprovalId (pdRequired p)) (dvName (pdDevice p)) summary)
                 (''[Jarvis] A command waits for the user's approval on their phone: '' @ summary @ ''.'') None;
               notify env (t\<lparr>tkState := TaskAwaitingApproval\<rparr>) NotifyApproval;
               audit_approval env (tkTenantID t) (tkUserID t) (tkID t) p
             })
        }
      | _ \<Rightarrow> ret ())
   }"

definition pauseTask :: "env \<Rightarrow> string \<Rightarrow> task \<Rightarrow> item list \<Rightarrow> agent_call \<Rightarrow> agent_call list \<Rightarrow> pause \<Rightarrow> unit eng" where
  "pauseTask env owner t items c rest p = (case p of
     NeedsConfirmation summary a \<Rightarrow>
       pause_for_confirmation env owner (with_state env items (c # rest) t) (agCallId c) summary a
   | NeedsApproval summary d \<Rightarrow>
       pause_for_approval env owner (with_state env items (c # rest) t) (agCallId c) summary d)"

subsection \<open>The loop\<close>

definition task_caller :: "task \<Rightarrow> string \<Rightarrow> caller" where
  "task_caller t callID = \<lparr>caTenant = tkTenantID t, caUser = tkUserID t, caConversation = tkConversationID t,
     caProvider = tkProvider t, caLocale = [], caTask = Some (tkID t), caCallID = callID, caTurn = 0\<rparr>"

definition task_call :: "env \<Rightarrow> task \<Rightarrow> agent_call \<Rightarrow> (string \<times> bool \<times> pause option) eng" where
  "task_call env t c = (case map_of (tkTools t) (agName c) of
     Some tgt \<Rightarrow> execute env (task_caller t (agCallId c)) tgt (agArgumentsJson c)
   | None \<Rightarrow> ret (noPause (failure (''unknown tool '' @ truncate_text (agName c) 64))))"

function run_loop :: "env \<Rightarrow> string \<Rightarrow> task \<Rightarrow> item list \<Rightarrow> agent_call list \<Rightarrow> nat \<Rightarrow> unit eng" where
  "run_loop env owner t items calls transient = do {
     stop \<leftarrow> ctx_done env;
     if stop then ret ()
     else do {
       now \<leftarrow> time_now env;
       if now > tkDeadline t
       then finish env owner t items calls TaskFailed ''The task took too long and was stopped.''
       else (case calls of
          c # rest \<Rightarrow> do {
            (out, isError, p) \<leftarrow> task_call env t c;
            (case p of
               Some p' \<Rightarrow> pauseTask env owner t items c rest p'
             | None \<Rightarrow>
                 let items' = items @ [ToolResult (agCallId c) out]; t' = with_state env items' rest t
                 in do {
                   save env owner t';
                   run_loop env owner t' items' rest transient
                 })
          }
        | [] \<Rightarrow>
            if tkSteps t \<ge> opTaskMaxSteps (eOpts env)
            then finish env owner t items [] TaskFailed ''The task needed too many steps and was stopped.''
            else do {
              r \<leftarrow> decide env t items;
              (case r of
                 Inl e \<Rightarrow> do {
                   stop1 \<leftarrow> ctx_done env;
                   if stop1 then ret ()
                   else (case e of
                      Permanent message \<Rightarrow> finish env owner t items [] TaskFailed message
                    | Transient \<Rightarrow>
                        if transient + 1 \<ge> maxTransientErrors
                        then finish env owner t items [] TaskFailed ''The AI provider is unavailable right now; try again later.''
                        else do {
                          stop2 \<leftarrow> ctx_done env;
                          if stop2 then ret () else run_loop env owner t items [] (transient + 1)
                        })
                 }
               | Inr resp \<Rightarrow>
                   let items' = items @ [ModelStep (drStep resp)]; calls' = drToolCalls resp;
                       t' = with_state env items' calls' (t\<lparr>tkSteps := tkSteps t + 1\<rparr>)
                   in if calls' = [] then finish env owner (t\<lparr>tkSteps := tkSteps t + 1\<rparr>) items' [] TaskSucceeded (drText resp)
                      else do {
                        save env owner t';
                        run_loop env owner t' items' calls' 0
                      })
            })
     }
   }"
  by pat_completeness auto
termination
  by (relation "measures [\<lambda>(env, owner, t, items, calls, transient). opTaskMaxSteps (eOpts env) - tkSteps t,
      \<lambda>(env, owner, t, items, calls, transient). length calls,
      \<lambda>(env, owner, t, items, calls, transient). maxTransientErrors - transient]")
    (auto simp: with_state_def)

declare run_loop.simps [simp del]

definition runTask :: "env \<Rightarrow> string \<Rightarrow> task \<Rightarrow> unit eng" where
  "runTask env0 owner t =
     (let env = env0\<lparr>eRequestID := ''task-'' @ tkID t\<rparr>
      in case decodeState env t of
           None \<Rightarrow> finish env owner t [] [] TaskFailed ''The task's saved state is unreadable.''
         | Some (items, calls) \<Rightarrow> run_loop env owner t items calls 0)"

text \<open>One tick of the goroutine that keeps the lease: whether the loop's context is cancelled.\<close>

definition renew_tick :: "env \<Rightarrow> string \<Rightarrow> task \<Rightarrow> bool eng" where
  "renew_tick env owner t = do {
     r \<leftarrow> sql_ok env (\<lambda>now db. RenewLease now (tkID t) owner taskLease db);
     ret (r = Inr False)
   }"

text \<open>A worker, for at most \<open>n\<close> rounds; while idle it waits for a signal or the poll interval.\<close>

definition take_wake :: "unit eng" where
  "take_wake = State (\<lambda>w. ((), w\<lparr>wWake := False\<rparr>))"

fun taskWorker :: "nat \<Rightarrow> env \<Rightarrow> string \<Rightarrow> unit eng" where
  "taskWorker 0 env owner = ret ()"
| "taskWorker (Suc n) env owner = do {
     stop \<leftarrow> ctx_done env;
     if stop then ret ()
     else do {
       r \<leftarrow> sql env (\<lambda>now db. LeaseTask now owner taskLease db);
       (case r of
          Inr t \<Rightarrow> do {runTask env owner t; taskWorker n env owner}
        | Inl _ \<Rightarrow> do {take_wake; taskWorker n env owner})
     }
   }"

subsection \<open>Cancelling\<close>

definition Cancel :: "env \<Rightarrow> string \<Rightarrow> string \<Rightarrow> uuid \<Rightarrow> (store_error, task) result eng" where
  "Cancel env tenant user i = do {
     b \<leftarrow> sql_query env (\<lambda>now db. Task (mustUUID env tenant) user i db);
     (case b of
        Inl e \<Rightarrow> ret (Inl e)
      | Inr before \<Rightarrow> do {
          r \<leftarrow> sql env (\<lambda>now db. CancelTask now (mustUUID env tenant) user i db);
          (case r of
             Inl e \<Rightarrow> ret (Inl e)
           | Inr t \<Rightarrow> do {
               (if \<not> Terminal before \<and> tkState t = TaskCancelled then finished env t else ret ());
               ret (Inr t)
             })
        })
   }"

end
