(* ===== verification/EngineMemory.thy ===== *)
theory EngineMemory
  imports EngineTasks
begin

text \<open>
  Long-term memory and maintenance, after \<^verbatim>\<open>services/orchestrator/internal/engine/memory.go\<close>.  The two loops
  run until their context ends; \<open>memoryWorker\<close> and \<open>maintenance\<close> are one round of each.
\<close>

definition memoryLease :: int where "memoryLease = 300000000"
definition maxMemoryAttempts :: nat where "maxMemoryAttempts = 5"

definition code_name :: "code \<Rightarrow> string" where
  "code_name c = (case c of InvalidArgument \<Rightarrow> ''InvalidArgument'' | NotFound \<Rightarrow> ''NotFound'' | FailedPrecondition \<Rightarrow> ''FailedPrecondition''
     | PermissionDenied \<Rightarrow> ''PermissionDenied'' | Unauthenticated \<Rightarrow> ''Unauthenticated'' | ResourceExhausted \<Rightarrow> ''ResourceExhausted''
     | DeadlineExceeded \<Rightarrow> ''DeadlineExceeded'' | Aborted \<Rightarrow> ''Aborted'' | Unavailable \<Rightarrow> ''Unavailable'' | Internal \<Rightarrow> ''Internal''
     | Canceled \<Rightarrow> ''Canceled'' | OtherCode \<Rightarrow> ''Unknown'')"

datatype memory_error = PermanentError string | OtherError string

definition memory_error_text :: "memory_error \<Rightarrow> string" where
  "memory_error_text e = (case e of PermanentError m \<Rightarrow> m | OtherError m \<Rightarrow> m)"

definition memory_source :: "conversation \<Rightarrow> extract_response \<Rightarrow> upsert_request" where
  "memory_source conv resp = \<lparr>uqTenantId = coTenantID conv, uqUserId = coUserID conv, uqSourceId = ''conversation:'' @ coID conv,
     uqSourceKind = ''conversation'', uqSourceTitle = ''Voice conversation '' @ format_minute (coCreatedAt conv),
     uqOccurredTime = Some (coCreatedAt conv), uqEntities = xrEntities resp, uqRelations = xrRelations resp,
     uqPassages = xrPassages resp\<rparr>"

definition remember_extracted :: "env \<Rightarrow> conversation \<Rightarrow> extract_response \<Rightarrow> (memory_error, unit) result eng" where
  "remember_extracted env conv resp =
     (if xrEntities resp = [] \<and> xrRelations resp = [] \<and> xrPassages resp = [] then ret (Inr ())
      else do {
        let req = memory_source conv resp;
        r \<leftarrow> call (UpsertKnowledge req) (\<lambda>k. eUpsert env k req);
        ret (case r of
          Inr _ \<Rightarrow> Inr ()
        | Inl e \<Rightarrow> if reCode e = InvalidArgument then Inl (PermanentError ''the knowledge service refused the extraction'')
                    else Inl (OtherError (reText e)))
      })"

definition extract_turns :: "env \<Rightarrow> conversation \<Rightarrow> turn list \<Rightarrow> (memory_error, unit) result eng" where
  "extract_turns env conv turns =
     (if \<not> list_ex (\<lambda>t. tuRole t = ''user'') turns then ret (Inr ())
      else do {
        a \<leftarrow> call (ProviderKey (coTenantID conv) (coProvider conv)) (\<lambda>k. eProviderKey env k (coTenantID conv) (coProvider conv));
        (case a of
           NoKey \<Rightarrow> ret (Inl (PermanentError ''no provider key''))
         | KeyError e \<Rightarrow> ret (Inl (OtherError (reText e)))
         | Key key \<Rightarrow> do {
             let req = \<lparr>xqProvider = coProvider conv, xqModel = model env (coProvider conv), xqApiKey = key,
               xqTurns = map (\<lambda>t. (tuRole t, tuText t)) turns, xqLocale = coLocale conv,
               xqConversationTime = format_rfc3339 (coCreatedAt conv)\<rparr>;
             r \<leftarrow> call (ExtractKnowledge req) (\<lambda>k. eExtract env k req);
             (case r of
                Inr resp \<Rightarrow> remember_extracted env conv resp
              | Inl e \<Rightarrow> ret (if reCode e = Unauthenticated \<or> reCode e = InvalidArgument
                  then Inl (PermanentError (''the provider refused: '' @ code_name (reCode e)))
                  else Inl (OtherError (reText e))))
           })
      })"

definition extractMemory :: "env \<Rightarrow> uuid \<Rightarrow> (memory_error, unit) result eng" where
  "extractMemory env i = do {
     q \<leftarrow> sql_query env (\<lambda>now db. Conversation i db);
     (case q of
        Inl e \<Rightarrow> ret (Inl (OtherError (eStoreErrorText env e)))
      | Inr conv \<Rightarrow> do {
          r \<leftarrow> sql_query env (\<lambda>now db. Inr (Transcript i db));
          (case r of
             Inl e \<Rightarrow> ret (Inl (OtherError (eStoreErrorText env e)))
           | Inr turns \<Rightarrow> extract_turns env conv turns)
        })
   }"

definition memoryWorker :: "env \<Rightarrow> unit eng" where
  "memoryWorker env = do {
     j \<leftarrow> sql env (\<lambda>now db. LeaseMemoryJob now memoryLease db);
     (case j of
        Inl _ \<Rightarrow> ret ()
      | Inr (i, attempts) \<Rightarrow> do {
          r \<leftarrow> extractMemory (env\<lparr>eRequestID := ''memory-'' @ i\<rparr>) i;
          (case r of
             Inr _ \<Rightarrow> sql_do env (\<lambda>now db. FinishMemoryJob now i JobDone 0 [] db)
           | Inl e \<Rightarrow>
               if (case e of PermanentError _ \<Rightarrow> True | OtherError _ \<Rightarrow> False) \<or> attempts \<ge> maxMemoryAttempts
               then sql_do env (\<lambda>now db. FinishMemoryJob now i JobFailed 0 (truncate_text (memory_error_text e) 500) db)
               else sql_do env (\<lambda>now db. FinishMemoryJob now i JobQueued (2 ^ attempts * 60000000)
                 (truncate_text (memory_error_text e) 500) db));
          ret ()
        })
   }"

subsection \<open>Maintenance\<close>

fun close_each :: "env \<Rightarrow> uuid list \<Rightarrow> unit eng" where
  "close_each env [] = ret ()"
| "close_each env (i # is) = do {
     wake_topic i;
     sql env (\<lambda>now db. QueueMemoryJob now i db);
     close_each env is
   }"

definition closeAbandoned :: "env \<Rightarrow> unit eng" where
  "closeAbandoned env = do {
     r \<leftarrow> sql_ok env (\<lambda>now db. CloseAbandoned now db);
     (case r of Inl _ \<Rightarrow> ret () | Inr ids \<Rightarrow> close_each env ids)
   }"

fun drop_each :: "env \<Rightarrow> device_approval list \<Rightarrow> unit eng" where
  "drop_each env [] = ret ()"
| "drop_each env (a # as) = do {
     dropApproval env a ''Nobody approved the command in time, so it did not run.'' ''approval_expired'';
     drop_each env as
   }"

definition expireApprovals :: "env \<Rightarrow> unit eng" where
  "expireApprovals env = do {
     r \<leftarrow> sql_ok env (\<lambda>now db. ExpireApprovals now db);
     (case r of Inl _ \<Rightarrow> ret () | Inr expired \<Rightarrow> drop_each env expired)
   }"

fun expire_each :: "env \<Rightarrow> confirmation list \<Rightarrow> unit eng" where
  "expire_each env [] = ret ()"
| "expire_each env (c # cs) = do {
     (case cfTaskID c of
        None \<Rightarrow> ret ()
      | Some task \<Rightarrow> do {
          resume_task env task (completePending env (cfCallID c)
            (output_json [(''error'', VStr ''The user did not confirm in time; the action was not done.'')]));
          signal
        });
     expire_each env cs
   }"

text \<open>\<open>lastPurge\<close> is the loop's variable; the result is its new value.\<close>

definition maintenance :: "env \<Rightarrow> int \<Rightarrow> int eng" where
  "maintenance env lastPurge = do {
     closeAbandoned env;
     expireApprovals env;
     r \<leftarrow> sql_ok env (\<lambda>now db. ExpireConfirmations now db);
     (case r of Inl _ \<Rightarrow> ret () | Inr expired \<Rightarrow> expire_each env expired);
     now \<leftarrow> time_now env;
     if now - lastPurge > 3600000000 then do {
       sql_ok env (\<lambda>now db. PurgeNotifications now 86400000000 db);
       sql_ok env (\<lambda>now db. PurgeTranscripts now (opTranscriptRetention (eOpts env)) db);
       time_now env
     }
     else ret lastPurge
   }"

end
