(* ===== verification/EngineGuarantee.thy ===== *)
theory EngineGuarantee
  imports OrchSafety EngineMemory
begin

text \<open>
  What every operation of the engine guarantees the others, whatever they do within the same bounds:
  it changes the database only by the store's steps, adds to the calls made, and makes no call to a tool
  that is not read-only without a confirmed action that pays for it.  The bounds are transitive, so the guarantee of an operation follows from its statements and calls, by
  the rules of the locale \<open>io_relation\<close>; those with a precondition follow by the rules of \<open>sat\<close>.
\<close>

subsection \<open>Programs that stay within a relation\<close>

locale io_relation =
  fixes R :: "'s \<Rightarrow> 's \<Rightarrow> bool"
  assumes R_refl: "R s s"
    and R_trans: "R s t \<Longrightarrow> R t u \<Longrightarrow> R s u"
begin

definition sat :: "('s \<Rightarrow> bool) \<Rightarrow> ('s, 'a) state \<Rightarrow> ('a \<Rightarrow> 's \<Rightarrow> bool) \<Rightarrow> bool" where
  "sat P m Q \<longleftrightarrow> (\<forall>s. P s \<longrightarrow> R s (snd (run_state m s)) \<and> Q (fst (run_state m s)) (snd (run_state m s)))"

lemma io_return: "state_io_rel R (State_Monad.return x)"
  by (simp add: state_io_rel_def R_refl)

lemma io_bind: "state_io_rel R m \<Longrightarrow> (\<And>x. state_io_rel R (f x)) \<Longrightarrow> state_io_rel R (State_Monad.bind m f)"
  by (auto simp: state_io_rel_def split: prod.splits) (metis R_trans prod.collapse snd_conv)

lemma io_if: "(b \<Longrightarrow> state_io_rel R m) \<Longrightarrow> (\<not> b \<Longrightarrow> state_io_rel R n) \<Longrightarrow> state_io_rel R (if b then m else n)"
  by simp

lemma io_option: "(x = None \<Longrightarrow> state_io_rel R m) \<Longrightarrow> (\<And>y. x = Some y \<Longrightarrow> state_io_rel R (f y)) \<Longrightarrow>
    state_io_rel R (case x of None \<Rightarrow> m | Some y \<Rightarrow> f y)"
  by (cases x) auto

lemma io_sum: "(\<And>y. x = Inl y \<Longrightarrow> state_io_rel R (f y)) \<Longrightarrow> (\<And>y. x = Inr y \<Longrightarrow> state_io_rel R (g y)) \<Longrightarrow>
    state_io_rel R (case x of Inl y \<Rightarrow> f y | Inr y \<Rightarrow> g y)"
  by (cases x) auto

lemma io_prod: "(\<And>y z. x = (y, z) \<Longrightarrow> state_io_rel R (f y z)) \<Longrightarrow> state_io_rel R (case x of (y, z) \<Rightarrow> f y z)"
  by (cases x) auto

lemma io_list: "(x = [] \<Longrightarrow> state_io_rel R m) \<Longrightarrow> (\<And>y ys. x = y # ys \<Longrightarrow> state_io_rel R (f y ys)) \<Longrightarrow>
    state_io_rel R (case x of [] \<Rightarrow> m | y # ys \<Rightarrow> f y ys)"
  by (cases x) auto

lemma io_bool: "(x \<Longrightarrow> state_io_rel R m) \<Longrightarrow> (\<not> x \<Longrightarrow> state_io_rel R n) \<Longrightarrow>
    state_io_rel R (case x of True \<Rightarrow> m | False \<Rightarrow> n)"
  by (cases x) auto

lemma io_let: "(\<And>x. x = t \<Longrightarrow> state_io_rel R (f x)) \<Longrightarrow> state_io_rel R (let x = t in f x)"
  by simp

lemmas io_rules = io_return io_bind io_if io_option io_sum io_prod io_list io_bool io_let

text \<open>With a precondition, and a postcondition that the relation keeps.\<close>

lemma sat_io: "state_io_rel R m \<Longrightarrow> (\<And>s t. P s \<Longrightarrow> R s t \<Longrightarrow> Q t) \<Longrightarrow> sat P m (\<lambda>_. Q)"
  unfolding sat_def state_io_rel_def by blast

lemma sat_bind: "sat P m Q \<Longrightarrow> (\<And>x. sat (Q x) (f x) S) \<Longrightarrow> sat P (State_Monad.bind m f) S"
  by (auto simp: sat_def split: prod.splits) (metis R_trans fst_conv snd_conv)+

lemma sat_weaken: "sat P m Q \<Longrightarrow> (\<And>s. P' s \<Longrightarrow> P s) \<Longrightarrow> (\<And>x s. Q x s \<Longrightarrow> Q' x s) \<Longrightarrow> sat P' m Q'"
  unfolding sat_def by blast

lemma sat_return: "(\<And>s. P s \<Longrightarrow> Q x s) \<Longrightarrow> sat P (State_Monad.return x) Q"
  by (simp add: sat_def R_refl)

lemma sat_if: "(b \<Longrightarrow> sat P m Q) \<Longrightarrow> (\<not> b \<Longrightarrow> sat P n Q) \<Longrightarrow> sat P (if b then m else n) Q"
  by simp

lemma sat_option: "(x = None \<Longrightarrow> sat P m Q) \<Longrightarrow> (\<And>y. x = Some y \<Longrightarrow> sat P (f y) Q) \<Longrightarrow>
    sat P (case x of None \<Rightarrow> m | Some y \<Rightarrow> f y) Q"
  by (cases x) auto

lemma sat_sum: "(\<And>y. x = Inl y \<Longrightarrow> sat P (f y) Q) \<Longrightarrow> (\<And>y. x = Inr y \<Longrightarrow> sat P (g y) Q) \<Longrightarrow>
    sat P (case x of Inl y \<Rightarrow> f y | Inr y \<Rightarrow> g y) Q"
  by (cases x) auto

lemma sat_prod: "(\<And>y z. x = (y, z) \<Longrightarrow> sat P (f y z) Q) \<Longrightarrow> sat P (case x of (y, z) \<Rightarrow> f y z) Q"
  by (cases x) auto

lemma sat_io_rel: "sat (\<lambda>_. True) m Q \<Longrightarrow> state_io_rel R m"
  by (simp add: sat_def state_io_rel_def)

end

subsection \<open>What a call to a tool is, and what pays for it\<close>

text \<open>A call by its user, tool and arguments.\<close>

type_synonym tool_use = "string \<times> string \<times> string \<times> string \<times> string"

definition use_of :: "mcp_request \<Rightarrow> tool_use" where
  "use_of r = (mqTenantId r, mqUserId r, mqIntegrationId r, mqToolName r, mqArgumentsJson r)"

fun mcp_uses :: "external list \<Rightarrow> tool_use list" where
  "mcp_uses [] = []"
| "mcp_uses (McpCallTool r # xs) = use_of r # mcp_uses xs"
| "mcp_uses (_ # xs) = mcp_uses xs"

lemma mcp_uses_append [simp]: "mcp_uses (xs @ ys) = mcp_uses xs @ mcp_uses ys"
  by (induction xs rule: mcp_uses.induct) auto

text \<open>The tool sets offered to a user, in their conversations and for their tasks.\<close>

definition toolsets :: "orch_db \<Rightarrow> (string \<times> string \<times> toolset) set" where
  "toolsets db = (\<lambda>c. (coTenantID c, coUserID c, coTools c)) ` set (odConversations db)
     \<union> (\<lambda>r. (tkTenantID (trTask r), tkUserID (trTask r), tkTools (trTask r))) ` set (odTasks db)"

definition read_only_target :: "target \<Rightarrow> string \<Rightarrow> string \<Rightarrow> bool" where
  "read_only_target t integration tool \<longleftrightarrow>
     taKind t = kindMCP \<and> taReadOnly t \<and> taIntegrationID t = integration \<and> taTool t = tool"

definition read_only :: "orch_db \<Rightarrow> tool_use \<Rightarrow> bool" where
  "read_only db = (\<lambda>(tenant, user, integration, tool, args).
     \<exists>tools. (tenant, user, tools) \<in> toolsets db \<and> (\<exists>(n, t) \<in> set tools. read_only_target t integration tool))"

text \<open>The use a stored action stands for, for the owner of the conversation it is asked in.\<close>

definition action_use :: "string \<times> string \<Rightarrow> string \<Rightarrow> tool_use option" where
  "action_use = (\<lambda>(tenant, user) text. let (err, a) = decode_action text in
     if err \<or> acKind a \<noteq> kindMCP then None
     else Some (tenant, user, acIntegrationID a, acTool a, mcp_arguments (acArguments a)))"

definition confirmed :: "orch_db \<Rightarrow> tool_use \<Rightarrow> uuid set" where
  "confirmed db u = {i. \<exists>c ow. lookup cfID i (odConfirmations db) = Some c \<and> cfState c = Confirmed
     \<and> owner_of db (cfConversationID c) = Some ow \<and> action_use ow (cfAction c) = Some u}"

text \<open>The calls to tools that nothing says are read-only.\<close>

definition writes :: "world \<Rightarrow> tool_use \<Rightarrow> nat" where
  "writes w u = (if read_only (wDb w) u then 0 else count_list (mcp_uses (wCalls w)) u)"

subsection \<open>Store steps keep what was offered and what was confirmed\<close>

lemma image_update_where: "(\<And>r. P r \<Longrightarrow> g (f r) = g r) \<Longrightarrow> g ` set (update_where P f rows) = g ` set rows"
  by (induction rows) auto

lemma toolsets_step: "store_step db db' \<Longrightarrow> toolsets db \<subseteq> toolsets db'"
  by (erule store_step.cases)
    (auto simp: toolsets_def task_ops dialog_ops device_ops queue_ops image_update_where cancel_row_def
      update_first_def take_lease_def simp del: image_Un
      split: prod.splits option.splits list.splits if_splits sum.splits)

lemma toolsets_steps: "store_steps db db' \<Longrightarrow> toolsets db \<subseteq> toolsets db'"
  by (induction rule: rtranclp_induct) (auto dest: toolsets_step)

lemma read_only_steps: "store_steps db db' \<Longrightarrow> read_only db u \<Longrightarrow> read_only db' u"
  using toolsets_steps by (fastforce simp: read_only_def)

lemma confirmed_steps:
  assumes "store_steps db db'" "db_ok db"
  shows "confirmed db u \<subseteq> confirmed db' u"
proof
  fix i assume "i \<in> confirmed db u"
  then obtain c ow where c: "lookup cfID i (odConfirmations db) = Some c" "cfState c = Confirmed"
    "owner_of db (cfConversationID c) = Some ow" "action_use ow (cfAction c) = Some u" by (auto simp: confirmed_def)
  from confirmation_steps [OF assms c(1)] c show "i \<in> confirmed db' u"
    unfolding confirmed_def same_question_def by (simp del: split_paired_Ex) metis
qed

lemma finite_confirmed [simp]: "finite (confirmed db u)"
proof (rule finite_subset)
  show "confirmed db u \<subseteq> cfID ` set (odConfirmations db)" by (auto simp: confirmed_def dest: lookup_Some)
qed simp

lemma card_confirmed_steps:
  "store_steps db db' \<Longrightarrow> db_ok db \<Longrightarrow> card (confirmed db u) \<le> card (confirmed db' u)"
  by (simp add: card_mono confirmed_steps)

subsection \<open>The guarantee\<close>

text \<open>
  \<open>balanced paid left w w'\<close>: every write made between \<open>w\<close> and \<open>w'\<close> is paid for by a confirmation confirmed
  between them, or by one of those \<open>paid\<close> before, and those \<open>left\<close> can still be used.
\<close>

definition balanced :: "(tool_use \<Rightarrow> nat) \<Rightarrow> (tool_use \<Rightarrow> nat) \<Rightarrow> world \<Rightarrow> world \<Rightarrow> bool" where
  "balanced paid left w w' \<longleftrightarrow> (\<forall>u. writes w' u + card (confirmed (wDb w) u) + left u
     \<le> writes w u + card (confirmed (wDb w') u) + paid u)"

definition within :: "(tool_use \<Rightarrow> nat) \<Rightarrow> (tool_use \<Rightarrow> nat) \<Rightarrow> world \<Rightarrow> world \<Rightarrow> bool" where
  "within paid left w w' \<longleftrightarrow> (db_ok (wDb w) \<longrightarrow>
     store_steps (wDb w) (wDb w') \<and> (\<exists>xs. wCalls w' = wCalls w @ xs) \<and> balanced paid left w w')"

definition guarantee :: "world \<Rightarrow> world \<Rightarrow> bool" where
  "guarantee = within (\<lambda>_. 0) (\<lambda>_. 0)"

lemma within_trans: "within p q w w' \<Longrightarrow> within q r w' w'' \<Longrightarrow> within p r w w''"
proof -
  assume w: "within p q w w'" and w': "within q r w' w''"
  show "within p r w w''"
    unfolding within_def
  proof (intro impI)
    assume ok: "db_ok (wDb w)"
    with w have 1: "store_steps (wDb w) (wDb w')" "\<exists>xs. wCalls w' = wCalls w @ xs" "balanced p q w w'" by (auto simp: within_def)
    then have "db_ok (wDb w')" using db_ok_steps ok by blast
    with w' have 2: "store_steps (wDb w') (wDb w'')" "\<exists>xs. wCalls w'' = wCalls w' @ xs" "balanced q r w' w''" by (auto simp: within_def)
    have "balanced p r w w''"
      unfolding balanced_def
    proof
      fix u
      from 1(3) 2(3) have "writes w' u + card (confirmed (wDb w) u) + q u \<le> writes w u + card (confirmed (wDb w') u) + p u"
        "writes w'' u + card (confirmed (wDb w') u) + r u \<le> writes w' u + card (confirmed (wDb w'') u) + q u"
        unfolding balanced_def by blast+
      then show "writes w'' u + card (confirmed (wDb w) u) + r u \<le> writes w u + card (confirmed (wDb w'') u) + p u" by linarith
    qed
    with 1 2 show "store_steps (wDb w) (wDb w'') \<and> (\<exists>xs. wCalls w'' = wCalls w @ xs) \<and> balanced p r w w''"
      by (auto intro: rtranclp_trans)
  qed
qed

lemma guarantee_refl: "guarantee w w"
  by (simp add: guarantee_def within_def balanced_def)

lemma guarantee_trans: "guarantee w w' \<Longrightarrow> guarantee w' w'' \<Longrightarrow> guarantee w w''"
  unfolding guarantee_def by (rule within_trans)

interpretation eng: io_relation guarantee
  by unfold_locales (auto intro: guarantee_refl guarantee_trans)

lemma guarantee_ok: "guarantee w w' \<Longrightarrow> db_ok (wDb w) \<Longrightarrow> db_ok (wDb w')"
  by (auto simp: guarantee_def within_def intro: db_ok_steps)

text \<open>A change of the database alone, or of neither the database nor the calls.\<close>

lemma writes_steps:
  "store_steps (wDb w) (wDb w') \<Longrightarrow> wCalls w' = wCalls w \<Longrightarrow> writes w' u \<le> writes w u"
  by (auto simp: writes_def read_only_steps)

lemma guarantee_db:
  "(db_ok (wDb w) \<Longrightarrow> store_steps (wDb w) (wDb w')) \<Longrightarrow> wCalls w' = wCalls w \<Longrightarrow> guarantee w w'"
  by (auto simp: guarantee_def within_def balanced_def intro!: add_mono writes_steps card_confirmed_steps)

lemma guarantee_same: "wDb w' = wDb w \<Longrightarrow> wCalls w' = wCalls w \<Longrightarrow> guarantee w w'"
  by (rule guarantee_db) auto

text \<open>A call that is not one to a tool of an integration.\<close>

lemma guarantee_call:
  "wDb w' = wDb w \<Longrightarrow> wCalls w' = wCalls w @ [x] \<Longrightarrow> mcp_uses [x] = [] \<Longrightarrow> guarantee w w'"
  by (auto simp: guarantee_def within_def balanced_def writes_def)

text \<open>A call to a tool: it needs a read-only tool, or one of the writes paid for.\<close>

lemma guarantee_read:
  "wDb w' = wDb w \<Longrightarrow> wCalls w' = wCalls w @ [McpCallTool r] \<Longrightarrow> read_only (wDb w) (use_of r) \<Longrightarrow> guarantee w w'"
  by (auto simp: guarantee_def within_def balanced_def writes_def)

lemma within_write:
  "wDb w' = wDb w \<Longrightarrow> wCalls w' = wCalls w @ [McpCallTool r] \<Longrightarrow>
   within (\<lambda>u. if u = use_of r then 1 else 0) (\<lambda>_. 0) w w'"
  by (auto simp: within_def balanced_def writes_def)

subsection \<open>The others\<close>

text \<open>
  They keep to the same guarantee, and ask about no confirmation whose id this operation drew.
\<close>

definition rely :: "env \<Rightarrow> bool" where
  "rely env \<longleftrightarrow> (\<forall>k w. guarantee w (eOthers env k w) \<and>
     (db_ok (wDb w) \<longrightarrow> (\<forall>n. eUUID env n \<in> set (questions (odEvents (wDb (eOthers env k w))))
        \<longrightarrow> eUUID env n \<in> set (questions (odEvents (wDb w))))))"

lemma rely_request_id [simp]: "rely (env\<lparr>eRequestID := i\<rparr>) = rely env"
  by (simp add: rely_def)

lemma sql_run:
  assumes "rely env"
  obtains w1 now where "guarantee w w1"
    "db_ok (wDb w) \<Longrightarrow> \<forall>n. eUUID env n \<in> set (questions (odEvents (wDb w1))) \<longrightarrow> eUUID env n \<in> set (questions (odEvents (wDb w)))"
    "wCalls (snd (run_state (sql env f) w)) = wCalls w1"
    "run_state (sql env f) w = (fst (f now (wDb w1)), w1\<lparr>wDb := snd (f now (wDb w1))\<rparr>)
     \<or> fst (run_state (sql env f) w) = Inl ErrUnavailable \<and>
       (wDb (snd (run_state (sql env f) w)) = wDb w1 \<or> wDb (snd (run_state (sql env f) w)) = snd (f now (wDb w1)))"
proof (rule that [of "(eOthers env (wTick w) w)\<lparr>wTick := Suc (wTick w)\<rparr>" "eClock env (wTick w)"])
  let ?w0 = "eOthers env (wTick w) w"
  have "guarantee w ?w0" using assms by (simp add: rely_def)
  moreover have "guarantee ?w0 (?w0\<lparr>wTick := Suc (wTick w)\<rparr>)" by (rule guarantee_same) auto
  ultimately show "guarantee w (?w0\<lparr>wTick := Suc (wTick w)\<rparr>)" by (rule guarantee_trans)
qed (use assms in \<open>auto simp: sql_def rely_def Let_def split: prod.splits fault.splits\<close>)

lemma sql_guarantee:
  assumes "rely env" "\<And>now db. db_ok db \<Longrightarrow> store_steps db (snd (f now db))"
  shows "state_io_rel guarantee (sql env f)"
  unfolding state_io_rel_def
proof
  fix w
  obtain w1 now where w1: "guarantee w w1" "wCalls (snd (run_state (sql env f) w)) = wCalls w1"
    "run_state (sql env f) w = (fst (f now (wDb w1)), w1\<lparr>wDb := snd (f now (wDb w1))\<rparr>)
     \<or> fst (run_state (sql env f) w) = Inl ErrUnavailable \<and>
       (wDb (snd (run_state (sql env f) w)) = wDb w1 \<or> wDb (snd (run_state (sql env f) w)) = snd (f now (wDb w1)))"
    using sql_run [OF assms(1)] by metis
  have "guarantee w1 (snd (run_state (sql env f) w))"
    using w1(2,3) assms(2) by (intro guarantee_db) auto
  with w1(1) show "guarantee w (snd (run_state (sql env f) w))" by (rule guarantee_trans)
qed

end
