(* ===== verification/EngineOps.thy ===== *)
theory EngineOps
  imports EngineGuarantee
begin

text \<open>
  Every operation of the engine keeps the guarantee, from the primitive steps up to the handlers and the
  worker loops.  The operations that call tools of integrations need more than the rules: a read-only
  tool must have been offered to the user, and the action of a confirmation is run once for the
  confirmation that was just confirmed.
\<close>

named_theorems io \<open>operations that keep the guarantee\<close>

subsection \<open>Cases\<close>

lemma io_store_error:
  "state_io_rel R m \<Longrightarrow> state_io_rel R n \<Longrightarrow> (\<And>s. state_io_rel R (f s)) \<Longrightarrow> state_io_rel R p \<Longrightarrow>
   state_io_rel R (case x of ErrNotFound \<Rightarrow> m | ErrConstraint \<Rightarrow> n | ErrUpdate s \<Rightarrow> f s | ErrUnavailable \<Rightarrow> p)"
  by (cases x) auto

lemma io_key_answer:
  "state_io_rel R m \<Longrightarrow> (\<And>e. state_io_rel R (f e)) \<Longrightarrow> (\<And>k. state_io_rel R (g k)) \<Longrightarrow>
   state_io_rel R (case x of NoKey \<Rightarrow> m | KeyError e \<Rightarrow> f e | Key k \<Rightarrow> g k)"
  by (cases x) auto

lemma io_exec_response:
  "(\<And>r. state_io_rel R (f r)) \<Longrightarrow> (\<And>a. state_io_rel R (g a)) \<Longrightarrow> state_io_rel R m \<Longrightarrow>
   state_io_rel R (case x of ExecResult r \<Rightarrow> f r | ApprovalRequired a \<Rightarrow> g a | NoOutcome \<Rightarrow> m)"
  by (cases x) auto

lemma io_pause:
  "(\<And>s a. state_io_rel R (f s a)) \<Longrightarrow> (\<And>s d. state_io_rel R (g s d)) \<Longrightarrow>
   state_io_rel R (case x of NeedsConfirmation s a \<Rightarrow> f s a | NeedsApproval s d \<Rightarrow> g s d)"
  by (cases x) auto

lemma io_decide_error:
  "(\<And>s. state_io_rel R (f s)) \<Longrightarrow> state_io_rel R m \<Longrightarrow>
   state_io_rel R (case x of Permanent s \<Rightarrow> f s | Transient \<Rightarrow> m)"
  by (cases x) auto

lemmas io_cases = eng.io_rules io_store_error io_key_answer io_exec_response io_pause io_decide_error

subsection \<open>Primitive steps\<close>

lemma io_tick [io]: "state_io_rel guarantee tick"
  by (simp add: tick_def state_io_rel_def guarantee_same)

lemma io_reads [io]:
  "state_io_rel guarantee (time_now env)" "state_io_rel guarantee (new_uuid env)" "state_io_rel guarantee (ctx_done env)"
  unfolding time_now_def new_uuid_def ctx_done_def by (intro io_cases io_tick)+

lemma io_broker [io]:
  "state_io_rel guarantee (subscribe i)" "state_io_rel guarantee (unsubscribe i ch)" "state_io_rel guarantee (wake_topic i)"
  "state_io_rel guarantee (receive i ch)" "state_io_rel guarantee signal" "state_io_rel guarantee take_wake"
  by (simp_all add: state_io_rel_def guarantee_same subscribe_def unsubscribe_def wake_topic_def receive_def signal_def take_wake_def)

lemma io_call [io]: "mcp_uses [x] = [] \<Longrightarrow> state_io_rel guarantee (call x answer)"
  by (simp add: call_def state_io_rel_def guarantee_call)

lemma io_sql [io]: "rely env \<Longrightarrow> (\<And>now db. store_step db (snd (f now db))) \<Longrightarrow> state_io_rel guarantee (sql env f)"
  by (rule sql_guarantee) auto

lemma io_sql_ok [io]: "rely env \<Longrightarrow> (\<And>now db. store_step db (snd (f now db))) \<Longrightarrow> state_io_rel guarantee (sql_ok env f)"
  unfolding sql_ok_def by (rule sql_guarantee) (auto split: prod.splits, metis r_into_rtranclp snd_conv)

lemma io_sql_do [io]: "rely env \<Longrightarrow> (\<And>now db. store_step db (f now db)) \<Longrightarrow> state_io_rel guarantee (sql_do env f)"
  unfolding sql_do_def by (rule sql_guarantee) auto

lemma io_sql_query [io]: "rely env \<Longrightarrow> state_io_rel guarantee (sql_query env f)"
  unfolding sql_query_def by (rule sql_guarantee) auto

subsection \<open>Statements on tasks and confirmations\<close>

lemma jsonb_task_keeps: "jsonb_task env t = Some t' \<Longrightarrow> tkID t' = tkID t \<and> tkState t' = tkState t"
  by (auto simp: jsonb_task_def split: option.splits)

lemma io_with_task:
  assumes "rely env" "\<And>now t' db. tkState t' = tkState t \<Longrightarrow> store_step db (snd (f now t' db))"
  shows "state_io_rel guarantee (with_task env t f)"
  unfolding with_task_def using assms
  by (intro sql_guarantee) (auto split: option.splits dest!: jsonb_task_keeps)

lemma io_create_task [io]: "rely env \<Longrightarrow> tkState t \<noteq> TaskRunning \<Longrightarrow> state_io_rel guarantee (create_task env t)"
  unfolding create_task_def by (intro io_with_task store_step.CreateTask) auto

lemma io_save_progress [io]: "rely env \<Longrightarrow> state_io_rel guarantee (save_progress env t owner)"
  unfolding save_progress_def using store_step.SaveProgress
  by (intro io_with_task) (auto split: prod.splits, metis snd_conv)

lemma io_set_task_state [io]:
  "rely env \<Longrightarrow> st \<noteq> TaskRunning \<Longrightarrow> state_io_rel guarantee (set_task_state env t owner st res)"
  unfolding set_task_state_def using store_step.SetTaskState
  by (intro io_with_task) (auto split: prod.splits, metis snd_conv)

lemma resumes_jsonb: "resumes update \<Longrightarrow> resumes (jsonb_update env update)"
  unfolding resumes_def jsonb_update_def by (auto split: sum.splits option.splits dest!: jsonb_task_keeps) (metis sum.inject(2))

lemma io_resume_task [io]: "rely env \<Longrightarrow> resumes update \<Longrightarrow> state_io_rel guarantee (resume_task env i update)"
  unfolding resume_task_def by (intro io_sql store_step.ResumeTask resumes_jsonb)

lemma resumes_completePending [io]: "resumes (completePending env callID out)"
  by (auto simp: resumes_def completePending_def split: option.splits list.splits if_splits)

lemma resumes_drop_update [io]: "resumes (drop_update env callID why)"
  using resumes_completePending by (fastforce simp: resumes_def drop_update_def split: if_splits)

lemma resumes_approve_update [io]: "resumes (approve_update env callID out)"
  using resumes_completePending by (fastforce simp: resumes_def approve_update_def split: if_splits)

lemma io_create_confirmation [io]: "rely env \<Longrightarrow> state_io_rel guarantee (create_confirmation env c)"
  unfolding create_confirmation_def by (intro sql_guarantee) (auto split: option.splits intro: store_step.CreateConfirmation)

lemma io_save_approval [io]: "rely env \<Longrightarrow> state_io_rel guarantee (save_approval env a)"
  unfolding save_approval_def by (intro sql_guarantee) (auto split: option.splits intro: store_step.SaveApproval)

subsection \<open>Events, notifications, memory\<close>

lemma asks_own_None [simp]: "asks_own db i None"
  by (simp add: asks_own_def)

lemma io_emit [io]: "rely env \<Longrightarrow> state_io_rel guarantee (emit env conversation ev message None)"
  unfolding emit_def by (intro io_cases io store_step.AddEvent asks_own_None)

lemma io_notify [io]: "rely env \<Longrightarrow> state_io_rel guarantee (notify env t kind)"
  unfolding notify_def by (intro io_cases io store_step.AddNotification)

lemma io_claim_loop [io]:
  assumes "rely env"
  shows "state_io_rel guarantee (claim_loop n env consumer mx deadline ch)"
proof (induction n)
  case (Suc n)
  show ?case unfolding claim_loop.simps by (intro io_cases io store_step.ClaimNotifications assms Suc.IH)
qed (simp add: eng.io_return)

lemma io_ClaimNotifications [io]: "rely env \<Longrightarrow> state_io_rel guarantee (Engine_ClaimNotifications n env consumer mx wait)"
  unfolding Engine_ClaimNotifications_def by (intro io_cases io)

lemma io_send_events [io]: "state_io_rel guarantee (send_events env send evs cursor sent)"
proof (induction evs arbitrary: cursor sent)
  case (Cons ev evs)
  show ?case unfolding send_events.simps by (intro io_cases io Cons.IH)
qed (simp add: eng.io_return)

lemma io_watch_loop [io]:
  assumes "rely env"
  shows "state_io_rel guarantee (watch_loop n env send conversation ch cursor sent)"
proof (induction n arbitrary: cursor sent)
  case (Suc n)
  show ?case unfolding watch_loop.simps by (intro io_cases io assms Suc.IH)
qed (simp add: eng.io_return)

lemma io_Watch [io]: "rely env \<Longrightarrow> state_io_rel guarantee (Watch n env send conversation after)"
  unfolding Watch_def by (intro io_cases io)

lemma io_audit [io]: "state_io_rel guarantee (audit env tenant user who act tt ti out reason details)"
  unfolding audit_def by (intro io) simp

lemma io_finished [io]: "rely env \<Longrightarrow> state_io_rel guarantee (finished env t)"
  unfolding finished_def by (intro io_cases io)

lemma io_memoryWorker [io]: "rely env \<Longrightarrow> state_io_rel guarantee (memoryWorker env)"
  unfolding memoryWorker_def extractMemory_def extract_turns_def remember_extracted_def
  by (intro io_cases io store_step.LeaseMemoryJob store_step.FinishMemoryJob) simp_all

lemma io_dropApproval [io]: "rely env \<Longrightarrow> state_io_rel guarantee (dropApproval env a why reason)"
  unfolding dropApproval_def by (intro io_cases io store_step.DeleteApproval)

lemma io_each [io]:
  assumes "rely env"
  shows "state_io_rel guarantee (close_each env ids)" "state_io_rel guarantee (drop_each env as)"
    "state_io_rel guarantee (expire_each env cs)"
proof -
  show "state_io_rel guarantee (close_each env ids)"
  proof (induction ids)
    case (Cons i js)
    show ?case unfolding close_each.simps by (intro io_cases io store_step.QueueMemoryJob assms Cons.IH)
  qed (simp add: eng.io_return)
  show "state_io_rel guarantee (drop_each env as)"
  proof (induction as)
    case (Cons a as)
    show ?case unfolding drop_each.simps by (intro io_cases io assms Cons.IH)
  qed (simp add: eng.io_return)
  show "state_io_rel guarantee (expire_each env cs)"
  proof (induction cs)
    case (Cons c cs)
    show ?case unfolding expire_each.simps by (intro io_cases io assms Cons.IH)
  qed (simp add: eng.io_return)
qed

lemma io_maintenance [io]: "rely env \<Longrightarrow> state_io_rel guarantee (maintenance env lastPurge)"
  unfolding maintenance_def closeAbandoned_def expireApprovals_def
  by (intro io_cases io store_step.intros)

subsection \<open>Conversations\<close>

lemma io_build_catalog [io]: "rely env \<Longrightarrow> state_io_rel guarantee (build_catalog env tenant user voice)"
  unfolding build_catalog_def by (intro io_cases io) simp_all

lemma io_openConversation [io]: "rely env \<Longrightarrow> state_io_rel guarantee (openConversation env i)"
  unfolding openConversation_def by (intro io_cases io)

lemma io_RecordTurn [io]: "rely env \<Longrightarrow> state_io_rel guarantee (Engine_RecordTurn env i role itemID turn text)"
  unfolding Engine_RecordTurn_def by (intro io_cases io store_step.AdvanceTurn store_step.RecordTurn)

lemma io_Close [io]: "rely env \<Longrightarrow> state_io_rel guarantee (Close env i)"
  unfolding Close_def by (intro io_cases io store_step.CloseConversation store_step.QueueMemoryJob)

lemma io_Ack [io]: "rely env \<Longrightarrow> state_io_rel guarantee (Ack env i eventID turn)"
  unfolding Ack_def by (intro io_cases io store_step.AckEvent store_step.MarkAsked)

lemma io_AckToolOutput [io]: "rely env \<Longrightarrow> state_io_rel guarantee (AckToolOutput env i callID turn)"
  unfolding AckToolOutput_def by (intro io_cases io store_step.MarkCallAsked)

lemma io_askConfirmation [io]: "rely env \<Longrightarrow> state_io_rel guarantee (askConfirmation env c summary a)"
  unfolding askConfirmation_def by (intro io_cases io)

lemma io_refuse [io]: "rely env \<Longrightarrow> state_io_rel guarantee (refuse env c i confirm)"
  unfolding refuse_def by (intro io_cases io)

lemma io_taskIntro [io]: "rely env \<Longrightarrow> state_io_rel guarantee (taskIntro env c goal)"
  unfolding taskIntro_def by (intro io_cases io) simp_all

lemma io_startTask [io]: "rely env \<Longrightarrow> state_io_rel guarantee (startTask env c goal)"
  unfolding startTask_def by (intro io_cases io) simp_all

lemma io_approvalExpiry [io]: "state_io_rel guarantee (approvalExpiry env req)"
  unfolding approvalExpiry_def by (intro io_cases io)

lemma io_saveApproval [io]: "rely env \<Longrightarrow> state_io_rel guarantee (Engine_saveApproval env i callID p)"
  unfolding Engine_saveApproval_def by (intro io_cases io)

lemma io_awaitApproval [io]: "rely env \<Longrightarrow> state_io_rel guarantee (awaitApproval env c summary p)"
  unfolding awaitApproval_def audit_approval_def by (intro io_cases io) simp_all

lemma io_execDevice [io]: "state_io_rel guarantee (execDevice env c dev cmd approval)"
  unfolding execDevice_def by (intro io_cases io) simp_all

lemma io_SubmitApproval [io]: "rely env \<Longrightarrow> state_io_rel guarantee (SubmitApproval env tenant user approvalID approverID signature)"
  unfolding SubmitApproval_def run_approved_def auditCommand_def
  by (intro io_cases io store_step.DeleteApproval)

lemma io_Cancel [io]: "rely env \<Longrightarrow> state_io_rel guarantee (Cancel env tenant user i)"
  unfolding Cancel_def by (intro io_cases io store_step.CancelTask)

subsection \<open>What an operation knows of the database\<close>

text \<open>A fact about the database that no store step makes false, known once it has been read.\<close>

definition lasting :: "(orch_db \<Rightarrow> bool) \<Rightarrow> bool" where
  "lasting phi \<longleftrightarrow> (\<forall>db db'. db_ok db \<longrightarrow> store_steps db db' \<longrightarrow> phi db \<longrightarrow> phi db')"

definition known :: "(orch_db \<Rightarrow> bool) \<Rightarrow> world \<Rightarrow> bool" where
  "known phi w \<longleftrightarrow> db_ok (wDb w) \<and> phi (wDb w)"

lemma known_stable: "lasting phi \<Longrightarrow> known phi w \<Longrightarrow> guarantee w w' \<Longrightarrow> known phi w'"
  by (auto simp: known_def lasting_def guarantee_def within_def intro: db_ok_steps)

lemma sat_known: "state_io_rel guarantee m \<Longrightarrow> lasting phi \<Longrightarrow> eng.sat (known phi) m (\<lambda>_. known phi)"
  by (rule eng.sat_io) (auto intro: known_stable)

lemma sat_any: "state_io_rel guarantee m \<Longrightarrow> eng.sat P m (\<lambda>_ _. True)"
  by (rule eng.sat_io) auto

lemma io_known: "eng.sat (known (\<lambda>_. True)) m Q \<Longrightarrow> state_io_rel guarantee m"
proof -
  assume s: "eng.sat (known (\<lambda>_. True)) m Q"
  have "guarantee w (snd (run_state m w))" for w
  proof (cases "db_ok (wDb w)")
    case True
    with s show ?thesis by (simp add: eng.sat_def known_def)
  qed (simp add: guarantee_def within_def)
  then show ?thesis by (simp add: state_io_rel_def)
qed

lemma sat_sql:
  assumes "rely env" "lasting phi"
    and "\<And>now db. db_ok db \<Longrightarrow> phi db \<Longrightarrow> store_steps db (snd (f now db))"
    and "\<And>now db r. db_ok db \<Longrightarrow> phi db \<Longrightarrow> fst (f now db) = Inr r \<Longrightarrow> psi r (snd (f now db))"
  shows "eng.sat (known phi) (sql env f) (\<lambda>r w. case r of Inl _ \<Rightarrow> known phi w | Inr x \<Rightarrow> known (\<lambda>db. phi db \<and> psi x db) w)"
  unfolding eng.sat_def
proof (intro allI impI)
  fix w assume w: "known phi w"
  let ?r = "run_state (sql env f) w"
  obtain w1 now where w1: "guarantee w w1" "wCalls (snd ?r) = wCalls w1"
    and run: "?r = (fst (f now (wDb w1)), w1\<lparr>wDb := snd (f now (wDb w1))\<rparr>)
     \<or> fst ?r = Inl ErrUnavailable \<and> (wDb (snd ?r) = wDb w1 \<or> wDb (snd ?r) = snd (f now (wDb w1)))"
    using sql_run [OF assms(1)] by metis
  have k: "known phi w1" using known_stable [OF assms(2) w w1(1)] .
  have "guarantee w1 (snd ?r)"
    using w1(2) run k assms(3) by (intro guarantee_db) (auto simp: known_def)
  with w1(1) have g: "guarantee w (snd ?r)" by (rule guarantee_trans)
  moreover have "known phi (snd ?r)" using known_stable [OF assms(2) w g] .
  moreover have "psi x (wDb (snd ?r))" if "fst ?r = Inr x" for x
    using that run k assms(4) by (auto simp: known_def)
  ultimately show "guarantee w (snd ?r) \<and> (case fst ?r of Inl _ \<Rightarrow> known phi (snd ?r) | Inr x \<Rightarrow> known (\<lambda>db. phi db \<and> psi x db) (snd ?r))"
    by (auto simp: known_def split: sum.splits)
qed

lemma lasting_toolset: "lasting (\<lambda>db. x \<in> toolsets db)"
  unfolding lasting_def using toolsets_steps by blast

lemma owner_of_steps: "store_steps db db' \<Longrightarrow> owner_of db i = Some ow \<Longrightarrow> owner_of db' i = Some ow"
  by (induction rule: rtranclp_induct) (auto intro: owner_of_step)

lemma lasting_owner: "lasting (\<lambda>db. owner_of db i = Some ow)"
  unfolding lasting_def using owner_of_steps by blast

lemma lasting_conj: "lasting f \<Longrightarrow> lasting g \<Longrightarrow> lasting (\<lambda>db. f db \<and> g db)"
  unfolding lasting_def by blast

lemma lasting_True [simp]: "lasting (\<lambda>_. True)"
  by (simp add: lasting_def)

subsection \<open>Calls to the tools of integrations\<close>

lemma use_of_request [simp]:
  "use_of (mcp_request_of env c integration tool args) = (caTenant c, caUser c, integration, tool, mcp_arguments args)"
  by (simp add: use_of_def mcp_request_of_def)

lemma sat_callMCP:
  "eng.sat (known (\<lambda>db. read_only db (caTenant c, caUser c, integration, tool, mcp_arguments args)))
     (callMCP env c integration name tool args) (\<lambda>_ _. True)"
  unfolding callMCP_def Let_def eng.sat_def
  by (auto simp: call_def known_def intro!: guarantee_read)

lemma read_only_offered:
  "(tenant, user, tools) \<in> toolsets db \<Longrightarrow> map_of tools name = Some t \<Longrightarrow> taKind t = kindMCP \<Longrightarrow> taReadOnly t \<Longrightarrow>
   read_only db (tenant, user, taIntegrationID t, taTool t, args)"
  by (force simp: read_only_def read_only_target_def dest: map_of_SomeD)

lemma io_tools [io]: "state_io_rel guarantee (recall env c query)" "state_io_rel guarantee (remember env c note)"
  unfolding recall_def remember_def by (intro io_cases io; simp)+

lemma io_runDevice [io]: "rely env \<Longrightarrow> state_io_rel guarantee (runDevice env c raw)"
  unfolding runDevice_def auditCommand_def by (intro io_cases io)

lemma sat_execute:
  assumes "rely env" "map_of tools name = Some tgt"
  shows "eng.sat (known (\<lambda>db. (caTenant c, caUser c, tools) \<in> toolsets db)) (execute env c tgt args) (\<lambda>_ _. True)"
proof (cases "taKind tgt = kindMCP \<and> taReadOnly tgt")
  case True
  have k: "taKind tgt \<noteq> ToolRecall" "taKind tgt \<noteq> ToolRemember" "taKind tgt \<noteq> ToolDevice"
    using True by (auto simp: kindMCP_def ToolRecall_def ToolRemember_def ToolDevice_def)
  have "eng.sat (known (\<lambda>db. (caTenant c, caUser c, tools) \<in> toolsets db))
      (callMCP env c (taIntegrationID tgt) (taIntegration tgt) (taTool tgt) args) (\<lambda>_ _. True)"
    by (rule eng.sat_weaken [OF sat_callMCP]) (use True assms(2) in \<open>auto simp: known_def intro: read_only_offered\<close>)
  then show ?thesis
    unfolding execute_def dispatch_def using True k by (auto intro!: eng.sat_bind eng.sat_return)
next
  case False
  show ?thesis
    unfolding execute_def dispatch_def
    by (rule sat_any, intro io_cases io assms(1)) (use False in auto)
qed

subsection \<open>Settling a confirmation\<close>

lemma io_within_bind:
  "state_io_rel (within p q) m \<Longrightarrow> (\<And>x. state_io_rel (within q r) (f x)) \<Longrightarrow> state_io_rel (within p r) (State_Monad.bind m f)"
  by (auto simp: state_io_rel_def split: prod.splits) (metis within_trans prod.collapse snd_conv)

lemma within_frame: "guarantee w w' \<Longrightarrow> within p p w w'"
  by (auto simp: guarantee_def within_def balanced_def simp del: split_paired_All)

lemma within_spend: "within p q w w' \<Longrightarrow> within p (\<lambda>_. 0) w w'"
  unfolding within_def balanced_def by (metis add_leE add.right_neutral)

lemma io_frame: "state_io_rel guarantee m \<Longrightarrow> state_io_rel (within p p) m"
  by (auto simp: state_io_rel_def within_frame)

lemma io_spend: "state_io_rel guarantee m \<Longrightarrow> state_io_rel (within p (\<lambda>_. 0)) m"
  by (auto simp: state_io_rel_def intro: within_spend within_frame)

text \<open>What a confirmation that was just confirmed pays for.\<close>

definition credit :: "string \<times> string \<Rightarrow> bool \<Rightarrow> confirmation \<Rightarrow> tool_use \<Rightarrow> nat" where
  "credit ow confirm conf u = (if confirm \<and> action_use ow (cfAction conf) = Some u then 1 else 0)"

lemma io_runAction:
  assumes "decode_action (cfAction conf) = (False, a)"
  shows "state_io_rel (within (credit (caTenant c, caUser c) True conf) (\<lambda>_. 0)) (runAction env c a)"
proof (cases "acKind a = kindMCP")
  case False
  then show ?thesis unfolding runAction_def by (simp add: io_spend eng.io_return)
next
  case True
  let ?req = "mcp_request_of env c (acIntegrationID a) (acTool a) (acArguments a)"
  have cr: "credit (caTenant c, caUser c) True conf = (\<lambda>u. if u = use_of ?req then 1 else 0)"
    using True assms by (auto simp: credit_def action_use_def)
  have call: "state_io_rel (within (credit (caTenant c, caUser c) True conf) (\<lambda>_. 0)) (call (McpCallTool ?req) answer)"
    for answer :: "nat \<Rightarrow> (rpc_error, mcp_response) result"
    unfolding cr by (simp add: state_io_rel_def call_def within_write del: use_of_request)
  have "state_io_rel (within (credit (caTenant c, caUser c) True conf) (\<lambda>_. 0)) (callMCP env c (acIntegrationID a) (acIntegration a) (acTool a) (acArguments a))"
    unfolding callMCP_def Let_def by (rule io_within_bind [OF call io_spend [OF eng.io_return]])
  with True show ?thesis by (simp add: runAction_def)
qed

lemma io_settled:
  assumes "rely env"
  shows "state_io_rel (within (credit (caTenant c, caUser c) confirm conf) (\<lambda>_. 0)) (settled env c i confirm conf)"
proof -
  obtain err a where a: "decode_action (cfAction conf) = (err, a)" by fastforce
  have rest: "state_io_rel (within (\<lambda>_. 0) (\<lambda>_. 0)) (case cfTaskID conf of None \<Rightarrow> ret (res :: string \<times> bool)
      | Some task \<Rightarrow> State_Monad.bind (resume_task env task (completePending env (cfCallID conf) out)) (\<lambda>_. State_Monad.bind signal (\<lambda>_. ret res')))"
    for res out res'
    unfolding guarantee_def [symmetric] by (intro io_cases io assms)
  show ?thesis
  proof (cases "err \<or> \<not> confirm")
    case True
    then show ?thesis
      unfolding settled_def a Let_def prod.case
      by (intro io_within_bind [OF io_frame [OF io_audit]] io_spend) (auto intro!: io_cases io assms)
  next
    case False
    with a have "state_io_rel (within (credit (caTenant c, caUser c) confirm conf) (\<lambda>_. 0)) (runAction env c a)"
      using io_runAction [of conf a c env] by simp
    with False show ?thesis
      unfolding settled_def a Let_def prod.case
      by (intro io_within_bind [OF io_frame [OF io_audit]]) (auto intro!: io_within_bind rest)
  qed
qed

lemma settle_pays:
  assumes "rely env" "known (\<lambda>db. owner_of db conv = Some ow) w"
    and run: "run_state (sql env (\<lambda>now db. Settle now conv i n confirm db)) w = (Inr conf, w')"
  shows "within (\<lambda>_. 0) (credit ow confirm conf) w w'"
proof -
  obtain w1 now where w1: "guarantee w w1" and w': "Settle now conv i n confirm (wDb w1) = (Inr conf, wDb w')" "wCalls w' = wCalls w1"
    using sql_run [OF assms(1), of w "\<lambda>now db. Settle now conv i n confirm db"] run
    by (metis (no_types, lifting) fst_conv old.sum.distinct(1) prod.collapse snd_conv world.select_convs(1) world.surjective world.update_convs(1))
  have k: "db_ok (wDb w1)" "owner_of (wDb w1) conv = Some ow"
    using known_stable [OF lasting_owner assms(2) w1] by (auto simp: known_def)
  have st: "store_steps (wDb w1) (wDb w')" using store_step.Settle [of "wDb w1" now conv i n confirm] w'(1) by auto
  from Settle_lookup [OF k(1) w'(1)] obtain c0 where
    c0: "lookup cfID i (odConfirmations (wDb w1)) = Some c0" "settleable now conv i n (if confirm then Confirmed else Cancelled) c0"
      "conf = c0\<lparr>cfState := if confirm then Confirmed else Cancelled\<rparr>" "lookup cfID i (odConfirmations (wDb w')) = Some conf" by blast
  have pays: "card (confirmed (wDb w1) u) + credit ow confirm conf u \<le> card (confirmed (wDb w') u)" for u
  proof (cases "confirm \<and> action_use ow (cfAction conf) = Some u")
    case True
    with c0 have "cfConversationID conf = conv" "cfState conf = Confirmed" by (auto simp: settleable_def)
    with c0(4) True owner_of_steps [OF st k(2)] have "i \<in> confirmed (wDb w') u" unfolding confirmed_def by (cases ow) auto
    moreover have "i \<notin> confirmed (wDb w1) u" using c0(1,2) by (auto simp: confirmed_def settleable_def)
    moreover note confirmed_steps [OF st k(1), of u]
    ultimately have "card (insert i (confirmed (wDb w1) u)) \<le> card (confirmed (wDb w') u)" by (intro card_mono) auto
    with \<open>i \<notin> confirmed (wDb w1) u\<close> True show ?thesis by (simp add: credit_def)
  next
    case False
    then show ?thesis using card_confirmed_steps [OF st k(1)] by (auto simp: credit_def)
  qed
  have "writes w' u + card (confirmed (wDb w1) u) + credit ow confirm conf u \<le> writes w1 u + card (confirmed (wDb w') u) + 0" for u
    using pays [of u] writes_steps [OF st w'(2), of u] by linarith
  then have "within (\<lambda>_. 0) (credit ow confirm conf) w1 w'"
    using st w'(2) by (simp add: within_def balanced_def del: split_paired_All)
  with w1 show ?thesis unfolding guarantee_def by (rule within_trans)
qed

lemma sat_settle:
  assumes "rely env" "caConversation c = Some conv"
  shows "eng.sat (known (\<lambda>db. owner_of db conv = Some (caTenant c, caUser c))) (settle env c i confirm) (\<lambda>_ _. True)"
  unfolding eng.sat_def
proof (intro allI impI conjI TrueI)
  fix w assume k: "known (\<lambda>db. owner_of db conv = Some (caTenant c, caUser c)) w"
  let ?f = "\<lambda>now db. Settle now conv i (caTurn c) confirm db"
  obtain r w' where run: "run_state (sql env ?f) w = (r, w')" by fastforce
  have g: "state_io_rel guarantee (sql env ?f)" by (intro io assms(1) store_step.Settle)
  show "guarantee w (snd (run_state (settle env c i confirm) w))"
  proof (cases r)
    case (Inl e)
    have "guarantee w w'" using g run by (metis state_io_rel_def snd_conv)
    moreover have "state_io_rel guarantee (case e of ErrNotFound \<Rightarrow> refuse env c i confirm
        | _ \<Rightarrow> ret (failure ''could not settle the action''))" by (intro io_cases io assms(1))
    ultimately show ?thesis
      using Inl run assms(2) by (simp add: settle_def state_io_rel_def) (blast intro: guarantee_trans)
  next
    case (Inr conf)
    have "within (\<lambda>_. 0) (credit (caTenant c, caUser c) confirm conf) w w'" using settle_pays [OF assms(1) k] run Inr by blast
    moreover have "within (credit (caTenant c, caUser c) confirm conf) (\<lambda>_. 0) w' (snd (run_state (settled env c i confirm conf) w'))"
      using io_settled [OF assms(1)] by (simp add: state_io_rel_def)
    ultimately show ?thesis
      using Inr run assms(2) unfolding guarantee_def by (simp add: settle_def) (blast intro: within_trans)
  qed
qed

subsection \<open>The realtime model's calls\<close>

definition conversation_facts :: "conversation \<Rightarrow> uuid \<Rightarrow> orch_db \<Rightarrow> bool" where
  "conversation_facts conv i db \<longleftrightarrow> (coTenantID conv, coUserID conv, coTools conv) \<in> toolsets db
     \<and> owner_of db i = Some (coTenantID conv, coUserID conv)"

lemma lasting_facts: "lasting (conversation_facts conv i)"
  unfolding conversation_facts_def by (intro lasting_conj lasting_toolset lasting_owner)

lemma conversation_facts_read: "Conversation i db = Inr conv \<Longrightarrow> conversation_facts conv i db"
  by (auto simp: Conversation_def conversation_facts_def toolsets_def owner_of_def split: option.splits dest!: lookup_Some)

lemma sat_openConversation:
  assumes "rely env"
  shows "eng.sat (known (\<lambda>_. True)) (openConversation env i)
    (\<lambda>r w. case r of Inl _ \<Rightarrow> True | Inr conv \<Rightarrow> known (conversation_facts conv i) w)"
proof -
  have "eng.sat (known (\<lambda>_. True)) (sql_query env (\<lambda>now db. Conversation i db))
     (\<lambda>r w. case r of Inl _ \<Rightarrow> known (\<lambda>_. True) w | Inr conv \<Rightarrow> known (\<lambda>db. True \<and> conversation_facts conv i db) w)"
    unfolding sql_query_def using assms by (intro sat_sql) (auto intro: conversation_facts_read)
  then show ?thesis
    unfolding openConversation_def
    by (rule eng.sat_bind) (auto intro!: eng.sat_return split: sum.splits store_error.splits if_splits)
qed

lemma sat_voiceTool:
  assumes "rely env" "caConversation c = Some i" "caTenant c = coTenantID conv" "caUser c = coUserID conv"
  shows "eng.sat (known (conversation_facts conv i)) (voiceTool env conv c name args) (\<lambda>_ _. True)"
proof (cases "map_of (coTools conv) name")
  case None
  then show ?thesis unfolding voiceTool_def by (auto intro!: eng.sat_return)
next
  case (Some tgt)
  have s: "eng.sat (known (conversation_facts conv i)) (settle env c j b) (\<lambda>_ _. True)" for j b
    by (rule eng.sat_weaken [OF sat_settle [OF assms(1,2)]]) (auto simp: known_def conversation_facts_def assms(3,4))
  have e: "eng.sat (known (conversation_facts conv i)) (execute env c tgt args) (\<lambda>_ _. True)"
    by (rule eng.sat_weaken [OF sat_execute [OF assms(1) Some]]) (auto simp: known_def conversation_facts_def assms(3,4))
  have st: "eng.sat (known (conversation_facts conv i)) (startTask env c goal) (\<lambda>_ _. True)" for goal
    by (intro sat_any io assms(1))
  show ?thesis
    unfolding voiceTool_def Some option.case Let_def using s e st
    by (auto intro!: eng.sat_return eng.sat_bind split: prod.splits option.splits)
qed

lemma sat_voiceCall:
  assumes "rely env" "caConversation c = Some i" "caTenant c = coTenantID conv" "caUser c = coUserID conv"
  shows "eng.sat (known (conversation_facts conv i)) (voiceCall env conv c name args) (\<lambda>_ _. True)"
  unfolding voiceCall_def by (rule eng.sat_bind [OF sat_voiceTool [OF assms]], rule sat_any) (intro io_cases io assms(1))

lemma io_CallTool [io]:
  assumes "rely env"
  shows "state_io_rel guarantee (Engine_CallTool env i callID name args turn)"
proof (rule io_known)
  let ?facts = "\<lambda>conv. known (conversation_facts conv i)"
  have call: "eng.sat (?facts conv) (State_Monad.bind (voiceCall env conv (voice_caller conv i callID turn) name args)
      (\<lambda>r. State_Monad.bind (sql env (\<lambda>now db. SaveToolCall i callID name r db))
        (\<lambda>s. case s of Inl e \<Rightarrow> ret (Inl (StoreError e)) | Inr _ \<Rightarrow> ret (Inr r)))) (\<lambda>_ _. True)" for conv
    by (rule eng.sat_bind [OF sat_voiceCall], rule assms)
      (simp_all add: voice_caller_def, intro sat_any io_cases io store_step.SaveToolCall assms)
  have adv: "eng.sat (?facts conv) (sql_do env (\<lambda>now db. AdvanceTurn i turn db)) (\<lambda>_. ?facts conv)" for conv
    by (intro sat_known io assms store_step.AdvanceTurn lasting_facts)
  have q: "eng.sat (?facts conv) (sql_query env (\<lambda>now db. ToolCall i callID db)) (\<lambda>_. ?facts conv)" for conv
    by (intro sat_known io assms lasting_facts)
  show "eng.sat (known (\<lambda>_. True)) (Engine_CallTool env i callID name args turn) (\<lambda>_ _. True)"
    unfolding Engine_CallTool_def
    apply (rule eng.sat_bind [OF sat_openConversation [OF assms]])
    subgoal for x
      by (cases x)
        (auto intro!: eng.sat_return eng.sat_bind [OF q] eng.sat_bind [OF adv] call split: sum.splits store_error.splits)
    done
qed

end
