(* ===== verification/EngineAsk.thy ===== *)
theory EngineAsk
  imports EngineOps
begin

text \<open>
  The operations that need to know what they did before: opening a conversation, and asking the user
  about an action of a task, with the loops that do so.
\<close>

subsection \<open>Opening a conversation\<close>

lemma CreateConversation_owner:
  "fst (CreateConversation now c db) = Inr r \<Longrightarrow> owner_of (snd (CreateConversation now c db)) (coID c) = Some (coTenantID c, coUserID c)"
  by (auto simp: CreateConversation_def owner_of_def lookup_append split: if_splits option.splits)

lemma io_start_conversation [io]:
  assumes "rely env"
  shows "state_io_rel guarantee (start_conversation env conv)"
proof (rule io_known)
  let ?own = "\<lambda>db. owner_of db (coID conv) = Some (coTenantID conv, coUserID conv)"
  have c: "eng.sat (known (\<lambda>_. True)) (sql env (\<lambda>now db. CreateConversation now conv db))
      (\<lambda>r w. case r of Inl _ \<Rightarrow> known (\<lambda>_. True) w | Inr _ \<Rightarrow> known (\<lambda>db. True \<and> ?own db) w)"
    using assms CreateConversation_owner by (intro sat_sql) (auto intro: store_step.CreateConversation)
  have o1: "eng.sat (known ?own) (sql env (\<lambda>now db. CarryOverEvents now (coID conv) (coTenantID conv) (coUserID conv) carryOverWindow db))
      (\<lambda>_ _. True)"
    by (rule eng.sat_weaken [OF sat_sql [where phi = ?own and psi = "\<lambda>_ _. True"]])
      (auto intro: assms lasting_owner store_step.CarryOverEvents)
  show "eng.sat (known (\<lambda>_. True)) (start_conversation env conv) (\<lambda>_ _. True)"
    unfolding start_conversation_def
    apply (rule eng.sat_bind [OF c])
    subgoal for x by (cases x) (auto intro!: eng.sat_return eng.sat_bind [OF o1])
    done
qed

lemma io_Open [io]: "rely env \<Longrightarrow> state_io_rel guarantee (Open env tenant user sessionID provider locale)"
  unfolding Open_def by (intro io_cases io)

subsection \<open>Asking about a task's action\<close>

lemma questions_step: "store_step db db' \<Longrightarrow> set (questions (odEvents db)) \<subseteq> set (questions (odEvents db'))"
  by (erule store_step.cases)
    (auto simp: task_ops dialog_ops device_ops queue_ops questions_update_where
      split: prod.splits option.splits list.splits if_splits sum.splits)

lemma questions_steps: "store_steps db db' \<Longrightarrow> set (questions (odEvents db)) \<subseteq> set (questions (odEvents db'))"
  by (induction rule: rtranclp_induct) (auto dest: questions_step)

text \<open>A confirmation nobody has been asked about stays in its conversation.\<close>

lemma unasked_stays_step:
  assumes "store_step db db'" "lookup cfID i (odConfirmations db) = Some c" "i \<notin> set (questions (odEvents db'))"
  shows "\<exists>c'. lookup cfID i (odConfirmations db') = Some c' \<and> cfConversationID c' = cfConversationID c"
  using assms(1)
proof (cases rule: store_step.cases)
  case (AddEvent conversation conf now payload)
  with assms(2,3) show ?thesis
    by (auto simp: AddEvent_def Let_def lookup_update_where move_confirmation_def dest: lookup_Some split: prod.splits if_splits option.splits)
next
  case (CarryOverEvents conversation tenant user now window)
  have "i \<notin> set (questions (odEvents db))" using questions_step [OF assms(1)] assms(3) by blast
  then have "i \<notin> set (List.map_filter oeConfirmation (filter (unheard now conversation tenant user window db) (odEvents db)))"
    using in_questions by (force simp: questions_def [symmetric])
  moreover have "cfID c = i" using assms(2) by (auto dest: lookup_Some)
  ultimately show ?thesis
    using CarryOverEvents assms(2)
    by (auto simp: CarryOverEvents_def Let_def lookup_update_where move_confirmation_def)
next
  case (Settle now conversation j n confirm)
  with assms(2) show ?thesis by (simp add: odConfirmations_Settle lookup_update_where)
qed (use assms(2) in \<open>auto simp: task_ops dialog_ops device_ops queue_ops lookup_append lookup_update_where
    split: prod.splits option.splits list.splits sum.splits\<close>)

definition unasked :: "uuid \<Rightarrow> uuid \<Rightarrow> orch_db \<Rightarrow> bool" where
  "unasked i conv db \<longleftrightarrow> (\<exists>c. lookup cfID i (odConfirmations db) = Some c \<and> cfConversationID c = conv)
     \<and> i \<notin> set (questions (odEvents db))"

lemma unasked_stays:
  assumes "store_steps db db'" "unasked i conv db" "i \<notin> set (questions (odEvents db'))"
  shows "unasked i conv db'"
  using assms
proof (induction rule: rtranclp_induct)
  case (step db1 db2)
  have "i \<notin> set (questions (odEvents db1))" using questions_step [OF step.hyps(2)] step.prems(2) by blast
  with step.IH step.prems have "unasked i conv db1" by blast
  with unasked_stays_step [OF step.hyps(2) _ step.prems(2)] step.prems(2) show ?case by (force simp: unasked_def)
qed simp

lemma asks_own_unasked: "unasked i conv db \<Longrightarrow> asks_own db conv (Some i)"
  by (auto simp: unasked_def asks_own_def in_questions)

lemma CreateConfirmation_unasked:
  assumes "db_ok db" "fst (CreateConfirmation c db) = Inr r"
  shows "unasked (cfID c) (cfConversationID c) (snd (CreateConfirmation c db))"
proof -
  have n: "lookup cfID (cfID c) (odConfirmations db) = None" using assms(2) by (auto simp: CreateConfirmation_def split: if_splits)
  then have "cfID c \<notin> set (questions (odEvents db))"
    using assms(1) by (auto simp: db_ok_def dialog_ok_def event_ok_def in_questions)
  with assms(2) n show ?thesis
    by (auto simp: unasked_def CreateConfirmation_def lookup_append split: if_splits)
qed

lemma emit_asks:
  assumes "rely env" "i \<in> range (eUUID env)"
  shows "eng.sat (known (unasked i conv)) (emit env (Some conv) ev message (Some i)) (\<lambda>_ _. True)"
proof -
  have add: "eng.sat (known (unasked i conv)) (sql env (\<lambda>now db. AddEvent now conv payload (Some i) db)) (\<lambda>_ _. True)" for payload
    unfolding eng.sat_def
  proof (intro allI impI conjI TrueI)
    fix w assume w: "known (unasked i conv) w"
    let ?r = "run_state (sql env (\<lambda>now db. AddEvent now conv payload (Some i) db)) w"
    obtain w1 now where w1: "guarantee w w1" "wCalls (snd ?r) = wCalls w1"
      "\<forall>n. eUUID env n \<in> set (questions (odEvents (wDb w1))) \<longrightarrow> eUUID env n \<in> set (questions (odEvents (wDb w)))"
      "?r = (fst (AddEvent now conv payload (Some i) (wDb w1)), w1\<lparr>wDb := snd (AddEvent now conv payload (Some i) (wDb w1))\<rparr>)
       \<or> fst ?r = Inl ErrUnavailable \<and> (wDb (snd ?r) = wDb w1 \<or> wDb (snd ?r) = snd (AddEvent now conv payload (Some i) (wDb w1)))"
    proof (rule sql_run [OF assms(1), of w "\<lambda>now db. AddEvent now conv payload (Some i) db"], goal_cases)
      case (1 w1 now)
      then show ?thesis using that [of w1 now] w by (simp add: known_def)
    qed
    have "i \<notin> set (questions (odEvents (wDb w1)))" using w1(3) w assms(2) by (auto simp: known_def unasked_def)
    moreover have "store_steps (wDb w) (wDb w1)" using w1(1) w by (auto simp: guarantee_def within_def known_def)
    ultimately have "unasked i conv (wDb w1)" using w unasked_stays by (auto simp: known_def)
    then have "store_steps (wDb w1) (snd (AddEvent now conv payload (Some i) (wDb w1)))"
      by (intro r_into_rtranclp store_step.AddEvent asks_own_unasked)
    then have "guarantee w1 (snd ?r)" using w1(2,4) by (intro guarantee_db) auto
    with w1(1) show "guarantee w (snd ?r)" by (rule guarantee_trans)
  qed
  have t: "eng.sat (known (unasked i conv)) (time_now env) (\<lambda>_. known (unasked i conv))"
    by (auto simp: eng.sat_def time_now_def tick_def known_def intro: guarantee_same)
  show ?thesis
    unfolding emit_def option.case
    apply (rule eng.sat_bind [OF t])
    subgoal for now
      apply (cases "eMarshalEvent env \<lparr>ceEvent = ev, ceMessage = message, ceCreateTime = now, ceEventId = 0\<rparr>")
      subgoal by (simp add: eng.sat_return)
      subgoal by simp (rule eng.sat_bind [OF add], rule sat_any, intro io_cases io)
      done
    done
qed

lemma sat_audit: "eng.sat (known phi) (audit env tenant user who act tt ti out reason details) (\<lambda>_. known phi)"
  by (auto simp: eng.sat_def audit_def call_def known_def intro: guarantee_call)

lemma io_pause_for_confirmation [io]:
  assumes "rely env"
  shows "state_io_rel guarantee (pause_for_confirmation env owner t callID summary a)"
proof -
  have ask: "eng.sat (known (unasked i conv)) (emit env (Some conv) ev message (Some i)) (\<lambda>_ _. True)"
    if "i \<in> range (eUUID env)" for i conv ev message
    by (rule emit_asks [OF assms that])
  have conf: "eng.sat (known (\<lambda>_. True)) (create_confirmation env c)
      (\<lambda>r w. case r of Inl _ \<Rightarrow> known (\<lambda>_. True) w | Inr _ \<Rightarrow> known (\<lambda>db. True \<and> unasked (cfID c) (cfConversationID c) db) w)" for c
    unfolding create_confirmation_def
    using CreateConfirmation_unasked [where c = "c\<lparr>cfAction := a\<rparr>" for a]
    by (intro sat_sql assms) (auto intro: store_step.CreateConfirmation split: option.splits)
  have rest: "state_io_rel guarantee (State_Monad.bind (create_confirmation env c) (\<lambda>q. case q of
      Inl _ \<Rightarrow> ret ()
    | Inr _ \<Rightarrow> State_Monad.bind (audit env tenant user who act tt ti out reason details)
        (\<lambda>_. State_Monad.bind (emit env (Some (cfConversationID c)) ev message (Some (cfID c)))
          (\<lambda>heard. if \<not> heard then notify env t' kind else ret ()))))"
    if "cfID c \<in> range (eUUID env)" for c tenant user who act tt ti out reason details ev message t' kind
    apply (rule io_known [where Q = "\<lambda>_ _. True"], rule eng.sat_bind [OF conf])
    subgoal for x
      apply (cases x)
      subgoal by (simp add: eng.sat_return)
      subgoal by simp (rule eng.sat_bind [OF sat_audit], rule eng.sat_bind [OF ask [OF that]], rule sat_any, intro io_cases io assms)
      done
    done
  have uuid: "state_io_rel guarantee (State_Monad.bind (new_uuid env) f)"
    if "\<And>n. state_io_rel guarantee (f (eUUID env n))" for f :: "uuid \<Rightarrow> unit eng"
    using that eng.io_bind [OF io_tick, of "\<lambda>k. f (eUUID env k)"] by (simp add: new_uuid_def)
  show ?thesis
    unfolding pause_for_confirmation_def expireWithoutConversation_def
    apply (rule eng.io_bind [OF io_set_task_state [OF assms]], simp)
    apply (rule eng.io_sum, rule eng.io_return, rule eng.io_bool, rule uuid, rule eng.io_bind [OF io_reads(1)], rule eng.io_option)
    subgoal by (intro io_cases io assms)
    subgoal for r y n now conv
      using rest [where c = "\<lparr>cfID = eUUID env n, cfConversationID = conv, cfTaskID = Some (tkID t), cfCallID = callID,
        cfAction = encode_action a, cfSummary = summary, cfAskedTurn = None, cfState = Pending,
        cfExpiresAt = now + opConfirmationTTL (eOpts env)\<rparr>"] by simp
    subgoal by (rule eng.io_return)
    done
qed

subsection \<open>The loop of a task\<close>

lemma io_pauseTask [io]: "rely env \<Longrightarrow> state_io_rel guarantee (pauseTask env owner t items c rest p)"
  unfolding pauseTask_def pause_for_approval_def audit_approval_def by (intro io_cases io) simp_all

lemma io_finish [io]: "rely env \<Longrightarrow> st \<noteq> TaskRunning \<Longrightarrow> state_io_rel guarantee (finish env owner t items calls st res)"
  unfolding finish_def by (intro io_cases io)

lemma io_decide [io]: "state_io_rel guarantee (decide env t items)"
  unfolding decide_def by (intro io_cases io) simp_all

lemma io_save [io]: "rely env \<Longrightarrow> state_io_rel guarantee (save env owner t)"
  unfolding save_def by (intro io_cases io)

definition offered :: "task \<Rightarrow> orch_db \<Rightarrow> bool" where
  "offered t db \<longleftrightarrow> (tkTenantID t, tkUserID t, tkTools t) \<in> toolsets db"

lemma lasting_offered: "lasting (offered t)"
  unfolding offered_def by (rule lasting_toolset)

lemma offered_with_state [simp]: "offered (with_state env items calls t) = offered t" "offered (t\<lparr>tkSteps := n\<rparr>) = offered t"
  by (simp_all add: offered_def with_state_def fun_eq_iff)

lemma sat_offered: "state_io_rel guarantee m \<Longrightarrow> eng.sat (known (offered t)) m (\<lambda>_. known (offered t))"
  by (rule sat_known [OF _ lasting_offered])

lemma sat_task_call:
  assumes "rely env"
  shows "eng.sat (known (offered t)) (task_call env t c) (\<lambda>_. known (offered t))"
proof -
  have "eng.sat (known (offered t)) (task_call env t c) (\<lambda>_ _. True)"
  proof (cases "map_of (tkTools t) (agName c)")
    case None
    then show ?thesis by (simp add: task_call_def eng.sat_return)
  next
    case (Some tgt)
    have "caTenant (task_caller t i) = tkTenantID t" "caUser (task_caller t i) = tkUserID t" for i by (simp_all add: task_caller_def)
    with sat_execute [OF assms Some, of "task_caller t (agCallId c)" "agArgumentsJson c"] Some show ?thesis
      by (simp add: task_call_def offered_def [abs_def])
  qed
  then show ?thesis unfolding eng.sat_def using known_stable [OF lasting_offered] by blast
qed

lemma sat_run_loop:
  assumes "rely env"
  shows "eng.sat (known (offered t)) (run_loop env owner t items calls transient) (\<lambda>_ _. True)"
  using assms
proof (induction env owner t items calls transient rule: run_loop.induct)
  case (1 env owner t items calls transient)
  note rely = 1(4)
  note keep = eng.sat_bind [OF sat_offered]
  note retry = 1(1) [of False "tkDeadline t", OF _ _ _ _ _ refl _ _ rely]
  note step = 1(2) [of False "tkDeadline t", OF _ _ _ _ refl refl refl _ rely, simplified]
  note call1 = 1(3) [of False "tkDeadline t", OF _ _ _ refl refl rely, simplified]
  have ends: "eng.sat (known (offered t)) (finish env owner t' items' calls' TaskFailed res) (\<lambda>_ _. True)"
    "eng.sat (known (offered t)) (finish env owner t' items' calls' TaskSucceeded res) (\<lambda>_ _. True)"
    "eng.sat (known (offered t)) (pauseTask env owner t' items' c rest p) (\<lambda>_ _. True)" for t' items' calls' res c rest p
    by (intro sat_any io rely; simp)+
  have calls1: "eng.sat (known (offered t)) (State_Monad.bind (task_call env t c) (\<lambda>(out, isError, p). case p of
      None \<Rightarrow> let items' = items @ [ToolResult (agCallId c) out]; t' = with_state env items' rest t
        in State_Monad.bind (save env owner t') (\<lambda>_. run_loop env owner t' items' rest transient)
    | Some p' \<Rightarrow> pauseTask env owner t items c rest p')) (\<lambda>_ _. True)" if "calls = c # rest" for c rest
    unfolding Let_def
    by (intro eng.sat_bind [OF sat_task_call [OF rely]] eng.sat_prod eng.sat_option ends keep io_save rely)
      (use call1 [OF that] in simp)
  show ?case
    apply (subst run_loop.simps)
    apply (rule keep [OF io_reads(3)], rule eng.sat_if, rule eng.sat_return, simp)
    apply (rule keep [OF io_reads(1)], rule eng.sat_if, rule ends)
    apply (cases calls)
    subgoal for stop now
      apply (simp only: list.case)
      apply (rule eng.sat_if, rule ends, rule keep [OF io_decide], rule eng.sat_sum)
      subgoal for r e
        apply (rule keep [OF io_reads(3)], rule eng.sat_if, rule eng.sat_return, simp)
        apply (cases e)
        subgoal by (simp add: ends)
        subgoal
          apply (simp only: decide_error.case)
          apply (rule eng.sat_if, rule ends, rule keep [OF io_reads(3)], rule eng.sat_if, rule eng.sat_return, simp)
          by (rule retry) auto
        done
      subgoal for r resp
        unfolding Let_def
        apply (rule eng.sat_if, rule ends, rule keep [OF io_save [OF rely]])
        using step [of resp] by simp
      done
    subgoal using calls1 by simp
    done
qed

lemma io_runTask:
  assumes "rely env"
  shows "eng.sat (known (offered t)) (runTask env owner t) (\<lambda>_ _. True)"
  unfolding runTask_def Let_def
  by (rule eng.sat_option, rule sat_any, rule io_finish; simp add: assms eng.sat_prod sat_run_loop split: prod.splits)

lemma io_renew_tick [io]: "rely env \<Longrightarrow> state_io_rel guarantee (renew_tick env owner t)"
  unfolding renew_tick_def by (intro io_cases io store_step.RenewLease)

lemma io_taskWorker [io]:
  assumes "rely env"
  shows "state_io_rel guarantee (taskWorker n env owner)"
proof (induction n)
  case (Suc n)
  have lease: "eng.sat (known (\<lambda>_. True)) (sql env (\<lambda>now db. LeaseTask now owner taskLease db))
      (\<lambda>r w. case r of Inl _ \<Rightarrow> known (\<lambda>_. True) w | Inr t \<Rightarrow> known (\<lambda>db. True \<and> offered t db) w)"
  proof (intro sat_sql assms)
    fix now db t
    assume ok: "db_ok db" and r: "fst (LeaseTask now owner taskLease db) = Inr t"
    then have "LeaseTask now owner taskLease db = (Inr t, snd (LeaseTask now owner taskLease db))" by (metis prod.collapse)
    from LeaseTask_lookup [OF ok this] show "offered t (snd (LeaseTask now owner taskLease db))"
      by (auto simp: offered_def toolsets_def dest!: lookup_Some)
  qed (auto intro: store_step.LeaseTask)
  have round: "state_io_rel guarantee (State_Monad.bind (sql env (\<lambda>now db. LeaseTask now owner taskLease db)) (\<lambda>r. case r of
      Inl _ \<Rightarrow> State_Monad.bind take_wake (\<lambda>_. taskWorker n env owner)
    | Inr t \<Rightarrow> State_Monad.bind (runTask env owner t) (\<lambda>_. taskWorker n env owner)))"
    apply (rule io_known [where Q = "\<lambda>_ _. True"], rule eng.sat_bind [OF lease])
    subgoal for x
      apply (cases x)
      subgoal by simp (rule sat_any, intro io_cases io Suc.IH)
      subgoal by simp (rule eng.sat_bind [OF io_runTask [OF assms]], rule sat_any, rule Suc.IH)
      done
    done
  show ?case unfolding taskWorker.simps by (rule eng.io_bind, rule io, rule eng.io_if, rule eng.io_return, rule round)
qed (simp add: eng.io_return)

end
