(* ===== verification/NetAddr.thy ===== *)
theory NetAddr
  imports Prelude "HOL-Library.Word"
begin

unbundle bit_operations_syntax

text \<open>
  The parts of Go's \<^verbatim>\<open>net\<close> and \<^verbatim>\<open>net/netip\<close> that the guards of outgoing connections are written with: reading
  addresses, splitting \<^verbatim>\<open>host:port\<close>, and testing an address against prefixes.
\<close>

subsection \<open>Addresses\<close>

text \<open>\<^verbatim>\<open>netip.Addr\<close>; the second field of an IPv6 address is its zone, empty when it has none.\<close>

datatype addr = IPv4 "32 word" | IPv6 "128 word" string

definition Unmap :: "addr \<Rightarrow> addr" where
  "Unmap a = (case a of
     IPv4 x \<Rightarrow> IPv4 x
   | IPv6 x z \<Rightarrow> if drop_bit 32 x = 0xFFFF then IPv4 (ucast x) else IPv6 x z)"

definition IsLoopback :: "addr \<Rightarrow> bool" where
  "IsLoopback a = (case Unmap a of IPv4 x \<Rightarrow> drop_bit 24 x = 127 | IPv6 x _ \<Rightarrow> x = 1)"

type_synonym prefix = "addr \<times> nat"

definition mask6 :: "nat \<Rightarrow> 128 word" where
  "mask6 n = push_bit (128 - n) (mask n)"

definition Contains :: "prefix \<Rightarrow> addr \<Rightarrow> bool" where
  "Contains p a = (case (p, a) of
     ((IPv4 y, n), IPv4 x) \<Rightarrow> drop_bit (32 - n) (x XOR y) = 0
   | ((IPv6 y _, n), IPv6 x z) \<Rightarrow> z = [] \<and> (x XOR y) AND mask6 n = 0
   | _ \<Rightarrow> False)"

subsection \<open>Reading addresses\<close>

text \<open>
  \<^verbatim>\<open>parseIPv4Fields\<close>: whether this is the first byte or follows a dot, the value and the number of digits
  of the field, and the fields before it.
\<close>

fun parseIPv4Fields :: "string \<Rightarrow> bool \<Rightarrow> nat \<Rightarrow> nat \<Rightarrow> nat list \<Rightarrow> nat list option" where
  "parseIPv4Fields [] start val digLen fields = (if length fields < 3 then None else Some (fields @ [val]))"
| "parseIPv4Fields (c # s) start val digLen fields =
     (if CHR ''0'' \<le> c \<and> c \<le> CHR ''9'' then
        (if digLen = 1 \<and> val = 0 then None
         else let val' = val * 10 + undigit c
              in if val' > 255 then None else parseIPv4Fields s False val' (digLen + 1) fields)
      else if c = CHR ''.'' then
        (if start \<or> s = [] \<or> length fields = 3 then None else parseIPv4Fields s True 0 0 (fields @ [val]))
      else None)"

definition word_of_bytes :: "nat list \<Rightarrow> 'a::len word" where
  "word_of_bytes bs = foldl (\<lambda>a b. a * 256 + of_nat b) 0 bs"

definition parseIPv4 :: "string \<Rightarrow> addr option" where
  "parseIPv4 s = map_option (\<lambda>bs. IPv4 (word_of_bytes bs)) (parseIPv4Fields s True 0 0 [])"

definition hex_value :: "char \<Rightarrow> nat option" where
  "hex_value c =
     (if CHR ''0'' \<le> c \<and> c \<le> CHR ''9'' then Some (of_char c - 48)
      else if CHR ''a'' \<le> c \<and> c \<le> CHR ''f'' then Some (of_char c - 87)
      else if CHR ''A'' \<le> c \<and> c \<le> CHR ''F'' then Some (of_char c - 55)
      else None)"

text \<open>One group: its value, its number of digits and what follows.\<close>

fun hex_group :: "string \<Rightarrow> nat \<Rightarrow> nat \<Rightarrow> (nat \<times> nat \<times> string) option" where
  "hex_group [] acc off = Some (acc, off, [])"
| "hex_group (c # s) acc off = (case hex_value c of
     None \<Rightarrow> Some (acc, off, c # s)
   | Some h \<Rightarrow> if off > 3 \<or> acc * 16 + h > 65535 then None else hex_group s (acc * 16 + h) (off + 1))"

text \<open>The loop over the groups: where the ellipsis stands, the bytes read and what is left of the text.\<close>

function ipv6_groups :: "nat option \<Rightarrow> nat list \<Rightarrow> string \<Rightarrow> (nat option \<times> nat list \<times> string) option" where
  "ipv6_groups ell ip s =
     (if length ip \<ge> 16 then Some (ell, ip, s)
      else case hex_group s 0 0 of
        None \<Rightarrow> None
      | Some (acc, off, rest) \<Rightarrow>
          if off = 0 then None
          else let ip' = ip @ [acc div 256, acc mod 256] in
          (case rest of
             [] \<Rightarrow> Some (ell, ip', [])
           | c # more \<Rightarrow>
               if c = CHR ''.'' then
                 (if ell = None \<and> length ip \<noteq> 12 \<or> length ip + 4 > 16 then None
                  else map_option (\<lambda>bs. (ell, ip @ bs, [])) (parseIPv4Fields s True 0 0 []))
               else if c \<noteq> CHR '':'' \<or> more = [] then None
               else if hd more = CHR '':'' then
                 (if ell \<noteq> None then None
                  else if tl more = [] then Some (Some (length ip'), ip', [])
                  else ipv6_groups (Some (length ip')) ip' (tl more))
               else ipv6_groups ell ip' more))"
  by auto
termination by (relation "measure (\<lambda>(_, ip, _). 16 - length ip)") auto

declare ipv6_groups.simps [simp del]

definition expand_ellipsis :: "nat option \<Rightarrow> nat list \<Rightarrow> nat list option" where
  "expand_ellipsis ell ip =
     (case ell of
        None \<Rightarrow> if length ip < 16 then None else Some ip
      | Some p \<Rightarrow> if length ip < 16 then Some (take p ip @ replicate (16 - length ip) 0 @ drop p ip) else None)"

definition parse_groups :: "string \<Rightarrow> nat list option" where
  "parse_groups s =
     (let (ell, s') = (if take 2 s = ''::'' then (Some 0, drop 2 s) else (None, s))
      in if ell \<noteq> None \<and> s' = [] then Some (replicate 16 0)
         else case ipv6_groups ell [] s' of
           None \<Rightarrow> None
         | Some (ell', ip, rest) \<Rightarrow> if rest \<noteq> [] then None else expand_ellipsis ell' ip)"

definition parseIPv6 :: "string \<Rightarrow> addr option" where
  "parseIPv6 s =
     (let address = takeWhile (\<lambda>c. c \<noteq> CHR ''%'') s; zone = drop (length address + 1) s
      in if CHR ''%'' \<in> set s \<and> zone = [] then None
         else map_option (\<lambda>bs. IPv6 (word_of_bytes bs) zone) (parse_groups address))"

definition ParseAddr :: "string \<Rightarrow> addr option" where
  "ParseAddr s = (case dropWhile (\<lambda>c. c \<notin> {CHR ''.'', CHR '':'', CHR ''%''}) s of
     c # _ \<Rightarrow> if c = CHR ''.'' then parseIPv4 s else if c = CHR '':'' then parseIPv6 s else None
   | [] \<Rightarrow> None)"

subsection \<open>host:port\<close>

text \<open>The position of the last and of the first occurrence of a byte.\<close>

fun index_of :: "char \<Rightarrow> string \<Rightarrow> nat option" where
  "index_of c [] = None"
| "index_of c (d # s) = (if c = d then Some 0 else map_option Suc (index_of c s))"

definition last_index_of :: "char \<Rightarrow> string \<Rightarrow> nat option" where
  "last_index_of c s = map_option (\<lambda>i. length s - 1 - i) (index_of c (rev s))"

definition SplitHostPort :: "string \<Rightarrow> (string \<times> string) option" where
  "SplitHostPort hostport = (case last_index_of (CHR '':'') hostport of
     None \<Rightarrow> None
   | Some i \<Rightarrow>
       (let port = drop (i + 1) hostport in
        if hd hostport = CHR ''['' then
          (case index_of (CHR '']'') hostport of
             None \<Rightarrow> None
           | Some e \<Rightarrow>
               if e + 1 = length hostport \<or> e + 1 \<noteq> i then None
               else if CHR ''['' \<in> set (drop 1 hostport) \<or> CHR '']'' \<in> set (drop (e + 1) hostport) then None
               else Some (drop 1 (take e hostport), port))
        else if CHR '':'' \<in> set (take i hostport) \<or> CHR ''['' \<in> set hostport \<or> CHR '']'' \<in> set hostport then None
        else Some (take i hostport, port)))"

subsection \<open>Prefixes as ranges\<close>

lemma drop_bit_xor_zero:
  "drop_bit k (x XOR y) = 0 \<longleftrightarrow> unat x div 2 ^ k = unat y div 2 ^ k" for x y :: "'a::len word"
proof -
  have "a XOR b = 0 \<longleftrightarrow> a = b" for a b :: "'a word" by (metis bit.xor_left_self xor.right_neutral bit.xor_self)
  then have "drop_bit k (x XOR y) = 0 \<longleftrightarrow> drop_bit k x = drop_bit k y" by simp
  also have "\<dots> \<longleftrightarrow> unat (drop_bit k x) = unat (drop_bit k y)" by (simp add: word_unat_eq_iff)
  also have "\<dots> \<longleftrightarrow> drop_bit k (unat x) = drop_bit k (unat y)" by (simp only: unat_drop_bit_eq)
  finally show ?thesis by (simp add: drop_bit_eq_div [where ?'a = nat] del: drop_bit_xor)
qed

lemma and_mask6: "n \<le> 128 \<Longrightarrow> x AND mask6 n = 0 \<longleftrightarrow> drop_bit (128 - n) x = 0"
proof -
  assume n: "n \<le> 128"
  have "x AND mask6 n = 0 \<longleftrightarrow> (\<forall>i. 128 - n \<le> i \<longrightarrow> i < 128 \<longrightarrow> \<not> bit x i)"
    using n by (auto simp: bit_eq_iff mask6_def bit_simps)
  also have "\<dots> \<longleftrightarrow> drop_bit (128 - n) x = 0"
  proof
    assume a: "\<forall>i. 128 - n \<le> i \<longrightarrow> i < 128 \<longrightarrow> \<not> bit x i"
    then have "\<not> bit x (128 - n + i)" for i using bit_imp_le_length [of x "128 - n + i"] by auto
    then show "drop_bit (128 - n) x = 0" by (simp add: bit_eq_iff bit_simps)
  next
    assume a: "drop_bit (128 - n) x = 0"
    then have "\<not> bit x (128 - n + i)" for i
      using bit_drop_bit_eq [of "128 - n" x] by (metis bit_0_eq bot_apply bot_bool_def comp_apply)
    then show "\<forall>i. 128 - n \<le> i \<longrightarrow> i < 128 \<longrightarrow> \<not> bit x i" using le_Suc_ex [of "128 - n"] by blast
  qed
  finally show ?thesis .
qed

lemma Contains_IPv4:
  "Contains (IPv4 y, n) a \<longleftrightarrow> (\<exists>x. a = IPv4 x \<and> unat x div 2 ^ (32 - n) = unat y div 2 ^ (32 - n))"
  by (cases a) (simp_all add: Contains_def drop_bit_xor_zero del: drop_bit_xor)

lemma Contains_IPv6:
  "n \<le> 128 \<Longrightarrow> Contains (IPv6 y z, n) a \<longleftrightarrow> (\<exists>x. a = IPv6 x [] \<and> unat x div 2 ^ (128 - n) = unat y div 2 ^ (128 - n))"
  by (cases a) (auto simp: Contains_def and_mask6 drop_bit_xor_zero simp del: drop_bit_xor)

lemma Unmap_Unmap [simp]: "Unmap (Unmap a) = Unmap a"
  by (cases a) (auto simp: Unmap_def)

end
