(* ===== verification/OrchClients.thy ===== *)
theory OrchClients
  imports NetAddr OrchDb GoFmt
begin

text \<open>
  Connections to users' devices, after \<^verbatim>\<open>services/orchestrator/internal/clients/clients.go\<close>: the guard that keeps them on the
  tailnet, and the pool of one connection per device.  Opening a sealed key, the checks of \<^verbatim>\<open>crypto/tls\<close> and
  \<^verbatim>\<open>crypto/x509\<close>, and gRPC's client are parameters.
\<close>

subsection \<open>The guard\<close>

definition tailnet :: "prefix list" where
  "tailnet = [(IPv4 0x64400000, 10), (IPv6 0xFD7A115CA1E000000000000000000000 [], 48)]"

definition device_allowed :: "bool \<Rightarrow> addr \<Rightarrow> bool" where
  "device_allowed allowLoopback a0 = (let a = Unmap a0 in
     if IsLoopback a then allowLoopback else list_ex (\<lambda>p. Contains p a) tailnet)"

definition ErrAddressNotAllowed :: string where
  "ErrAddressNotAllowed = ''device address must be on the tailnet (100.64.0.0/10, fd7a:115c:a1e0::/48 or *.ts.net)''"

definition HasSuffix :: "string \<Rightarrow> string \<Rightarrow> bool" where
  "HasSuffix s suffix \<longleftrightarrow> length suffix \<le> length s \<and> drop (length s - length suffix) s = suffix"

text \<open>No error, or its text.\<close>

definition CheckAddress :: "(rune \<Rightarrow> bool) \<Rightarrow> bool \<Rightarrow> string \<Rightarrow> string option" where
  "CheckAddress printable allowLoopback address =
     (case SplitHostPort address of
        None \<Rightarrow> Some (ErrAddressNotAllowed @ '': '' @ Quote printable address @ '' is not host:port'')
      | Some (host, port) \<Rightarrow>
          if host = [] \<or> port = [] then Some (ErrAddressNotAllowed @ '': '' @ Quote printable address @ '' is not host:port'')
          else case ParseAddr host of
            Some ip \<Rightarrow> if device_allowed allowLoopback ip then None else Some ErrAddressNotAllowed
          | None \<Rightarrow>
              if HasSuffix host ''.ts.net'' \<or> allowLoopback \<and> host = ''localhost'' then None else Some ErrAddressNotAllowed)"

text \<open>The dialer's last check, on the address a name resolved to.\<close>

definition dial_control :: "bool \<Rightarrow> string \<Rightarrow> bool" where
  "dial_control allowLoopback address = (case SplitHostPort address of
     None \<Rightarrow> False
   | Some (host, _) \<Rightarrow> (case ParseAddr host of None \<Rightarrow> False | Some ip \<Rightarrow> device_allowed allowLoopback ip))"

subsection \<open>The pool\<close>

text \<open>A connection is made for a device as it was registered then; \<open>dcSerial\<close> tells two of them apart.\<close>

record device_conn =
  dcDevice :: device
  dcSerial :: nat

type_synonym conns = "(uuid \<times> device_conn) list"

record dialing =
  dgOpen :: "uuid \<Rightarrow> string \<Rightarrow> uuid \<Rightarrow> bytes \<Rightarrow> (string, bytes) result"
  dgKeyPair :: "string \<Rightarrow> bytes \<Rightarrow> string option"
  dgHasCert :: "string \<Rightarrow> bool"
  dgNewClient :: "string \<Rightarrow> (string, nat) result"

definition PurposeDeviceKey :: string where "PurposeDeviceKey = ''orchestrator.device-key''"

text \<open>A new connection, up to the second lock.\<close>

definition dial_device :: "(rune \<Rightarrow> bool) \<Rightarrow> bool \<Rightarrow> dialing \<Rightarrow> device \<Rightarrow> (string, device_conn) result" where
  "dial_device printable allowLoopback dg dev =
     (case CheckAddress printable allowLoopback (dvAddress dev) of
        Some err \<Rightarrow> Inl err
      | None \<Rightarrow> (case dgOpen dg (dvTenantID dev) PurposeDeviceKey (dvID dev) (dvClientKeySealed dev) of
          Inl err \<Rightarrow> Inl (''open device key: '' @ err)
        | Inr keyPEM \<Rightarrow> (case dgKeyPair dg (dvClientCertPEM dev) keyPEM of
            Some err \<Rightarrow> Inl (''device client certificate: '' @ err)
          | None \<Rightarrow>
              if \<not> dgHasCert dg (dvCAPEM dev) then Inl ''device CA contains no certificate''
              else case dgNewClient dg (dvAddress dev) of
                Inl err \<Rightarrow> Inl err
              | Inr n \<Rightarrow> Inr \<lparr>dcDevice = dev, dcSerial = n\<rparr>)))"

text \<open>
  The pool is locked twice, and \<open>others\<close> is what happens to it in between.  The last component is the
  connection that is closed again.
\<close>

definition Client :: "(rune \<Rightarrow> bool) \<Rightarrow> bool \<Rightarrow> dialing \<Rightarrow> (conns \<Rightarrow> conns) \<Rightarrow> device \<Rightarrow> conns
    \<Rightarrow> (string, device_conn) result \<times> conns \<times> device_conn list" where
  "Client printable allowLoopback dg others dev conns =
     (case map_of conns (dvID dev) of
        Some conn \<Rightarrow> (Inr conn, conns, [])
      | None \<Rightarrow> (case dial_device printable allowLoopback dg dev of
          Inl err \<Rightarrow> (Inl err, others conns, [])
        | Inr conn \<Rightarrow>
            (let now = others conns in
             case map_of now (dvID dev) of
               Some existing \<Rightarrow> (Inr existing, now, [conn])
             | None \<Rightarrow> (Inr conn, (dvID dev, conn) # now, []))))"

definition Forget :: "uuid \<Rightarrow> conns \<Rightarrow> conns \<times> device_conn list" where
  "Forget i conns = (filter (\<lambda>(j, _). j \<noteq> i) conns, (case map_of conns i of None \<Rightarrow> [] | Some c \<Rightarrow> [c]))"

definition Close_devices :: "conns \<Rightarrow> conns \<times> device_conn list" where
  "Close_devices conns = ([], map snd conns)"

subsection \<open>Lemmas\<close>

text \<open>What the tailnet is, as ranges of addresses.\<close>

definition on_tailnet :: "addr \<Rightarrow> bool" where
  "on_tailnet a = (case Unmap a of
     IPv4 x \<Rightarrow> 0x64400000 \<le> x \<and> x \<le> 0x647FFFFF
   | IPv6 x z \<Rightarrow> z = [] \<and> 0xFD7A115CA1E000000000000000000000 \<le> x \<and> x \<le> 0xFD7A115CA1E0FFFFFFFFFFFFFFFFFFFF)"

lemma div_eq_range: "m div d = q \<longleftrightarrow> q * d \<le> m \<and> m < q * d + d" if "0 < d" for m d q :: nat
  using that by (metis add.commute div_nat_eqI dividend_less_times_div le_add_diff_inverse2 less_mult_imp_div_less mult.commute
      mult_Suc_right times_div_less_eq_dividend less_eq_div_iff_mult_less_eq add_diff_cancel_right' le_refl)

lemma tailnet_range: "list_ex (\<lambda>p. Contains p a) tailnet \<longleftrightarrow> (case a of
     IPv4 x \<Rightarrow> 0x64400000 \<le> x \<and> x \<le> 0x647FFFFF
   | IPv6 x z \<Rightarrow> z = [] \<and> 0xFD7A115CA1E000000000000000000000 \<le> x \<and> x \<le> 0xFD7A115CA1E0FFFFFFFFFFFFFFFFFFFF)"
  by (cases a) (auto simp: tailnet_def Contains_IPv4 Contains_IPv6 word_le_nat_alt div_eq_range)

lemma device_allowed_iff: "device_allowed loop a \<longleftrightarrow> (if IsLoopback a then loop else on_tailnet a)"
  by (simp add: device_allowed_def Let_def IsLoopback_def tailnet_range on_tailnet_def)

text \<open>The pool never holds two connections for a device.\<close>

lemma Client_distinct:
  "distinct (map fst (others conns)) \<Longrightarrow> distinct (map fst conns) \<Longrightarrow>
   distinct (map fst (fst (snd (Client pr loop dg others dev conns))))"
  by (auto simp: Client_def Let_def map_of_eq_None_iff split: option.splits sum.splits)

lemma map_of_Forget [simp]: "map_of (fst (Forget i conns)) j = (if j = i then None else map_of conns j)"
  by (induction conns) (auto simp: Forget_def)

text \<open>
  A device that is replaced or removed while a connection to it is being opened stays connected as it was:
  \<^verbatim>\<open>Forget\<close> finds nothing to close, and the pool keeps the old connection afterwards.
\<close>

lemma Forget_races_with_Client:
  assumes "map_of conns (dvID dev) = None" "dial_device pr loop dg dev = Inr conn"
  shows "map_of (fst (snd (Client pr loop dg (\<lambda>c. fst (Forget (dvID dev) c)) dev conns))) (dvID dev) = Some conn"
  using assms by (simp add: Client_def Let_def)

subsection \<open>Properties\<close>

text \<open>
  C36.  The address of a device is accepted exactly when it is \<^verbatim>\<open>host:port\<close> with neither part empty and the host is a name under
  \<^verbatim>\<open>.ts.net\<close>, an IPv4 address from 100.64.0.0 to 100.127.255.255, or an IPv6 address without a zone in
  fd7a:115c:a1e0::/48 (also written as an IPv4-mapped one); loopback addresses and \<^verbatim>\<open>localhost\<close> only when the configuration allows them.
\<close>

theorem CheckAddress_accepts:
  "CheckAddress pr loop address = None \<longleftrightarrow>
     (\<exists>host port. SplitHostPort address = Some (host, port) \<and> host \<noteq> [] \<and> port \<noteq> [] \<and>
       (case ParseAddr host of
          Some ip \<Rightarrow> if IsLoopback ip then loop else on_tailnet ip
        | None \<Rightarrow> HasSuffix host ''.ts.net'' \<or> loop \<and> host = ''localhost''))"
  by (auto simp: CheckAddress_def device_allowed_iff split: option.splits if_splits)

text \<open>
  C16.  Without loopback, a connection to a device is only ever dialled to an address of the tailnet's ranges, whatever the device's name
  resolved to.
\<close>

theorem dial_stays_on_tailnet:
  assumes "dial_control False address"
  shows "\<exists>host port ip. SplitHostPort address = Some (host, port) \<and> ParseAddr host = Some ip \<and> on_tailnet ip \<and> \<not> IsLoopback ip"
  using assms by (auto simp: dial_control_def device_allowed_iff split: option.splits if_splits)

theorem dial_stays_on_tailnet_witness:
  "\<exists>host port ip. SplitHostPort ''100.64.0.9:7443'' = Some (host, port) \<and> ParseAddr host = Some ip \<and> on_tailnet ip \<and> \<not> IsLoopback ip"
proof (rule dial_stays_on_tailnet)
  show "dial_control False ''100.64.0.9:7443''" by code_simp
qed

end
