(* ===== verification/OrchServer.thy ===== *)
theory OrchServer
  imports EngineTasks OrchClients
begin

text \<open>
  The orchestrator's API, after \<^verbatim>\<open>services/orchestrator/internal/server/server.go\<close>: what each handler requires
  of a request, what it calls and which status it answers with.  The fields of a request are the arguments of
  its handler.  Unicode's tables of letters and numbers, the checks of \<^verbatim>\<open>crypto/x509\<close> and \<^verbatim>\<open>crypto/tls\<close> and the Vault's sealing
  are parameters.
\<close>

record api_error =
  aeCode :: code
  aeMessage :: string
  aeReason :: string

record service =
  svEnv :: env
  svAllowLoopback :: bool
  svLetter :: "rune \<Rightarrow> bool"
  svNumber :: "rune \<Rightarrow> bool"
  svParseCertificate :: "string \<Rightarrow> bool"
  svKeyPair :: "string \<Rightarrow> bytes \<Rightarrow> bool"
  svSeal :: "nat \<Rightarrow> string \<Rightarrow> string \<Rightarrow> uuid \<Rightarrow> bytes \<Rightarrow> (rpc_error, bytes) result"

definition maxText :: nat where "maxText = 16000"
definition maxArguments :: nat where "maxArguments = 65536"
definition maxPEM :: nat where "maxPEM = 16384"

definition reasonError :: "code \<Rightarrow> string \<Rightarrow> string \<Rightarrow> api_error" where
  "reasonError c reason message = \<lparr>aeCode = c, aeMessage = message, aeReason = reason\<rparr>"

definition invalid :: "string \<Rightarrow> api_error" where
  "invalid message = \<lparr>aeCode = InvalidArgument, aeMessage = message, aeReason = []\<rparr>"

definition internal :: api_error where
  "internal = \<lparr>aeCode = Internal, aeMessage = ''internal error'', aeReason = []\<rparr>"

definition conversationError :: "conversation_error \<Rightarrow> api_error" where
  "conversationError e = (case e of
     ErrConversationNotFound \<Rightarrow> reasonError NotFound ''ERROR_REASON_CONVERSATION_NOT_FOUND'' ''conversation not found''
   | ErrConversationClosed \<Rightarrow> reasonError FailedPrecondition ''ERROR_REASON_CONVERSATION_CLOSED'' ''conversation is closed''
   | StoreError _ \<Rightarrow> internal)"

subsection \<open>Validation\<close>

definition printable :: "string \<Rightarrow> nat \<Rightarrow> nat \<Rightarrow> bool" where
  "printable s low high \<longleftrightarrow> low \<le> length s \<and> length s \<le> high \<and> list_all (\<lambda>c. 0x20 \<le> byte c \<and> byte c \<le> 0x7E) s"

definition parseOwner :: "env \<Rightarrow> string \<Rightarrow> string \<Rightarrow> (api_error, string \<times> string) result" where
  "parseOwner env tenant user =
     (if (case eParseUUID env tenant of None \<Rightarrow> True | Some i \<Rightarrow> i = uuid_Nil \<or> i \<noteq> tenant)
      then Inl (invalid ''tenant_id must be a canonical lowercase UUID'')
      else if \<not> printable user 1 128 then Inl (invalid ''user_id must be 1 to 128 printable ASCII characters'')
      else Inr (tenant, user))"

definition parseID :: "env \<Rightarrow> string \<Rightarrow> string \<Rightarrow> (api_error, uuid) result" where
  "parseID env v field = (case eParseUUID env v of
     None \<Rightarrow> Inl (invalid (field @ '' must be a canonical lowercase UUID''))
   | Some i \<Rightarrow> if i \<noteq> v then Inl (invalid (field @ '' must be a canonical lowercase UUID'')) else Inr i)"

text \<open>The language tags: two or three letters, then groups of two to eight letters or digits after hyphens.\<close>

fun split_on :: "char \<Rightarrow> string \<Rightarrow> string list" where
  "split_on c [] = [[]]"
| "split_on c (d # s) = (if d = c then [] # split_on c s else (case split_on c s of p # ps \<Rightarrow> (d # p) # ps | [] \<Rightarrow> [[d]]))"

definition ascii_letter :: "char \<Rightarrow> bool" where
  "ascii_letter c \<longleftrightarrow> CHR ''A'' \<le> c \<and> c \<le> CHR ''Z'' \<or> CHR ''a'' \<le> c \<and> c \<le> CHR ''z''"

definition ascii_digit :: "char \<Rightarrow> bool" where
  "ascii_digit c \<longleftrightarrow> CHR ''0'' \<le> c \<and> c \<le> CHR ''9''"

definition locale_ok :: "string \<Rightarrow> bool" where
  "locale_ok s = (case split_on (CHR ''-'') s of
     [] \<Rightarrow> False
   | p # ps \<Rightarrow> 2 \<le> length p \<and> length p \<le> 3 \<and> list_all ascii_letter p
       \<and> list_all (\<lambda>q. 2 \<le> length q \<and> length q \<le> 8 \<and> list_all (\<lambda>c. ascii_letter c \<or> ascii_digit c) q) ps)"

definition text_field :: "string \<Rightarrow> string \<Rightarrow> nat \<Rightarrow> (api_error, string) result" where
  "text_field v field high =
     (if length v > high \<or> \<not> ValidString v then Inl (invalid (field @ '' is too long or not UTF-8'')) else Inr v)"

subsection \<open>Conversations\<close>

definition OpenConversation :: "service \<Rightarrow> string \<Rightarrow> string \<Rightarrow> string \<Rightarrow> int \<Rightarrow> string
    \<Rightarrow> (api_error, uuid \<times> string \<times> function_tool list) result eng" where
  "OpenConversation s tenant user sessionID provider loc = (case parseOwner (svEnv s) tenant user of
     Inl e \<Rightarrow> ret (Inl e)
   | Inr (t, u) \<Rightarrow>
       if sessionID \<noteq> [] \<and> \<not> printable sessionID 1 128 then ret (Inl (invalid ''session_id must be up to 128 printable ASCII characters''))
       else if provider \<noteq> 1 \<and> provider \<noteq> PROVIDER_XAI then ret (Inl (invalid ''provider must be OpenAI or xAI''))
       else if loc \<noteq> [] \<and> \<not> locale_ok loc then ret (Inl (invalid ''locale must be a language tag such as el-GR''))
       else do {
         r \<leftarrow> Open (svEnv s) t u sessionID provider loc;
         ret (case r of Inl _ \<Rightarrow> Inl internal | Inr resp \<Rightarrow> Inr resp)
       })"

datatype role = ROLE_USER | ROLE_ASSISTANT | ROLE_OTHER

definition role_name :: "role \<Rightarrow> string" where
  "role_name r = (case r of ROLE_USER \<Rightarrow> ''user'' | ROLE_ASSISTANT \<Rightarrow> ''assistant'' | ROLE_OTHER \<Rightarrow> [])"

definition conversation_result :: "(conversation_error, 'a) result \<Rightarrow> (api_error, 'a) result" where
  "conversation_result r = (case r of Inl e \<Rightarrow> Inl (conversationError e) | Inr x \<Rightarrow> Inr x)"

definition Server_RecordTurn :: "service \<Rightarrow> string \<Rightarrow> role \<Rightarrow> int \<Rightarrow> string \<Rightarrow> string \<Rightarrow> (api_error, unit) result eng" where
  "Server_RecordTurn s conversationID role userTurn itemID txt =
     (case parseID (svEnv s) conversationID ''conversation_id'' of
        Inl e \<Rightarrow> ret (Inl e)
      | Inr i \<Rightarrow>
          if role_name role = [] then ret (Inl (invalid ''role must be USER or ASSISTANT''))
          else if userTurn < 0 then ret (Inl (invalid ''user_turn must not be negative''))
          else if \<not> printable itemID 1 128 then ret (Inl (invalid ''item_id must be 1 to 128 printable ASCII characters''))
          else case text_field txt ''text'' maxText of
            Inl e \<Rightarrow> ret (Inl e)
          | Inr body \<Rightarrow> do {
              r \<leftarrow> Engine_RecordTurn (svEnv s) i (role_name role) itemID userTurn (TrimSpace body);
              ret (conversation_result r)
            })"

definition Server_CallTool :: "service \<Rightarrow> string \<Rightarrow> string \<Rightarrow> string \<Rightarrow> string \<Rightarrow> int \<Rightarrow> (api_error, call_result) result eng" where
  "Server_CallTool s conversationID callID name argumentsJson userTurn =
     (case parseID (svEnv s) conversationID ''conversation_id'' of
        Inl e \<Rightarrow> ret (Inl e)
      | Inr i \<Rightarrow>
          if \<not> printable callID 1 128 then ret (Inl (invalid ''call_id must be 1 to 128 printable ASCII characters''))
          else if \<not> printable name 1 64 then ret (Inl (invalid ''name must be 1 to 64 printable ASCII characters''))
          else if length argumentsJson > maxArguments then ret (Inl (invalid ''arguments_json is larger than 64 KiB''))
          else if userTurn < 0 then ret (Inl (invalid ''user_turn must not be negative''))
          else do {
            r \<leftarrow> Engine_CallTool (svEnv s) i callID name (if TrimSpace argumentsJson = [] then ''{}'' else argumentsJson) userTurn;
            ret (conversation_result r)
          })"

definition Server_AckToolOutput :: "service \<Rightarrow> string \<Rightarrow> string \<Rightarrow> int \<Rightarrow> (api_error, unit) result eng" where
  "Server_AckToolOutput s conversationID callID userTurn =
     (case parseID (svEnv s) conversationID ''conversation_id'' of
        Inl e \<Rightarrow> ret (Inl e)
      | Inr i \<Rightarrow>
          if \<not> printable callID 1 128 \<or> userTurn < 0
          then ret (Inl (invalid ''call_id must be 1 to 128 printable ASCII characters and user_turn not negative''))
          else do {r \<leftarrow> AckToolOutput (svEnv s) i callID userTurn; ret (conversation_result r)})"

text \<open>
  A stream ends with a status, none for success; \<open>None\<close> is a stream that is still open after \<open>n\<close> rounds.
\<close>

definition WatchConversation :: "nat \<Rightarrow> service \<Rightarrow> sender \<Rightarrow> string \<Rightarrow> int
    \<Rightarrow> (api_error option \<times> conversation_event list) option eng" where
  "WatchConversation n s send conversationID after =
     (case parseID (svEnv s) conversationID ''conversation_id'' of
        Inl e \<Rightarrow> ret (Some (Some e, []))
      | Inr i \<Rightarrow>
          if after < 0 then ret (Some (Some (invalid ''after_event_id must not be negative''), []))
          else do {
            q \<leftarrow> sql_query (svEnv s) (\<lambda>now db. Conversation i db);
            (case q of
               Inl ErrNotFound \<Rightarrow> ret (Some (Some (conversationError ErrConversationNotFound), []))
             | Inl _ \<Rightarrow> ret (Some (Some internal, []))
             | Inr _ \<Rightarrow> do {
                 r \<leftarrow> Watch n (svEnv s) send i after;
                 (case r of
                    None \<Rightarrow> ret None
                  | Some (None, sent) \<Rightarrow> ret (Some (None, sent))
                  | Some (Some _, sent) \<Rightarrow> do {
                      stopped \<leftarrow> ctx_done (svEnv s);
                      ret (Some (if stopped then None else Some internal, sent))
                    })
               })
          })"

definition Server_AckEvent :: "service \<Rightarrow> string \<Rightarrow> int \<Rightarrow> int \<Rightarrow> (api_error, unit) result eng" where
  "Server_AckEvent s conversationID eventID userTurn =
     (case parseID (svEnv s) conversationID ''conversation_id'' of
        Inl e \<Rightarrow> ret (Inl e)
      | Inr i \<Rightarrow>
          if eventID \<le> 0 \<or> userTurn < 0 then ret (Inl (invalid ''event_id must be positive and user_turn not negative''))
          else do {r \<leftarrow> Ack (svEnv s) i eventID userTurn; ret (conversation_result r)})"

definition Server_CloseConversation :: "service \<Rightarrow> string \<Rightarrow> (api_error, unit) result eng" where
  "Server_CloseConversation s conversationID =
     (case parseID (svEnv s) conversationID ''conversation_id'' of
        Inl e \<Rightarrow> ret (Inl e)
      | Inr i \<Rightarrow> do {r \<leftarrow> Close (svEnv s) i; ret (conversation_result r)})"

subsection \<open>Tasks\<close>

definition taskError :: "store_error \<Rightarrow> api_error" where
  "taskError e = (case e of
     ErrNotFound \<Rightarrow> reasonError NotFound ''ERROR_REASON_TASK_NOT_FOUND'' ''task not found''
   | _ \<Rightarrow> internal)"

text \<open>A task with the approval it waits for: the approval's id, its device, its payload and expiry.\<close>

type_synonym task_view = "task_proto \<times> (string \<times> string \<times> bytes \<times> int) option"

definition taskProtos :: "env \<Rightarrow> task list \<Rightarrow> (store_error, task_view list) result eng" where
  "taskProtos env tasks = do {
     let waiting = map tkID (filter (\<lambda>t. tkState t = TaskAwaitingApproval) tasks);
     q \<leftarrow> (if waiting = [] then ret (Inr Map.empty) else sql_query env (\<lambda>now db. Inr (PendingApprovals now waiting db)));
     ret (case q of
       Inl e \<Rightarrow> Inl e
     | Inr approvals \<Rightarrow> Inr (map (\<lambda>t. (TaskProto t,
         map_option (\<lambda>p. (daApprovalID (paApproval p), paDeviceName p, daPayload (paApproval p), daExpiresAt (paApproval p)))
           (approvals (tkID t)))) tasks))
   }"

definition GetTask :: "service \<Rightarrow> string \<Rightarrow> string \<Rightarrow> string \<Rightarrow> (api_error, task_view) result eng" where
  "GetTask s tenant user taskID = (case parseOwner (svEnv s) tenant user of
     Inl e \<Rightarrow> ret (Inl e)
   | Inr (t, u) \<Rightarrow> (case parseID (svEnv s) taskID ''task_id'' of
       Inl e \<Rightarrow> ret (Inl e)
     | Inr i \<Rightarrow> do {
         q \<leftarrow> sql_query (svEnv s) (\<lambda>now db. Task (mustUUID (svEnv s) t) u i db);
         (case q of
            Inl e \<Rightarrow> ret (Inl (taskError e))
          | Inr task \<Rightarrow> do {
              p \<leftarrow> taskProtos (svEnv s) [task];
              ret (case p of Inl _ \<Rightarrow> Inl internal | Inr vs \<Rightarrow> Inr (hd vs))
            })
       }))"

definition ListTasks :: "service \<Rightarrow> string \<Rightarrow> string \<Rightarrow> int \<Rightarrow> (api_error, task_view list) result eng" where
  "ListTasks s tenant user limit0 = (case parseOwner (svEnv s) tenant user of
     Inl e \<Rightarrow> ret (Inl e)
   | Inr (t, u) \<Rightarrow>
       (let limit = (if limit0 = 0 then 20 else limit0) in
        if limit < 1 \<or> limit > 100 then ret (Inl (invalid ''limit must be between 1 and 100''))
        else do {
          q \<leftarrow> sql_query (svEnv s) (\<lambda>now db. Inr (Tasks (mustUUID (svEnv s) t) u (nat limit) db));
          (case q of
             Inl _ \<Rightarrow> ret (Inl internal)
           | Inr tasks \<Rightarrow> do {
               p \<leftarrow> taskProtos (svEnv s) tasks;
               ret (case p of Inl _ \<Rightarrow> Inl internal | Inr vs \<Rightarrow> Inr vs)
             })
        }))"

definition Server_CancelTask :: "service \<Rightarrow> string \<Rightarrow> string \<Rightarrow> string \<Rightarrow> (api_error, task_proto) result eng" where
  "Server_CancelTask s tenant user taskID = (case parseOwner (svEnv s) tenant user of
     Inl e \<Rightarrow> ret (Inl e)
   | Inr (t, u) \<Rightarrow> (case parseID (svEnv s) taskID ''task_id'' of
       Inl e \<Rightarrow> ret (Inl e)
     | Inr i \<Rightarrow> do {
         r \<leftarrow> Cancel (svEnv s) t u i;
         ret (case r of Inl e \<Rightarrow> Inl (taskError e) | Inr task \<Rightarrow> Inr (TaskProto task))
       }))"

subsection \<open>Devices\<close>

record device_proto =
  dpDeviceId :: string
  dpName :: string
  dpAddress :: string
  dpServerName :: string
  dpCreateTime :: int

definition deviceProto :: "device \<Rightarrow> device_proto" where
  "deviceProto d = \<lparr>dpDeviceId = dvID d, dpName = dvName d, dpAddress = dvAddress d, dpServerName = dvServerName d,
     dpCreateTime = dvCreatedAt d\<rparr>"

definition device_name_ok :: "(rune \<Rightarrow> bool) \<Rightarrow> (rune \<Rightarrow> bool) \<Rightarrow> string \<Rightarrow> bool" where
  "device_name_ok letter number name = (case map fst (runes name) of
     [] \<Rightarrow> False
   | r # rs \<Rightarrow> (letter r \<or> number r) \<and> length rs \<le> 63
       \<and> list_all (\<lambda>q. letter q \<or> number q \<or> q \<in> {32, 46, 95, 39, 45}) rs)"

record registration =
  rgName :: string
  rgAddress :: string
  rgServerName :: string
  rgCaPem :: string
  rgClientCertPem :: string
  rgClientKeyPem :: bytes

definition server_name :: "registration \<Rightarrow> string" where
  "server_name req = (if rgServerName req \<noteq> [] then rgServerName req
     else case SplitHostPort (rgAddress req) of None \<Rightarrow> [] | Some (host, _) \<Rightarrow> host)"

text \<open>The checks of a registration, in their order.\<close>

definition registration_error :: "service \<Rightarrow> registration \<Rightarrow> string option" where
  "registration_error s req =
     (let name = TrimSpace (rgName req) in
      if \<not> device_name_ok (svLetter s) (svNumber s) name \<or> RuneCountInString name > 64
      then Some ''name must be 1 to 64 letters, digits, spaces or ._'-''
      else case CheckAddress (ePrintable (svEnv s)) (svAllowLoopback s) (rgAddress req) of
        Some err \<Rightarrow> Some err
      | None \<Rightarrow>
          if \<not> printable (server_name req) 1 253 then Some ''server_name is invalid''
          else if length (rgCaPem req) > maxPEM \<or> length (rgClientCertPem req) > maxPEM \<or> length (rgClientKeyPem req) > maxPEM
          then Some ''PEM data is too large''
          else if \<not> svParseCertificate s (rgCaPem req) then Some ''ca_pem must be a PEM certificate''
          else if \<not> svKeyPair s (rgClientCertPem req) (rgClientKeyPem req)
          then Some ''client_cert_pem and client_key_pem must be a matching PEM certificate and key''
          else None)"

definition store_device :: "service \<Rightarrow> string \<Rightarrow> string \<Rightarrow> registration \<Rightarrow> uuid \<Rightarrow> bytes \<Rightarrow> (api_error, device_proto) result eng" where
  "store_device s tenant user req i sealed = do {
     r \<leftarrow> sql (svEnv s) (\<lambda>now db. UpsertDevice now \<lparr>dvID = i, dvTenantID = mustUUID (svEnv s) tenant, dvUserID = user,
            dvName = TrimSpace (rgName req), dvAddress = rgAddress req, dvServerName = server_name req, dvCAPEM = rgCaPem req,
            dvClientCertPEM = rgClientCertPem req, dvClientKeySealed = sealed, dvCreatedAt = 0\<rparr> db);
     (case r of
        Inl _ \<Rightarrow> ret (Inl internal)
      | Inr d \<Rightarrow> do {
          call (ForgetDevice (dvID d)) (\<lambda>_. ());
          ret (Inr (deviceProto d))
        })
   }"

definition RegisterDevice :: "service \<Rightarrow> string \<Rightarrow> string \<Rightarrow> registration \<Rightarrow> (api_error, device_proto) result eng" where
  "RegisterDevice s tenant user req = (case parseOwner (svEnv s) tenant user of
     Inl e \<Rightarrow> ret (Inl e)
   | Inr (t, u) \<Rightarrow> (case registration_error s req of
       Some message \<Rightarrow> ret (Inl (invalid message))
     | None \<Rightarrow> do {
         i0 \<leftarrow> new_uuid (svEnv s);
         q \<leftarrow> sql_query (svEnv s) (\<lambda>now db. Inr (Devices (mustUUID (svEnv s) t) u db));
         (case q of
            Inl _ \<Rightarrow> ret (Inl internal)
          | Inr devices \<Rightarrow> do {
              let i = foldl (\<lambda>i d. if dvName d = TrimSpace (rgName req) then dvID d else i) i0 devices;
              sealed \<leftarrow> call (SealKey t PurposeDeviceKey i (rgClientKeyPem req))
                (\<lambda>k. svSeal s k t PurposeDeviceKey i (rgClientKeyPem req));
              (case sealed of
                 Inl e \<Rightarrow> ret (Inl (if reCode e = Unavailable
                   then \<lparr>aeCode = Unavailable, aeMessage = ''the key vault is unavailable'', aeReason = []\<rparr> else internal))
               | Inr bytes \<Rightarrow> store_device s t u req i bytes)
            })
       }))"

definition ListDevices :: "service \<Rightarrow> string \<Rightarrow> string \<Rightarrow> (api_error, device_proto list) result eng" where
  "ListDevices s tenant user = (case parseOwner (svEnv s) tenant user of
     Inl e \<Rightarrow> ret (Inl e)
   | Inr (t, u) \<Rightarrow> do {
       q \<leftarrow> sql_query (svEnv s) (\<lambda>now db. Inr (Devices (mustUUID (svEnv s) t) u db));
       ret (case q of Inl _ \<Rightarrow> Inl internal | Inr ds \<Rightarrow> Inr (map deviceProto ds))
     })"

definition RemoveDevice :: "service \<Rightarrow> string \<Rightarrow> string \<Rightarrow> string \<Rightarrow> (api_error, unit) result eng" where
  "RemoveDevice s tenant user deviceID = (case parseOwner (svEnv s) tenant user of
     Inl e \<Rightarrow> ret (Inl e)
   | Inr (t, u) \<Rightarrow> (case parseID (svEnv s) deviceID ''device_id'' of
       Inl e \<Rightarrow> ret (Inl e)
     | Inr i \<Rightarrow> do {
         q \<leftarrow> sql_ok (svEnv s) (\<lambda>now db. DeleteDevice (mustUUID (svEnv s) t) u i db);
         (case q of
            Inl _ \<Rightarrow> ret (Inl internal)
          | Inr _ \<Rightarrow> do {
              call (ForgetDevice i) (\<lambda>_. ());
              ret (Inr ())
            })
       }))"

definition SubmitDeviceApproval :: "service \<Rightarrow> string \<Rightarrow> string \<Rightarrow> string \<Rightarrow> string \<Rightarrow> bytes \<Rightarrow> (api_error, string) result eng" where
  "SubmitDeviceApproval s tenant user approvalID approverID signature = (case parseOwner (svEnv s) tenant user of
     Inl e \<Rightarrow> ret (Inl e)
   | Inr (t, u) \<Rightarrow>
       if \<not> printable approvalID 1 128 then ret (Inl (invalid ''approval_id is required''))
       else if \<not> printable approverID 1 128 then ret (Inl (invalid ''approver_id is required''))
       else if length signature \<noteq> 64 then ret (Inl (invalid ''signature must be 64 bytes (ECDSA P-256 r||s)''))
       else do {
         r \<leftarrow> SubmitApproval (svEnv s) t u approvalID approverID signature;
         ret (case r of
           Inl ErrApprovalNotFound \<Rightarrow> Inl (reasonError NotFound ''ERROR_REASON_APPROVAL_NOT_FOUND'' ''no pending approval with this id'')
         | Inl (ErrApprovalRejected m) \<Rightarrow>
             Inl (reasonError PermissionDenied ''ERROR_REASON_APPROVAL_REJECTED'' (''the device rejected the approval: '' @ m))
         | Inl _ \<Rightarrow> Inl \<lparr>aeCode = Unavailable, aeMessage = ''the device is not reachable'', aeReason = []\<rparr>
         | Inr out \<Rightarrow> Inr out)
       })"

subsection \<open>Notifications\<close>

definition maxNotificationWait :: int where "maxNotificationWait = 30000000"

datatype notification_kind_proto = APPROVAL_NEEDED | CONFIRMATION_NEEDED | TASK_FINISHED

definition notificationKinds :: "notification_kind \<Rightarrow> notification_kind_proto" where
  "notificationKinds k = (case k of NotifyApproval \<Rightarrow> APPROVAL_NEEDED | NotifyConfirmation \<Rightarrow> CONFIRMATION_NEEDED
     | NotifyFinished \<Rightarrow> TASK_FINISHED)"

record notification_proto =
  npNotificationId :: int
  npTenantId :: string
  npUserId :: string
  npKind :: notification_kind_proto
  npTaskId :: string
  npTaskState :: task_state
  npCreateTime :: int

definition notificationProto :: "notification \<Rightarrow> notification_proto" where
  "notificationProto n = \<lparr>npNotificationId = noID n, npTenantId = noTenantID n, npUserId = noUserID n,
     npKind = notificationKinds (noKind n), npTaskId = noTaskID n, npTaskState = noTaskState n, npCreateTime = noCreatedAt n\<rparr>"

definition Server_ClaimNotifications :: "nat \<Rightarrow> service \<Rightarrow> string \<Rightarrow> int \<Rightarrow> int
    \<Rightarrow> (api_error, notification_proto list) result option eng" where
  "Server_ClaimNotifications n s consumer mx wait =
     (if \<not> printable consumer 1 128 then ret (Some (Inl (invalid ''consumer must be 1 to 128 printable ASCII characters'')))
      else if mx < 1 \<or> mx > 100 then ret (Some (Inl (invalid ''max must be 1 to 100'')))
      else if wait < 0 \<or> wait > maxNotificationWait then ret (Some (Inl (invalid ''wait must be 0 to 30s'')))
      else do {
        r \<leftarrow> Engine_ClaimNotifications n (svEnv s) consumer (nat mx) wait;
        ret (case r of
          None \<Rightarrow> None
        | Some (Inl _) \<Rightarrow> Some (Inl internal)
        | Some (Inr claimed) \<Rightarrow> Some (Inr (map notificationProto claimed)))
      })"

definition Server_CompleteNotifications :: "service \<Rightarrow> int list \<Rightarrow> (api_error, unit) result eng" where
  "Server_CompleteNotifications s ids =
     (if length ids > 100 then ret (Inl (invalid ''at most 100 notification_ids''))
      else if ids \<noteq> [] then do {
        r \<leftarrow> sql_do (svEnv s) (\<lambda>now db. CompleteNotifications now ids db);
        ret (case r of Inl _ \<Rightarrow> Inl internal | Inr _ \<Rightarrow> Inr ())
      }
      else ret (Inr ()))"

end
