(* ===== verification/OrchApi.thy ===== *)
theory OrchApi
  imports OrchServer
begin

text \<open>
  The requests of the orchestrator's API as one type, and the server that answers them: \<open>serve\<close> gives the error a
  request is refused with, if any.  (\<open>n\<close> bounds the rounds of the two handlers that wait.)
\<close>

datatype request =
    OpenConversationRequest string string string int string
  | RecordTurnRequest string role int string string
  | CallToolRequest string string string string int
  | AckToolOutputRequest string string int
  | WatchConversationRequest nat sender string int
  | AckEventRequest string int int
  | CloseConversationRequest string
  | GetTaskRequest string string string
  | ListTasksRequest string string int
  | CancelTaskRequest string string string
  | RegisterDeviceRequest string string registration
  | ListDevicesRequest string string
  | RemoveDeviceRequest string string string
  | SubmitDeviceApprovalRequest string string string string bytes
  | ClaimNotificationsRequest nat string int int
  | CompleteNotificationsRequest "int list"

definition refusal :: "(api_error, 'a) result \<Rightarrow> api_error option" where
  "refusal r = (case r of Inl e \<Rightarrow> Some e | Inr _ \<Rightarrow> None)"

definition answering :: "('a \<Rightarrow> api_error option) \<Rightarrow> 'a eng \<Rightarrow> api_error option eng" where
  "answering f m = do {r \<leftarrow> m; ret (f r)}"

fun serve :: "service \<Rightarrow> request \<Rightarrow> api_error option eng" where
  "serve s (OpenConversationRequest tenant user sessionID provider loc) =
     answering refusal (OpenConversation s tenant user sessionID provider loc)"
| "serve s (RecordTurnRequest conversationID role userTurn itemID txt) =
     answering refusal (Server_RecordTurn s conversationID role userTurn itemID txt)"
| "serve s (CallToolRequest conversationID callID name args userTurn) =
     answering refusal (Server_CallTool s conversationID callID name args userTurn)"
| "serve s (AckToolOutputRequest conversationID callID userTurn) =
     answering refusal (Server_AckToolOutput s conversationID callID userTurn)"
| "serve s (WatchConversationRequest n send conversationID after) =
     answering (\<lambda>r. case r of None \<Rightarrow> None | Some (e, _) \<Rightarrow> e) (WatchConversation n s send conversationID after)"
| "serve s (AckEventRequest conversationID eventID userTurn) = answering refusal (Server_AckEvent s conversationID eventID userTurn)"
| "serve s (CloseConversationRequest conversationID) = answering refusal (Server_CloseConversation s conversationID)"
| "serve s (GetTaskRequest tenant user taskID) = answering refusal (GetTask s tenant user taskID)"
| "serve s (ListTasksRequest tenant user limit) = answering refusal (ListTasks s tenant user limit)"
| "serve s (CancelTaskRequest tenant user taskID) = answering refusal (Server_CancelTask s tenant user taskID)"
| "serve s (RegisterDeviceRequest tenant user reg) = answering refusal (RegisterDevice s tenant user reg)"
| "serve s (ListDevicesRequest tenant user) = answering refusal (ListDevices s tenant user)"
| "serve s (RemoveDeviceRequest tenant user deviceID) = answering refusal (RemoveDevice s tenant user deviceID)"
| "serve s (SubmitDeviceApprovalRequest tenant user approvalID approverID sig) =
     answering refusal (SubmitDeviceApproval s tenant user approvalID approverID sig)"
| "serve s (ClaimNotificationsRequest n consumer mx wait) =
     answering (\<lambda>r. case r of None \<Rightarrow> None | Some x \<Rightarrow> refusal x) (Server_ClaimNotifications n s consumer mx wait)"
| "serve s (CompleteNotificationsRequest ids) = answering refusal (Server_CompleteNotifications s ids)"

lemmas conversation_handlers = OpenConversation_def Server_RecordTurn_def Server_CallTool_def Server_AckToolOutput_def
  WatchConversation_def Server_AckEvent_def Server_CloseConversation_def
lemmas task_handlers = GetTask_def ListTasks_def Server_CancelTask_def
lemmas device_handlers = RegisterDevice_def ListDevices_def RemoveDevice_def SubmitDeviceApproval_def
lemmas notification_handlers = Server_ClaimNotifications_def Server_CompleteNotifications_def

subsection \<open>Refused requests\<close>

text \<open>
  \<open>no_invalid f m\<close>: the answer of \<open>m\<close>, read by \<open>f\<close>, is never \<^verbatim>\<open>InvalidArgument\<close>.  \<open>clean f m\<close>: when it is, the world is as it was.
\<close>

definition no_invalid :: "('a \<Rightarrow> api_error option) \<Rightarrow> 'a eng \<Rightarrow> bool" where
  "no_invalid f m \<longleftrightarrow> (\<forall>w e. f (fst (run_state m w)) = Some e \<longrightarrow> aeCode e \<noteq> InvalidArgument)"

definition clean :: "('a \<Rightarrow> api_error option) \<Rightarrow> 'a eng \<Rightarrow> bool" where
  "clean f m \<longleftrightarrow> (\<forall>w e. f (fst (run_state m w)) = Some e \<longrightarrow> aeCode e = InvalidArgument \<longrightarrow> snd (run_state m w) = w)"

named_theorems status \<open>rules for the status of an answer\<close>

lemma no_invalid_ret [status]: "(\<And>e. f x = Some e \<Longrightarrow> aeCode e \<noteq> InvalidArgument) \<Longrightarrow> no_invalid f (ret x)"
  by (simp add: no_invalid_def)

lemma no_invalid_bind [status]: "(\<And>x. no_invalid f (g x)) \<Longrightarrow> no_invalid f (State_Monad.bind m g)"
  by (simp add: no_invalid_def split: prod.splits)

lemma no_invalid_sum [status]:
  "(\<And>y. no_invalid f (g y)) \<Longrightarrow> (\<And>y. no_invalid f (h y)) \<Longrightarrow> no_invalid f (case x of Inl y \<Rightarrow> g y | Inr y \<Rightarrow> h y)"
  by (cases x) auto

lemma no_invalid_option [status]:
  "no_invalid f m \<Longrightarrow> (\<And>y. no_invalid f (g y)) \<Longrightarrow> no_invalid f (case x of None \<Rightarrow> m | Some y \<Rightarrow> g y)"
  by (cases x) auto

lemma no_invalid_prod [status]: "(\<And>y z. no_invalid f (g y z)) \<Longrightarrow> no_invalid f (case x of (y, z) \<Rightarrow> g y z)"
  by (cases x) auto

lemma no_invalid_store_error [status]:
  "no_invalid f m \<Longrightarrow> no_invalid f n \<Longrightarrow> (\<And>y. no_invalid f (g y)) \<Longrightarrow> no_invalid f p \<Longrightarrow>
   no_invalid f (case x of ErrNotFound \<Rightarrow> m | ErrConstraint \<Rightarrow> n | ErrUpdate y \<Rightarrow> g y | ErrUnavailable \<Rightarrow> p)"
  by (cases x) auto

lemma clean_ret [status]: "clean f (ret x)"
  by (simp add: clean_def)

lemma clean_bind [status]: "(\<And>x. no_invalid f (g x)) \<Longrightarrow> clean f (State_Monad.bind m g)"
  by (simp add: clean_def no_invalid_def split: prod.splits)

lemma clean_if [status]: "clean f m \<Longrightarrow> clean f n \<Longrightarrow> clean f (if b then m else n)"
  by simp

lemma clean_sum [status]:
  "(\<And>y. clean f (g y)) \<Longrightarrow> (\<And>y. clean f (h y)) \<Longrightarrow> clean f (case x of Inl y \<Rightarrow> g y | Inr y \<Rightarrow> h y)"
  by (cases x) auto

lemma clean_option [status]: "clean f m \<Longrightarrow> (\<And>y. clean f (g y)) \<Longrightarrow> clean f (case x of None \<Rightarrow> m | Some y \<Rightarrow> g y)"
  by (cases x) auto

lemma clean_prod [status]: "(\<And>y z. clean f (g y z)) \<Longrightarrow> clean f (case x of (y, z) \<Rightarrow> g y z)"
  by (cases x) auto

lemma clean_let [status]: "(\<And>x. clean f (g x)) \<Longrightarrow> clean f (let x = t in g x)"
  by simp

lemmas status_texts = refusal_def conversation_result_def conversationError_def taskError_def reasonError_def internal_def

lemma clean_conversation_handlers [status]:
  "clean refusal (OpenConversation s tenant user sessionID provider loc)"
  "clean refusal (Server_RecordTurn s conversationID role userTurn itemID txt)"
  "clean refusal (Server_CallTool s conversationID callID name args userTurn)"
  "clean refusal (Server_AckToolOutput s conversationID callID userTurn)"
  "clean (\<lambda>r. case r of None \<Rightarrow> None | Some (e, _) \<Rightarrow> e) (WatchConversation n s send conversationID after)"
  "clean refusal (Server_AckEvent s conversationID eventID userTurn)"
  "clean refusal (Server_CloseConversation s conversationID)"
  unfolding conversation_handlers
  by (intro status; auto simp: status_texts split: sum.splits conversation_error.splits if_splits)+

lemma clean_task_handlers [status]:
  "clean refusal (GetTask s tenant user taskID)" "clean refusal (ListTasks s tenant user limit)"
  "clean refusal (Server_CancelTask s tenant user taskID)"
  unfolding task_handlers
  by (intro status; auto simp: status_texts split: sum.splits store_error.splits)+

lemma clean_device_handlers [status]:
  "clean refusal (RegisterDevice s tenant user reg)" "clean refusal (ListDevices s tenant user)"
  "clean refusal (RemoveDevice s tenant user deviceID)" "clean refusal (SubmitDeviceApproval s tenant user approvalID approverID sig)"
  unfolding device_handlers store_device_def Let_def
  by (intro status; auto simp: status_texts split: sum.splits approval_error.splits if_splits)+

lemma clean_notification_handlers [status]:
  "clean (\<lambda>r. case r of None \<Rightarrow> None | Some x \<Rightarrow> refusal x) (Server_ClaimNotifications n s consumer mx wait)"
  "clean refusal (Server_CompleteNotifications s ids)"
  unfolding notification_handlers
  by (intro status; auto simp: status_texts split: sum.splits option.splits)+

lemma answering_clean: "clean f m \<Longrightarrow> fst (run_state (answering f m) w) = Some e \<Longrightarrow> aeCode e = InvalidArgument \<Longrightarrow>
    snd (run_state (answering f m) w) = w"
  by (simp add: answering_def clean_def split: prod.splits) (metis fst_conv snd_conv)

subsection \<open>An environment for the examples\<close>

definition quiet_env :: env where
  "quiet_env = \<lparr>eOpts = \<lparr>opOpenAIModel = ''a'', opXAIModel = ''b'', opTaskMaxSteps = 3, opTaskTimeout = 1000, opToolTimeout = 100,
      opConfirmationTTL = 500, opTranscriptRetention = 1000, opMaxVoiceTools = 10, opPollInterval = 10\<rparr>,
     eRequestID = ''r'', eClock = (\<lambda>k. 100 + int k), eUUID = (\<lambda>k. ''id'' @ FormatUint k), eFault = (\<lambda>_. Works), eDone = (\<lambda>_. False),
     eOthers = (\<lambda>_ w. w), eJsonb = (\<lambda>s. if s = [] then None else Some s), eParseUUID = Some, ePrintable = (\<lambda>_. True),
     eStoreErrorText = (\<lambda>_. ''error''),
     eMarshalItem = (\<lambda>_. Some ''{}''), eUnmarshalItem = (\<lambda>_. Some (UserText [])),
     eMarshalCall = (\<lambda>_. Some ''{}''), eUnmarshalCall = (\<lambda>_. None), eMarshalCommand = (\<lambda>_. Some ''{}''),
     eUnmarshalCommand = (\<lambda>_. Some \<lparr>cmProgram = ''/bin/ls'', cmArgs = [], cmWorkingDirectory = [], cmTimeout = None, cmSandbox = None\<rparr>),
     eMarshalEvent = (\<lambda>_. Some []), eUnmarshalEvent = (\<lambda>_. None), eListTools = (\<lambda>_. Inr []),
     eCallTool = (\<lambda>_ _. Inr \<lparr>mrContent = [], mrStructuredContentJson = [], mrTruncated = False, mrIsError = False\<rparr>),
     eRetrieve = (\<lambda>_ _. Inr []), eUpsert = (\<lambda>_ _. Inr ()), eProviderKey = (\<lambda>_ _ _. NoKey),
     eDecide = (\<lambda>_ _. Inr \<lparr>drText = ''done'', drToolCalls = [], drStep = []\<rparr>),
     eExtract = (\<lambda>_ _. Inr \<lparr>xrEntities = [], xrRelations = [], xrPassages = []\<rparr>),
     eClient = (\<lambda>_ _. None),
     eExecute = (\<lambda>_ _ _ _ _. Inr (ExecResult \<lparr>rsExitCode = 0, rsStdout = [], rsStderr = [], rsStdoutTruncated = False,
       rsStderrTruncated = False, rsTimedOut = False\<rparr>))\<rparr>"

definition empty_world :: world where
  "empty_world = \<lparr>wDb = empty_orch_db, wCalls = [], wBroker = [], wWake = False, wTick = 0\<rparr>"

definition quiet_service :: service where
  "quiet_service = \<lparr>svEnv = quiet_env, svAllowLoopback = False, svLetter = (\<lambda>r. 97 \<le> r \<and> r \<le> 122), svNumber = (\<lambda>r. 48 \<le> r \<and> r \<le> 57),
     svParseCertificate = (\<lambda>_. True), svKeyPair = (\<lambda>_ _. True), svSeal = (\<lambda>_ _ _ _ key. Inr (rev key))\<rparr>"

subsection \<open>Properties\<close>

text \<open>
  C35.  A request the API refuses as invalid has no effect: no statement was sent, no service called, nobody woken; even the clock was not
  read.
\<close>

theorem invalid_requests_change_nothing:
  assumes "fst (run_state (serve s req) w) = Some e" "aeCode e = InvalidArgument"
  shows "snd (run_state (serve s req) w) = w"
  using assms by (cases req) (simp_all add: answering_clean status)

theorem invalid_requests_change_nothing_witness:
  "snd (run_state (serve quiet_service (CancelTaskRequest ''t'' [] ''x'')) empty_world) = empty_world"
proof (rule invalid_requests_change_nothing)
  show "fst (run_state (serve quiet_service (CancelTaskRequest ''t'' [] ''x'')) empty_world)
      = Some (invalid ''user_id must be 1 to 128 printable ASCII characters'')"
    by (simp add: answering_def Server_CancelTask_def parseOwner_def quiet_service_def quiet_env_def printable_def uuid_Nil_def refusal_def)
qed (simp add: invalid_def)

end
