(* ===== verification/EngineSafety.thy ===== *)
theory EngineSafety
  imports EngineAsk OrchApi "HOL-Library.Code_Target_Numeral"
begin

text \<open>
  The orchestrator as a whole: the requests its API answers and the rounds of its workers as one step relation, and what holds in every world
  they reach.
\<close>

subsection \<open>The API keeps the guarantee\<close>

lemma io_conversation_error:
  "state_io_rel R m \<Longrightarrow> state_io_rel R n \<Longrightarrow> (\<And>e. state_io_rel R (f e)) \<Longrightarrow>
   state_io_rel R (case x of ErrConversationNotFound \<Rightarrow> m | ErrConversationClosed \<Rightarrow> n | StoreError e \<Rightarrow> f e)"
  by (cases x) auto

lemma io_conversation_handlers [io]:
  assumes "rely (svEnv s)"
  shows "state_io_rel guarantee (OpenConversation s tenant user sessionID provider loc)"
    "state_io_rel guarantee (Server_RecordTurn s conversationID role userTurn itemID txt)"
    "state_io_rel guarantee (Server_CallTool s conversationID callID name args userTurn)"
    "state_io_rel guarantee (Server_AckToolOutput s conversationID callID userTurn)"
    "state_io_rel guarantee (WatchConversation n s send conversationID after)"
    "state_io_rel guarantee (Server_AckEvent s conversationID eventID userTurn)"
    "state_io_rel guarantee (Server_CloseConversation s conversationID)"
  unfolding conversation_handlers by (intro io_cases io assms)+

lemma io_task_handlers [io]:
  assumes "rely (svEnv s)"
  shows "state_io_rel guarantee (GetTask s tenant user taskID)" "state_io_rel guarantee (ListTasks s tenant user limit)"
    "state_io_rel guarantee (Server_CancelTask s tenant user taskID)"
  unfolding task_handlers taskProtos_def by (intro io_cases io assms)+

lemma io_device_handlers [io]:
  assumes "rely (svEnv s)"
  shows "state_io_rel guarantee (RegisterDevice s tenant user reg)" "state_io_rel guarantee (ListDevices s tenant user)"
    "state_io_rel guarantee (RemoveDevice s tenant user deviceID)"
    "state_io_rel guarantee (SubmitDeviceApproval s tenant user approvalID approverID sig)"
  unfolding device_handlers store_device_def
  by (intro io_cases io assms store_step.UpsertDevice store_step.DeleteDevice; simp)+

lemma io_notification_handlers [io]:
  assumes "rely (svEnv s)"
  shows "state_io_rel guarantee (Server_ClaimNotifications n s consumer mx wait)"
    "state_io_rel guarantee (Server_CompleteNotifications s ids)"
  unfolding notification_handlers by (intro io_cases io assms store_step.CompleteNotifications)+

lemma io_serve [io]: "rely (svEnv s) \<Longrightarrow> state_io_rel guarantee (serve s req)"
  by (cases req) (simp_all add: answering_def, (intro io_cases io; assumption)+)

subsection \<open>Steps of the orchestrator\<close>

inductive orchestrator_step :: "service \<Rightarrow> world \<Rightarrow> world \<Rightarrow> bool" for s where
  serve: "orchestrator_step s w (snd (run_state (serve s req) w))"
| taskWorker: "orchestrator_step s w (snd (run_state (taskWorker n (svEnv s) owner) w))"
| renew_tick: "orchestrator_step s w (snd (run_state (renew_tick (svEnv s) owner t) w))"
| memoryWorker: "orchestrator_step s w (snd (run_state (memoryWorker (svEnv s)) w))"
| maintenance: "orchestrator_step s w (snd (run_state (maintenance (svEnv s) lastPurge) w))"

lemma state_io_relI': "state_io_rel R m \<Longrightarrow> R w (snd (run_state m w))"
  by (simp add: state_io_rel_def)

lemma orchestrator_step_guarantee: "orchestrator_step s w w' \<Longrightarrow> rely (svEnv s) \<Longrightarrow> guarantee w w'"
  by (induction rule: orchestrator_step.induct) (rule state_io_relI', intro io, assumption)+

lemma orchestrator_steps_guarantee: "(orchestrator_step s)\<^sup>*\<^sup>* w w' \<Longrightarrow> rely (svEnv s) \<Longrightarrow> guarantee w w'"
  by (induction rule: rtranclp_induct) (auto intro: guarantee_refl guarantee_trans orchestrator_step_guarantee)

lemma empty_world_counts: "writes empty_world u = 0" "confirmed (wDb empty_world) u = {}"
  by (simp_all add: empty_world_def empty_orch_db_def writes_def confirmed_def)

subsection \<open>Examples\<close>

lemma quiet_rely: "rely quiet_env"
  by (simp add: rely_def quiet_env_def guarantee_refl)

text \<open>
  A session with an integration that can send mail: the user opens a conversation, the model asks to send, the question is spoken, and in the next
  turn the user agrees.
\<close>

definition mail_env :: env where
  "mail_env = quiet_env\<lparr>eListTools := (\<lambda>_. Inr [sample_tool])\<rparr>"

definition mail_service :: service where
  "mail_service = quiet_service\<lparr>svEnv := mail_env\<rparr>"

definition agreement :: string where
  "agreement = ''{'' @ [CHR 0x22] @ ''confirmation_id'' @ [CHR 0x22] @ '':'' @ [CHR 0x22] @ ''id8'' @ [CHR 0x22] @ ''}''"

definition mail_session :: "request list" where
  "mail_session =
     [OpenConversationRequest ''t'' ''ann'' [] 1 [],
      CallToolRequest ''id2'' ''a'' ''mail__send'' ''{}'' 1,
      AckToolOutputRequest ''id2'' ''a'' 1,
      CallToolRequest ''id2'' ''b'' ''confirm_action'' agreement 2]"

fun serve_all :: "service \<Rightarrow> request list \<Rightarrow> world \<Rightarrow> world" where
  "serve_all s [] w = w"
| "serve_all s (r # rs) w = serve_all s rs (snd (run_state (serve s r) w))"

lemma serve_all_steps: "(orchestrator_step s)\<^sup>*\<^sup>* w (serve_all s rs w)"
  by (induction rs arbitrary: w) (auto intro: converse_rtranclp_into_rtranclp orchestrator_step.serve)

lemma mail_rely: "rely (svEnv mail_service)"
  using quiet_rely by (simp add: rely_def mail_service_def mail_env_def)

definition offers_and_uses :: "world \<Rightarrow> tool_use list \<times> bool list list \<times> nat" where
  "offers_and_uses w = (mcp_uses (wCalls w), map (\<lambda>c. map (\<lambda>(_, t). taReadOnly t) (coTools c)) (odConversations (wDb w)),
     length (odTasks (wDb w)))"

definition mail_session_world :: world where
  "mail_session_world =
     snd (run_state (Engine_CallTool mail_env ''id2'' ''b'' ''confirm_action'' agreement 2)
       (snd (run_state (AckToolOutput mail_env ''id2'' ''a'' 1)
         (snd (run_state (Engine_CallTool mail_env ''id2'' ''a'' ''mail__send'' ''{}'' 1)
           (snd (run_state (Open mail_env ''t'' ''ann'' [] 1 []) empty_world)))))))"

lemma mail_session_engine: "serve_all mail_service mail_session empty_world = mail_session_world"
proof -
  have env: "svEnv mail_service = mail_env" by (simp add: mail_service_def)
  have parse: "eParseUUID mail_env = Some" by (simp add: mail_env_def quiet_env_def)
  have trim: "TrimSpace ''{}'' \<noteq> []" "TrimSpace agreement \<noteq> []" unfolding agreement_def by code_simp+
  have big: "length agreement \<le> maxArguments" by (simp add: agreement_def maxArguments_def)
  have ascii: "printable ''ann'' 1 128" "printable ''a'' 1 128" "printable ''b'' 1 128" "printable ''mail__send'' 1 64"
    "printable ''confirm_action'' 1 64" by code_simp+
  show ?thesis
    using trim big ascii
    by (simp add: mail_session_def mail_session_world_def Let_def answering_def OpenConversation_def Server_CallTool_def
        Server_AckToolOutput_def parseOwner_def parseID_def env parse uuid_Nil_def maxArguments_def split_beta)
qed

lemma mail_session_result: "offers_and_uses mail_session_world
    = ([(''t'', ''ann'', ''i1'', ''send'', ''{}'')], [[False, False, False, False, False, False]], 0)"
  by code_simp

lemma mail_session_uses:
  "mcp_uses (wCalls (serve_all mail_service mail_session empty_world)) = [(''t'', ''ann'', ''i1'', ''send'', ''{}'')]"
  using mail_session_result by (simp add: mail_session_engine offers_and_uses_def)

lemma mail_session_read_only:
  "\<not> read_only (wDb (serve_all mail_service mail_session empty_world)) u"
proof
  let ?db = "wDb (serve_all mail_service mail_session empty_world)"
  assume "read_only ?db u"
  moreover have "odTasks ?db = []" using mail_session_result by (simp add: mail_session_engine offers_and_uses_def)
  ultimately obtain c n t where c: "c \<in> set (odConversations ?db)" "(n, t) \<in> set (coTools c)" "taReadOnly t"
    by (auto simp: read_only_def toolsets_def read_only_target_def split: prod.splits)
  let ?flags = "\<lambda>c. map (\<lambda>(_, t). taReadOnly t) (coTools c)"
  have "set (map ?flags (odConversations ?db)) = {[False, False, False, False, False, False]}"
    using mail_session_result by (simp add: mail_session_engine offers_and_uses_def)
  with c(1) have "?flags c = [False, False, False, False, False, False]" by (auto simp: image_iff)
  moreover from c(2,3) have "True \<in> set (?flags c)" by force
  ultimately show False by simp
qed

subsection \<open>Properties\<close>



text \<open>
  C8.  The engine refines the store's state machine: whatever an operation does, with its failed
  statements and what others do in between, the database it leaves is one that a sequence of store methods leads to, and it
  satisfies the store's invariant.
\<close>

theorem engine_refines_store:
  assumes "rely (svEnv s)" "db_ok (wDb w)" "(orchestrator_step s)\<^sup>*\<^sup>* w w'"
  shows "store_steps (wDb w) (wDb w') \<and> db_ok (wDb w')"
  using orchestrator_steps_guarantee [OF assms(3,1)] assms(2) by (auto simp: guarantee_def within_def intro: db_ok_steps)

theorem engine_refines_store_witness:
  "store_steps orch_sample (wDb (serve_all quiet_service [RecordTurnRequest ''c1'' ROLE_USER 4 ''i'' ''hi''] (empty_world\<lparr>wDb := orch_sample\<rparr>)))
   \<and> db_ok (wDb (serve_all quiet_service [RecordTurnRequest ''c1'' ROLE_USER 4 ''i'' ''hi''] (empty_world\<lparr>wDb := orch_sample\<rparr>)))"
proof -
  have "rely (svEnv quiet_service)" using quiet_rely by (simp add: quiet_service_def)
  from engine_refines_store [OF this _ serve_all_steps, of "empty_world\<lparr>wDb := orch_sample\<rparr>"] orch_sample_ok
  show ?thesis by (simp del: serve_all.simps)
qed

end
