(* ===== verification/AuditLog.thy ===== *)
theory AuditLog
  imports AuditService
begin

text \<open>
  The recorder every Go service sends its audit events with, after \<^verbatim>\<open>libs/go/auditlog/auditlog.go\<close>, in front of the audit
  service of \<^theory_text>\<open>AuditServer\<close>.  \<^verbatim>\<open>Record\<close> puts an event into a bounded queue; a goroutine collects batches and sends them.

  The recorder and its loop are a state machine.  A call of \<^verbatim>\<open>Record\<close> is two steps, since \<^verbatim>\<open>Close\<close> may run between its look
  at \<^verbatim>\<open>closed\<close> and its send to the queue.  One iteration of the loop is one step; the cases its two \<^verbatim>\<open>select\<close> statements take
  are arguments.  A call of the service arrives or not, and its reply arrives or not (\<open>link\<close>); other clients write to the
  trail in between (\<open>acOthers\<close>).  Times are nanoseconds.  A \<^verbatim>\<open>nil\<close> recorder, which does nothing, has no state to model.
\<close>

subsection \<open>Events\<close>

record log_actor =
  laKind :: int
  laID :: string

definition UserActor :: "string \<Rightarrow> log_actor" where "UserActor i = \<lparr>laKind = 1, laID = i\<rparr>"
definition AssistantActor :: log_actor where "AssistantActor = \<lparr>laKind = 2, laID = ''jarvis''\<rparr>"
definition DeviceIs :: "string \<Rightarrow> log_actor" where "DeviceIs i = \<lparr>laKind = 3, laID = i\<rparr>"
definition ServiceActor :: "string \<Rightarrow> log_actor" where "ServiceActor name = \<lparr>laKind = 4, laID = name\<rparr>"

record log_event =
  leTenantID :: string
  leActor :: log_actor
  leOnBehalfOf :: string
  leAction :: string
  leTargetType :: string
  leTargetID :: string
  leOutcome :: int
  leReason :: string
  leRequestID :: string
  leDetails :: "(string \<times> string) list"
  leOccurTime :: "int option"

definition event_of :: "string \<Rightarrow> int \<Rightarrow> log_event \<Rightarrow> event_proto" where
  "event_of eventID now e = \<lparr>epEventId = eventID, epTenantId = leTenantID e,
     epOccurTime = Some (True, case leOccurTime e of None \<Rightarrow> now | Some t \<Rightarrow> t),
     epActorKind = laKind (leActor e), epActorId = laID (leActor e), epOnBehalfOf = leOnBehalfOf e, epAction = leAction e,
     epTargetType = leTargetType e, epTargetId = leTargetID e, epOutcome = leOutcome e, epReason = leReason e,
     epRequestId = leRequestID e, epDetails = leDetails e, epSource = [], epSequence = 0, epHash = [], epRecordTime = None\<rparr>"

subsection \<open>The recorder\<close>

record log_options =
  loQueueSize :: int
  loBatchSize :: int
  loFlushEvery :: int
  loMaxBackoff :: int
  loTimeout :: int

definition with_defaults :: "log_options \<Rightarrow> log_options" where
  "with_defaults o0 = \<lparr>
     loQueueSize = (if loQueueSize o0 \<le> 0 then 10000 else loQueueSize o0),
     loBatchSize = (if loBatchSize o0 \<le> 0 \<or> loBatchSize o0 > 500 then 200 else loBatchSize o0),
     loFlushEvery = (if loFlushEvery o0 \<le> 0 then 500000000 else loFlushEvery o0),
     loMaxBackoff = (if loMaxBackoff o0 \<le> 0 then 30000000000 else loMaxBackoff o0),
     loTimeout = (if loTimeout o0 \<le> 0 then 10000000000 else loTimeout o0)\<rparr>"

record recorder =
  rcOpts :: log_options
  rcQueue :: "event_proto list"
  rcInFlight :: "event_proto list"
  rcClosed :: bool
  rcDropped :: nat
  rcLog :: "(event_proto \<times> string) list"
  rcBatch :: "event_proto list"
  rcBackoff :: int
  rcStopping :: bool
  rcDone :: bool
  rcTrail :: audit_db
  rcCalls :: nat

definition NewRecorder :: "log_options \<Rightarrow> audit_db \<Rightarrow> recorder" where
  "NewRecorder opts db = \<lparr>rcOpts = with_defaults opts, rcQueue = [], rcInFlight = [], rcClosed = False, rcDropped = 0, rcLog = [],
     rcBatch = [], rcBackoff = 1000000000, rcStopping = False, rcDone = False, rcTrail = db, rcCalls = 0\<rparr>"

text \<open>The counter \<^verbatim>\<open>dropped\<close> and the log line go together everywhere.\<close>

definition undelivered :: "event_proto \<Rightarrow> string \<Rightarrow> recorder \<Rightarrow> recorder" where
  "undelivered e why s = s\<lparr>rcDropped := rcDropped s + 1, rcLog := rcLog s @ [(e, why)]\<rparr>"

definition record_begin :: "event_proto \<Rightarrow> recorder \<Rightarrow> recorder" where
  "record_begin e s = (if rcClosed s then undelivered e ''recorded after the recorder was closed'' s
     else s\<lparr>rcInFlight := rcInFlight s @ [e]\<rparr>)"

text \<open>The second half of the call at position \<open>i\<close> of those in flight.\<close>

definition record_end :: "nat \<Rightarrow> recorder \<Rightarrow> recorder" where
  "record_end i s =
     (if i \<ge> length (rcInFlight s) then s
      else let e = rcInFlight s ! i; s' = s\<lparr>rcInFlight := take i (rcInFlight s) @ drop (i + 1) (rcInFlight s)\<rparr> in
        if int (length (rcQueue s)) < loQueueSize (rcOpts s) then s'\<lparr>rcQueue := rcQueue s @ [e]\<rparr>
        else undelivered e ''the audit queue is full'' s')"

definition close_recorder :: "recorder \<Rightarrow> recorder" where
  "close_recorder s = s\<lparr>rcClosed := True\<rparr>"

subsection \<open>Sending\<close>

datatype link = Delivered | RequestLost | ReplyLost

datatype call_status = CallOK | CallInvalid | CallFailed

record audit_client =
  acSha :: "bytes \<Rightarrow> bytes"
  acPrintable :: "rune \<Rightarrow> bool"
  acParse :: "string \<Rightarrow> string option"
  acClock :: "nat \<Rightarrow> nat \<Rightarrow> int"
  acStoreClock :: "nat \<Rightarrow> int"
  acSource :: string
  acRequestID :: "nat \<Rightarrow> string"
  acLink :: "nat \<Rightarrow> link"
  acOthers :: "nat \<Rightarrow> audit_db \<Rightarrow> audit_db"

definition status_of :: "(audit_error, int \<times> int) result \<Rightarrow> call_status" where
  "status_of r = (case r of Inr _ \<Rightarrow> CallOK | Inl (Invalid _) \<Rightarrow> CallInvalid | Inl (Internal_error _) \<Rightarrow> CallFailed)"

definition call_service :: "audit_client \<Rightarrow> event_proto list \<Rightarrow> recorder \<Rightarrow> call_status \<times> recorder" where
  "call_service c events s =
     (let k = rcCalls s; db = acOthers c k (rcTrail s); s1 = s\<lparr>rcCalls := k + 1, rcTrail := db\<rparr>;
          (r, db') = Record (acSha c) (acPrintable c) (acParse c) (acClock c k) (acStoreClock c k) (acSource c) (acRequestID c k) events db
      in case acLink c k of
           Delivered \<Rightarrow> (status_of r, s1\<lparr>rcTrail := db'\<rparr>)
         | RequestLost \<Rightarrow> (CallFailed, s1)
         | ReplyLost \<Rightarrow> (CallFailed, s1\<lparr>rcTrail := db'\<rparr>))"

fun send_each :: "audit_client \<Rightarrow> event_proto list \<Rightarrow> recorder \<Rightarrow> bool \<times> recorder" where
  "send_each c [] s = (True, s)"
| "send_each c (e # es) s = (case call_service c [e] s of
     (CallOK, s') \<Rightarrow> send_each c es s'
   | (CallInvalid, s') \<Rightarrow> send_each c es (undelivered e ''refused as malformed'' s')
   | (CallFailed, s') \<Rightarrow> (False, s'))"

text \<open>\<open>True\<close> where the code returns no error.\<close>

definition send :: "audit_client \<Rightarrow> event_proto list \<Rightarrow> recorder \<Rightarrow> bool \<times> recorder" where
  "send c batch s = (case call_service c batch s of
     (CallInvalid, s') \<Rightarrow> send_each c batch s'
   | (st, s') \<Rightarrow> (st = CallOK, s'))"

subsection \<open>The loop\<close>

datatype wake = WakeEvent | WakeTick | WakeStop

definition drain :: "recorder \<Rightarrow> recorder" where
  "drain s = (let k = nat (loBatchSize (rcOpts s)) - length (rcBatch s) in
     s\<lparr>rcBatch := rcBatch s @ take k (rcQueue s), rcQueue := drop k (rcQueue s)\<rparr>)"

definition give_up :: "recorder \<Rightarrow> recorder" where
  "give_up s = (let s1 = fold (\<lambda>e. undelivered e ''the audit service was unreachable at shutdown'') (rcBatch s @ rcQueue s) s in
     s1\<lparr>rcBatch := [], rcQueue := [], rcDone := True\<rparr>)"

text \<open>What an iteration does with the batch it has; \<open>stop\<close> is whether the wait after a failure ends with \<^verbatim>\<open>Close\<close>.\<close>

definition flush :: "audit_client \<Rightarrow> bool \<Rightarrow> recorder \<Rightarrow> recorder" where
  "flush c stop s =
     (let n = min (length (rcBatch s)) (nat (loBatchSize (rcOpts s))) in
      case send c (take n (rcBatch s)) s of
        (True, s') \<Rightarrow> s'\<lparr>rcBackoff := 1000000000, rcBatch := drop n (rcBatch s')\<rparr>
      | (False, s') \<Rightarrow>
          if rcStopping s' then give_up s'
          else s'\<lparr>rcStopping := rcClosed s' \<and> stop, rcBackoff := min (2 * rcBackoff s') (loMaxBackoff (rcOpts s'))\<rparr>)"

definition after_select :: "audit_client \<Rightarrow> bool \<Rightarrow> recorder \<Rightarrow> recorder" where
  "after_select c stop s0 =
     (let s = (if rcStopping s0 then drain s0 else s0) in
      if rcBatch s = [] then (if rcStopping s then s\<lparr>rcDone := True\<rparr> else s) else flush c stop s)"

text \<open>A case of the first \<^verbatim>\<open>select\<close> that is not ready leaves the loop where it is.\<close>

definition loop_step :: "audit_client \<Rightarrow> wake \<Rightarrow> bool \<Rightarrow> recorder \<Rightarrow> recorder" where
  "loop_step c w stop s =
     (if rcDone s then s
      else if int (length (rcBatch s)) \<ge> loBatchSize (rcOpts s) \<or> rcStopping s then after_select c stop s
      else case w of
        WakeEvent \<Rightarrow> (case rcQueue s of [] \<Rightarrow> s | e # q \<Rightarrow> s\<lparr>rcQueue := q, rcBatch := rcBatch s @ [e]\<rparr>)
      | WakeTick \<Rightarrow> after_select c stop s
      | WakeStop \<Rightarrow> if rcClosed s then after_select c stop (s\<lparr>rcStopping := True\<rparr>) else s)"

datatype recorder_step = RecordBegin event_proto | RecordEnd nat | CloseStep | LoopStep wake bool

fun recorder_do :: "audit_client \<Rightarrow> recorder_step \<Rightarrow> recorder \<Rightarrow> recorder" where
  "recorder_do c (RecordBegin e) s = record_begin e s"
| "recorder_do c (RecordEnd i) s = record_end i s"
| "recorder_do c CloseStep s = close_recorder s"
| "recorder_do c (LoopStep w stop) s = loop_step c w stop s"

definition recorder_run :: "audit_client \<Rightarrow> recorder_step list \<Rightarrow> recorder \<Rightarrow> recorder" where
  "recorder_run c steps s = fold (recorder_do c) steps s"
subsection \<open>What the service does with a batch\<close>

definition stored :: "audit_client \<Rightarrow> event_proto \<Rightarrow> audit_db \<Rightarrow> bool" where
  "stored c e db \<longleftrightarrow> (\<exists>r \<in> set (dbEvents db). acParse c (epEventId e) = Some (rowID r) \<and> acParse c (epTenantId e) = Some (rowTenant r))"

definition appends :: "audit_client \<Rightarrow> audit_db \<Rightarrow> audit_db \<Rightarrow> bool" where
  "appends c db db' \<longleftrightarrow> (trail_ok (acSha c) db \<longrightarrow> trail_ok (acSha c) db' \<and> (\<exists>new. dbEvents db' = dbEvents db @ new))"

lemma appends_refl: "appends c db db"
  by (simp add: appends_def)

lemma appends_trans: "appends c db db1 \<Longrightarrow> appends c db1 db2 \<Longrightarrow> appends c db db2"
  by (auto simp: appends_def)

lemma appends_stored: "appends c db db' \<Longrightarrow> trail_ok (acSha c) db \<Longrightarrow> stored c e db \<Longrightarrow> stored c e db'"
  by (auto simp: appends_def stored_def)

lemma Record_appends:
  "appends c db (snd (Record (acSha c) table parse now storeNow source requestID es db))"
proof (cases "\<exists>cs k d db'. check_events table parse now 0 es = Inr cs \<and> Append (acSha c) storeNow source cs db = Some (k, d, db')
    \<and> snd (Record (acSha c) table parse now storeNow source requestID es db) = db'")
  case True
  then obtain cs k d db' where A: "Append (acSha c) storeNow source cs db = Some (k, d, db')"
    "snd (Record (acSha c) table parse now storeNow source requestID es db) = db'" by blast
  have "\<exists>new. dbEvents db' = dbEvents db @ new" using A(1) append_tenants_stamped unfolding Append_def by blast
  with A Append_trail_ok show ?thesis by (auto simp: appends_def)
next
  case False
  then have "snd (Record (acSha c) table parse now storeNow source requestID es db) = db"
    by (auto simp: Record_def split: sum.splits option.splits)
  then show ?thesis by (simp add: appends_refl)
qed

lemma check_events_covers:
  "check_events table parse now i es = Inr cs \<Longrightarrow> e \<in> set es \<Longrightarrow>
   \<exists>x \<in> set cs. parse (epEventId e) = Some (evEventID x) \<and> parse (epTenantId e) = Some (evTenantID x)"
proof (induction es arbitrary: i cs)
  case (Cons a es)
  have one: "parse (epEventId a) = Some (evEventID x) \<and> parse (epTenantId a) = Some (evTenantID x)"
    if "check_event table parse t a = Inr x" for t x
    using that by (auto simp: check_event_def canonicalUUID_def chain_event_def split: sum.splits option.splits if_splits bool.splits)
  from Cons.prems obtain x xs where "check_event table parse (now i) a = Inr x" "check_events table parse now (i + 1) es = Inr xs"
    "cs = x # xs" by (auto split: sum.splits)
  with Cons.IH [of "i + 1" xs] Cons.prems(2) one show ?case by auto
qed simp

lemma Record_stores:
  assumes "trail_ok (acSha c) db" "Record (acSha c) table (acParse c) now storeNow source requestID es db = (Inr r, db')" "e \<in> set es"
  shows "stored c e db'"
proof -
  from assms(2) obtain cs k d where cs: "check_events table (acParse c) now 0 es = Inr cs"
    and A: "Append (acSha c) storeNow source cs db = Some (k, d, db')"
    by (auto simp: Record_def split: if_splits sum.splits option.splits prod.splits)
  from check_events_covers [OF cs assms(3)] obtain x where x: "x \<in> set cs" "acParse c (epEventId e) = Some (evEventID x)"
    "acParse c (epTenantId e) = Some (evTenantID x)" by blast
  have "covered cs (evTenantID x) db'"
    using append_tenants_covered [OF assms(1) A [unfolded Append_def]] x(1) by auto
  moreover have "evEventID x \<in> evEventID ` set (byTenant cs (evTenantID x))" using x(1) by (auto simp: byTenant_def)
  ultimately have "evEventID x \<in> rowID ` set (rows_of (evTenantID x) db')" by (auto simp: covered_def)
  with x show ?thesis by (auto simp: stored_def rows_of_def)
qed

text \<open>The other clients only append, as every client of the service does (\<open>Record_appends\<close>).\<close>

definition others_append :: "audit_client \<Rightarrow> bool" where
  "others_append c \<longleftrightarrow> (\<forall>k db. appends c db (acOthers c k db))"

definition same_queue :: "recorder \<Rightarrow> recorder \<Rightarrow> bool" where
  "same_queue s s' \<longleftrightarrow> rcOpts s' = rcOpts s \<and> rcQueue s' = rcQueue s \<and> rcInFlight s' = rcInFlight s \<and> rcClosed s' = rcClosed s
     \<and> rcBatch s' = rcBatch s \<and> rcStopping s' = rcStopping s \<and> rcDone s' = rcDone s \<and> set (rcLog s) \<subseteq> set (rcLog s')"

lemma same_queue_trans: "same_queue s s1 \<Longrightarrow> same_queue s1 s2 \<Longrightarrow> same_queue s s2"
  by (auto simp: same_queue_def)

lemma call_service_effect:
  assumes "others_append c" "call_service c es s = (st, s')"
  shows "same_queue s s'" "appends c (rcTrail s) (rcTrail s')" "rcLog s' = rcLog s"
    "trail_ok (acSha c) (rcTrail s) \<Longrightarrow> st = CallOK \<Longrightarrow> e \<in> set es \<Longrightarrow> stored c e (rcTrail s')"
proof -
  let ?db = "acOthers c (rcCalls s) (rcTrail s)"
  obtain r db' where R: "Record (acSha c) (acPrintable c) (acParse c) (acClock c (rcCalls s)) (acStoreClock c (rcCalls s)) (acSource c)
      (acRequestID c (rcCalls s)) es ?db = (r, db')" by fastforce
  have o: "appends c (rcTrail s) ?db" using assms(1) by (simp add: others_append_def)
  have a: "appends c ?db db'" using Record_appends [of c ?db] R by (metis snd_conv)
  have s': "s' = s\<lparr>rcCalls := rcCalls s + 1, rcTrail := (if acLink c (rcCalls s) = RequestLost then ?db else db')\<rparr>"
    "st = CallOK \<Longrightarrow> acLink c (rcCalls s) = Delivered \<and> status_of r = CallOK"
    using assms(2) R by (auto simp: call_service_def Let_def split: link.splits)
  show "same_queue s s'" "rcLog s' = rcLog s" by (simp_all add: s' same_queue_def)
  show "appends c (rcTrail s) (rcTrail s')" using o appends_trans [OF o a] by (simp add: s')
  show "stored c e (rcTrail s')" if "trail_ok (acSha c) (rcTrail s)" "st = CallOK" "e \<in> set es"
  proof -
    from s'(2) [OF that(2)] obtain x where "r = Inr x" "acLink c (rcCalls s) = Delivered"
      by (auto simp: status_of_def split: sum.splits audit_error.splits)
    with R o that(1,3) Record_stores [of c ?db] s'(1) show ?thesis by (auto simp: appends_def)
  qed
qed
subsection \<open>No event is lost\<close>

definition logged :: "recorder \<Rightarrow> event_proto \<Rightarrow> bool" where
  "logged s e \<longleftrightarrow> e \<in> fst ` set (rcLog s)"

definition accounted :: "audit_client \<Rightarrow> recorder \<Rightarrow> event_proto \<Rightarrow> bool" where
  "accounted c s e \<longleftrightarrow> e \<in> set (rcInFlight s) \<union> set (rcQueue s) \<union> set (rcBatch s) \<or> logged s e \<or> stored c e (rcTrail s)"

lemma undelivered_simps [simp]:
  "rcOpts (undelivered e w s) = rcOpts s" "rcQueue (undelivered e w s) = rcQueue s" "rcInFlight (undelivered e w s) = rcInFlight s"
  "rcClosed (undelivered e w s) = rcClosed s" "rcBatch (undelivered e w s) = rcBatch s" "rcStopping (undelivered e w s) = rcStopping s"
  "rcDone (undelivered e w s) = rcDone s" "rcTrail (undelivered e w s) = rcTrail s" "rcLog (undelivered e w s) = rcLog s @ [(e, w)]"
  "rcDropped (undelivered e w s) = rcDropped s + 1" "rcCalls (undelivered e w s) = rcCalls s"
  by (simp_all add: undelivered_def)

lemma same_queue_undelivered: "same_queue s (undelivered e w s)"
  by (auto simp: same_queue_def)

lemma logged_mono: "same_queue s s' \<Longrightarrow> logged s e \<Longrightarrow> logged s' e"
  by (auto simp: same_queue_def logged_def)

lemma send_each_effect:
  assumes "others_append c" "trail_ok (acSha c) (rcTrail s)" "send_each c es s = (ok, s')"
  shows "same_queue s s' \<and> appends c (rcTrail s) (rcTrail s') \<and> (ok \<longrightarrow> (\<forall>e \<in> set es. logged s' e \<or> stored c e (rcTrail s')))"
  using assms(2,3)
proof (induction es arbitrary: s)
  case Nil
  then show ?case by (auto simp: same_queue_def appends_refl)
next
  case (Cons a es)
  obtain st s1 where c1: "call_service c [a] s = (st, s1)" by fastforce
  note E = call_service_effect [OF assms(1) c1]
  have t1: "trail_ok (acSha c) (rcTrail s1)" using E(2) Cons.prems(1) by (simp add: appends_def)
  show ?case
  proof (cases st)
    case CallOK
    with c1 Cons.prems have s': "send_each c es s1 = (ok, s')" by simp
    note IH = Cons.IH [OF t1 s']
    have "stored c a (rcTrail s')" using E(4) [OF Cons.prems(1) CallOK, of a] IH t1 appends_stored by auto
    moreover have "same_queue s s'" "appends c (rcTrail s) (rcTrail s')"
      using IH same_queue_trans [OF E(1)] appends_trans [OF E(2)] by blast+
    ultimately show ?thesis using IH by simp
  next
    case CallInvalid
    let ?s = "undelivered a ''refused as malformed'' s1"
    from c1 CallInvalid Cons.prems have s': "send_each c es ?s = (ok, s')" by simp
    have t2: "trail_ok (acSha c) (rcTrail ?s)" using t1 by simp
    note IH = Cons.IH [OF t2 s']
    have "logged ?s a" by (simp add: logged_def)
    then have "logged s' a" using IH logged_mono by blast
    moreover have "same_queue s s'" using IH E(1) same_queue_undelivered same_queue_trans by blast
    moreover have "appends c (rcTrail s) (rcTrail s')" using IH E(2) appends_trans by auto
    ultimately show ?thesis using IH by simp
  next
    case CallFailed
    with c1 Cons.prems E(1,2) show ?thesis by auto
  qed
qed

lemma send_effect:
  assumes "others_append c" "trail_ok (acSha c) (rcTrail s)" "send c es s = (ok, s')"
  shows "same_queue s s' \<and> appends c (rcTrail s) (rcTrail s') \<and> (ok \<longrightarrow> (\<forall>e \<in> set es. logged s' e \<or> stored c e (rcTrail s')))"
proof -
  obtain st s1 where c1: "call_service c es s = (st, s1)" by fastforce
  note E = call_service_effect [OF assms(1) c1]
  have t1: "trail_ok (acSha c) (rcTrail s1)" using E(2) assms(2) by (simp add: appends_def)
  show ?thesis
  proof (cases "st = CallInvalid")
    case True
    with assms(3) c1 have "send_each c es s1 = (ok, s')" by (simp add: send_def)
    from send_each_effect [OF assms(1) t1 this] E(1,2) same_queue_trans appends_trans show ?thesis by blast
  next
    case False
    with assms(3) c1 have "s' = s1" "ok = (st = CallOK)" by (cases st; simp add: send_def)+
    with E assms(2) show ?thesis by auto
  qed
qed

text \<open>What every step of the recorder keeps.\<close>

definition keeps :: "audit_client \<Rightarrow> recorder \<Rightarrow> recorder \<Rightarrow> bool" where
  "keeps c s s' \<longleftrightarrow> trail_ok (acSha c) (rcTrail s') \<and> (\<forall>e. accounted c s e \<longrightarrow> accounted c s' e)"

lemma fold_undelivered:
  "same_queue s (fold (\<lambda>e. undelivered e w) es s)" "rcTrail (fold (\<lambda>e. undelivered e w) es s) = rcTrail s"
  "e \<in> set es \<Longrightarrow> logged (fold (\<lambda>e. undelivered e w) es s) e"
proof -
  have q: "same_queue s (fold (\<lambda>e. undelivered e w) es s)" for es s
  proof (induction es arbitrary: s)
    case (Cons a es)
    show ?case using same_queue_trans [OF same_queue_undelivered Cons.IH [of "undelivered a w s"]] by simp
  qed (simp add: same_queue_def)
  then show "same_queue s (fold (\<lambda>e. undelivered e w) es s)" .
  show "rcTrail (fold (\<lambda>e. undelivered e w) es s) = rcTrail s" by (induction es arbitrary: s) auto
  show "logged (fold (\<lambda>e. undelivered e w) es s) e" if "e \<in> set es"
    using that
  proof (induction es arbitrary: s)
    case (Cons a es)
    show ?case
    proof (cases "e = a")
      case True
      have "logged (undelivered a w s) a" by (simp add: logged_def)
      with True logged_mono [OF q [of "undelivered a w s" es]] show ?thesis by simp
    qed (use Cons in simp)
  qed simp
qed

lemma give_up_keeps: "trail_ok (acSha c) (rcTrail s) \<Longrightarrow> keeps c s (give_up s)"
proof -
  let ?w = "''the audit service was unreachable at shutdown''"
  let ?s = "fold (\<lambda>e. undelivered e ?w) (rcBatch s @ rcQueue s) s"
  assume t: "trail_ok (acSha c) (rcTrail s)"
  note F = fold_undelivered [where w = ?w and es = "rcBatch s @ rcQueue s" and s = s]
  have l: "logged ?s e \<Longrightarrow> logged (give_up s) e" for e by (simp add: give_up_def logged_def Let_def)
  have "accounted c (give_up s) e" if "accounted c s e" for e
  proof (cases "e \<in> set (rcBatch s @ rcQueue s) \<or> logged s e")
    case True
    then have "logged ?s e" using F(3) [of e] logged_mono [OF F(1)] by blast
    with l show ?thesis by (simp add: accounted_def)
  next
    case False
    with that have "e \<in> set (rcInFlight s) \<or> stored c e (rcTrail s)" by (auto simp: accounted_def)
    with F(1,2) show ?thesis by (auto simp: accounted_def give_up_def Let_def same_queue_def)
  qed
  with t F(2) show ?thesis by (simp add: keeps_def give_up_def Let_def)
qed

lemma flush_keeps:
  assumes "others_append c" "trail_ok (acSha c) (rcTrail s)"
  shows "keeps c s (flush c stop s)"
proof -
  let ?n = "min (length (rcBatch s)) (nat (loBatchSize (rcOpts s)))"
  obtain ok s1 where S: "send c (take ?n (rcBatch s)) s = (ok, s1)" by fastforce
  note E = send_effect [OF assms S]
  have t1: "trail_ok (acSha c) (rcTrail s1)" using E assms(2) by (auto simp: appends_def)
  have a1: "accounted c s1 e" if "accounted c s e" for e
    using that E assms(2) logged_mono [of s s1] appends_stored [of c "rcTrail s" "rcTrail s1"]
    by (auto simp: accounted_def same_queue_def)
  show ?thesis
  proof (cases ok)
    case True
    then have F: "flush c stop s = s1\<lparr>rcBackoff := 1000000000, rcBatch := drop ?n (rcBatch s1)\<rparr>"
      using S by (simp add: flush_def Let_def)
    have b: "rcBatch s1 = rcBatch s" using E by (simp add: same_queue_def)
    have "set (rcBatch s1) = set (take ?n (rcBatch s)) \<union> set (drop ?n (rcBatch s1))"
      unfolding b set_append [symmetric] append_take_drop_id ..
    with E True have "accounted c (flush c stop s) e" if "accounted c s1 e" for e
      using that unfolding F by (auto simp: accounted_def logged_def)
    with a1 t1 show ?thesis by (simp add: keeps_def F)
  next
    case False
    show ?thesis
    proof (cases "rcStopping s1")
      case True
      then have "flush c stop s = give_up s1" using S False by (simp add: flush_def Let_def)
      with give_up_keeps [OF t1] a1 show ?thesis by (auto simp: keeps_def)
    next
      case stop: False
      then have F: "flush c stop s = s1\<lparr>rcStopping := rcClosed s1 \<and> stop, rcBackoff := min (2 * rcBackoff s1) (loMaxBackoff (rcOpts s1))\<rparr>"
        using S False by (simp add: flush_def Let_def)
      have "accounted c (flush c stop s) e = accounted c s1 e" for e by (simp add: F accounted_def logged_def)
      with a1 t1 F show ?thesis by (simp add: keeps_def)
    qed
  qed
qed
lemma drain_keeps: "trail_ok (acSha c) (rcTrail s) \<Longrightarrow> keeps c s (drain s)"
proof -
  let ?k = "nat (loBatchSize (rcOpts s)) - length (rcBatch s)"
  have "set (rcQueue s) = set (take ?k (rcQueue s)) \<union> set (drop ?k (rcQueue s))"
    unfolding set_append [symmetric] append_take_drop_id ..
  moreover assume "trail_ok (acSha c) (rcTrail s)"
  ultimately show ?thesis by (auto simp: keeps_def accounted_def drain_def logged_def Let_def)
qed

lemma keeps_trans: "keeps c s s1 \<Longrightarrow> keeps c s1 s2 \<Longrightarrow> keeps c s s2"
  by (simp add: keeps_def)

lemma keeps_flags:
  "trail_ok (acSha c) (rcTrail s) \<Longrightarrow> keeps c s s" "keeps c s (s1\<lparr>rcDone := b\<rparr>) = keeps c s s1"
  "keeps c (s\<lparr>rcStopping := b\<rparr>) s1 = keeps c s s1"
  by (simp_all add: keeps_def accounted_def logged_def)

lemma after_select_keeps:
  assumes "others_append c" "trail_ok (acSha c) (rcTrail s)"
  shows "keeps c s (after_select c stop s)"
proof -
  define s1 where "s1 = (if rcStopping s then drain s else s)"
  have k: "keeps c s s1" using drain_keeps [OF assms(2)] keeps_flags(1) [OF assms(2)] by (simp add: s1_def)
  then have "trail_ok (acSha c) (rcTrail s1)" by (simp add: keeps_def)
  with k flush_keeps [OF assms(1), of s1] keeps_trans show ?thesis
    unfolding after_select_def s1_def [symmetric] Let_def by (auto simp: keeps_flags)
qed

lemma loop_step_keeps:
  assumes "others_append c" "trail_ok (acSha c) (rcTrail s)"
  shows "keeps c s (loop_step c w stop s)"
proof -
  have "keeps c s (after_select c stop (s\<lparr>rcStopping := True\<rparr>))"
    using after_select_keeps [OF assms(1), of "s\<lparr>rcStopping := True\<rparr>"] assms(2) by (simp add: keeps_flags)
  moreover have "keeps c s (case rcQueue s of [] \<Rightarrow> s | e # q \<Rightarrow> s\<lparr>rcQueue := q, rcBatch := rcBatch s @ [e]\<rparr>)"
    using assms(2) by (auto simp: keeps_def accounted_def logged_def split: list.splits)
  ultimately show ?thesis
    using after_select_keeps [OF assms] keeps_flags(1) [OF assms(2)] by (simp add: loop_step_def split: wake.splits)
qed

lemma set_without: "i < length xs \<Longrightarrow> set xs = insert (xs ! i) (set (take i xs @ drop (i + 1) xs))"
  by (metis Suc_eq_plus1 Un_insert_right id_take_nth_drop list.simps(15) set_append)

lemma recorder_do_keeps:
  assumes "others_append c" "trail_ok (acSha c) (rcTrail s)"
  shows "keeps c s (recorder_do c step s) \<and> (step = RecordBegin e \<longrightarrow> accounted c (recorder_do c step s) e)"
proof (cases step)
  case (RecordBegin x)
  with assms(2) show ?thesis by (auto simp: record_begin_def keeps_def accounted_def logged_def)
next
  case (RecordEnd i)
  with assms(2) set_without [of i "rcInFlight s"] show ?thesis
    by (auto simp: record_end_def keeps_def accounted_def logged_def Let_def)
next
  case CloseStep
  with assms(2) show ?thesis by (auto simp: close_recorder_def keeps_def accounted_def logged_def)
next
  case (LoopStep w stop)
  with loop_step_keeps [OF assms] show ?thesis by simp
qed

lemma recorder_run_keeps:
  assumes "others_append c" "trail_ok (acSha c) (rcTrail s)" "accounted c s e \<or> RecordBegin e \<in> set steps"
  shows "accounted c (recorder_run c steps s) e"
  using assms(2,3)
proof (induction steps arbitrary: s)
  case Nil
  then show ?case by (simp add: recorder_run_def)
next
  case (Cons step steps)
  from recorder_do_keeps [OF assms(1) Cons.prems(1), of step e] Cons.prems(2)
  have "trail_ok (acSha c) (rcTrail (recorder_do c step s))"
    "accounted c (recorder_do c step s) e \<or> RecordBegin e \<in> set steps" by (auto simp: keeps_def)
  from Cons.IH [OF this] show ?case by (simp add: recorder_run_def)
qed

text \<open>A client whose first call is lost, in front of an empty trail.\<close>

definition sample_client :: audit_client where
  "sample_client = \<lparr>acSha = sample_sha, acPrintable = (\<lambda>_. True), acParse = Some, acClock = (\<lambda>_ _. 1700000000000000000),
     acStoreClock = (\<lambda>_. 1700000000000000999), acSource = ''app-api'', acRequestID = (\<lambda>_. ''r''),
     acLink = (\<lambda>k. if k = 0 then RequestLost else Delivered), acOthers = (\<lambda>_ db. db)\<rparr>"

definition no_options :: log_options where
  "no_options = \<lparr>loQueueSize = 0, loBatchSize = 0, loFlushEvery = 0, loMaxBackoff = 0, loTimeout = 0\<rparr>"


text \<open>
  What "on its way" can mean at the end: an event whose call looked at \<^verbatim>\<open>closed\<close> just before \<^verbatim>\<open>Close\<close> and reached the queue
  after the loop had ended stays there for ever, neither sent nor logged nor counted.
\<close>

definition raced :: recorder where
  "raced = recorder_run sample_client [RecordBegin sample_proto, CloseStep, LoopStep WakeStop False, RecordEnd 0] (NewRecorder no_options empty_db)"

lemma late_event_is_lost:
  "rcDone raced \<and> rcQueue raced = [sample_proto] \<and> rcLog raced = [] \<and> rcDropped raced = 0 \<and> \<not> stored sample_client sample_proto (rcTrail raced)
    \<and> recorder_run sample_client [LoopStep w b] raced = raced"
  by (simp add: raced_def recorder_run_def NewRecorder_def record_begin_def record_end_def close_recorder_def loop_step_def after_select_def
    drain_def with_defaults_def no_options_def stored_def empty_db_def Let_def)

text \<open>
  An event the service refuses is counted and logged, and stays in the batch that is sent again when a later event of it does not get through:
  it is counted once for each time.
\<close>

lemma refused_event_counted_again:
  assumes "acLink c (rcCalls s) = Delivered" "acLink c (rcCalls s + 1) = Delivered" "acLink c (rcCalls s + 2) = RequestLost"
    and bad: "\<And>now. \<exists>m. check_event (acPrintable c) (acParse c) now bad = Inl m" and "rcBatch s = bad # good # rest" "length (rcBatch s) \<le> maxBatch"
  shows "fst (send c (rcBatch s) s) = False \<and> rcDropped (snd (send c (rcBatch s) s)) = rcDropped s + 1
    \<and> rcBatch (snd (send c (rcBatch s) s)) = rcBatch s"
proof -
  have refused: "call_service c (bad # es) t = (CallInvalid, t\<lparr>rcCalls := rcCalls t + 1, rcTrail := acOthers c (rcCalls t) (rcTrail t)\<rparr>)"
    if "acLink c (rcCalls t) = Delivered" "Suc (length es) \<le> maxBatch" for es t
  proof -
    obtain m where "check_event (acPrintable c) (acParse c) (acClock c (rcCalls t) 0) bad = Inl m" using bad by blast
    then have "check_events (acPrintable c) (acParse c) (acClock c (rcCalls t)) 0 (bad # es) = Inl (Invalid (''event '' @ FormatUint 0 @ '': '' @ m))"
      by simp
    with that show ?thesis by (simp add: call_service_def Record_def status_of_def Let_def)
  qed
  have lost: "call_service c es t = (CallFailed, t\<lparr>rcCalls := rcCalls t + 1, rcTrail := acOthers c (rcCalls t) (rcTrail t)\<rparr>)"
    if "acLink c (rcCalls t) = RequestLost" for es t
    using that by (simp add: call_service_def Let_def split: prod.splits)
  have "1 \<le> maxBatch" by (simp add: maxBatch_def)
  then show ?thesis
    using assms(1-3,5,6) by (simp add: send_def refused lost)
qed

subsection \<open>The loop ends\<close>

definition backlog :: "recorder \<Rightarrow> nat" where
  "backlog s = length (rcBatch s) + length (rcQueue s) + length (rcInFlight s)"

fun is_loop :: "recorder_step \<Rightarrow> bool" where
  "is_loop (LoopStep _ _) = True"
| "is_loop _ = False"

definition stopping :: "recorder \<Rightarrow> bool" where
  "stopping s \<longleftrightarrow> rcStopping s \<and> rcClosed s \<and> 1 \<le> loBatchSize (rcOpts s)"
lemma stopping_send: "others_append c \<Longrightarrow> trail_ok (acSha c) (rcTrail s) \<Longrightarrow> send c es s = (ok, s') \<Longrightarrow> same_queue s s'"
  using send_effect by blast

text \<open>An iteration of a stopping loop is its last one, or sends at least one event.\<close>

lemma flush_stopping:
  assumes "others_append c" "trail_ok (acSha c) (rcTrail s)" "stopping s" "rcBatch s \<noteq> []"
  shows "rcDone (flush c stop s) \<or> stopping (flush c stop s) \<and> backlog (flush c stop s) < backlog s"
proof -
  let ?n = "min (length (rcBatch s)) (nat (loBatchSize (rcOpts s)))"
  obtain ok s1 where S: "send c (take ?n (rcBatch s)) s = (ok, s1)" by fastforce
  have q: "same_queue s s1" using send_effect [OF assms(1,2) S] by blast
  show ?thesis
  proof (cases ok)
    case True
    have "0 < ?n" using assms(3,4) by (auto simp: stopping_def)
    with True S q assms(3,4) show ?thesis
      by (auto simp: flush_def Let_def stopping_def backlog_def same_queue_def)
  next
    case False
    with S q assms(3) show ?thesis by (simp add: flush_def Let_def stopping_def same_queue_def give_up_def)
  qed
qed

lemma backlog_drain: "backlog (drain s) = backlog s" "stopping (drain s) = stopping s"
  by (simp_all add: backlog_def drain_def stopping_def Let_def)

lemma loop_step_stopping:
  assumes "others_append c" "trail_ok (acSha c) (rcTrail s)" "stopping s"
  shows "rcDone (loop_step c w stop s) \<or> stopping (loop_step c w stop s) \<and> backlog (loop_step c w stop s) < backlog s"
proof -
  have t: "trail_ok (acSha c) (rcTrail (drain s))" using assms(2) by (simp add: drain_def Let_def)
  have d: "stopping (drain s)" using assms(3) by (simp add: backlog_drain)
  have "rcDone (after_select c stop s) \<or> stopping (after_select c stop s) \<and> backlog (after_select c stop s) < backlog s"
    using flush_stopping [OF assms(1) t d, of stop] assms(3) d
    by (auto simp: after_select_def stopping_def backlog_drain Let_def)
  with assms(3) show ?thesis by (simp add: loop_step_def stopping_def)
qed

lemma done_stays: "rcDone s \<Longrightarrow> rcDone (recorder_run c steps s)"
proof (induction steps arbitrary: s)
  case (Cons step steps)
  have "rcDone (recorder_do c step s)" using Cons.prems
    by (cases step) (auto simp: record_begin_def record_end_def close_recorder_def loop_step_def Let_def)
  with Cons.IH show ?case by (simp add: recorder_run_def)
qed (simp add: recorder_run_def)

lemma stopping_run:
  assumes "others_append c" "trail_ok (acSha c) (rcTrail s)" "stopping s" "backlog s < length (filter is_loop steps)"
  shows "rcDone (recorder_run c steps s)"
  using assms(2-4)
proof (induction steps arbitrary: s)
  case (Cons step steps)
  let ?s = "recorder_do c step s"
  have t: "trail_ok (acSha c) (rcTrail ?s)" using recorder_do_keeps [OF assms(1) Cons.prems(1)] by (simp add: keeps_def)
  have r: "recorder_run c (step # steps) s = recorder_run c steps ?s" by (simp add: recorder_run_def)
  show ?case
  proof (cases "rcDone ?s")
    case True
    with done_stays r show ?thesis by simp
  next
    case False
    have "stopping ?s \<and> backlog ?s + (if is_loop step then 1 else 0) \<le> backlog s"
    proof (cases step)
      case (LoopStep w stop)
      with loop_step_stopping [OF assms(1) Cons.prems(1,2), of w stop] False show ?thesis by auto
    qed (use Cons.prems(2) in \<open>auto simp: record_begin_def record_end_def close_recorder_def stopping_def backlog_def Let_def\<close>)
    with Cons.IH [OF t] Cons.prems(3) r show ?thesis by (auto split: if_splits)
  qed
qed simp
text \<open>The loop stops only after \<^verbatim>\<open>Close\<close>.\<close>

definition stop_closed :: "recorder \<Rightarrow> bool" where
  "stop_closed s \<longleftrightarrow> (rcStopping s \<longrightarrow> rcClosed s) \<and> 1 \<le> loBatchSize (rcOpts s)"

lemma flush_stop_closed:
  assumes "others_append c" "trail_ok (acSha c) (rcTrail s)" "stop_closed s"
  shows "stop_closed (flush c stop s)"
proof -
  obtain ok s1 where S: "send c (take (min (length (rcBatch s)) (nat (loBatchSize (rcOpts s)))) (rcBatch s)) s = (ok, s1)" by fastforce
  have q: "same_queue s s1" using send_effect [OF assms(1,2) S] by blast
  have g: "same_queue s1 (fold (\<lambda>e. undelivered e w) es s1)" for es w by (rule fold_undelivered(1))
  show ?thesis
    using S q g [of _ "rcBatch s1 @ rcQueue s1"] assms(3)
    by (cases ok) (auto simp: flush_def Let_def stop_closed_def same_queue_def give_up_def)
qed

lemma recorder_do_stop_closed:
  assumes "others_append c" "trail_ok (acSha c) (rcTrail s)" "stop_closed s"
  shows "stop_closed (recorder_do c step s)"
proof -
  have a: "stop_closed (after_select c stop s1)" if "stop_closed s1" "rcTrail s1 = rcTrail s" for s1 stop
    using flush_stop_closed [OF assms(1), of s1 stop] flush_stop_closed [OF assms(1), of "drain s1" stop] that assms(2)
    by (auto simp: after_select_def Let_def drain_def stop_closed_def)
  then show ?thesis using assms(3)
    by (cases step) (auto simp: record_begin_def record_end_def close_recorder_def loop_step_def stop_closed_def Let_def
      split: wake.splits list.splits)
qed

lemma recorder_run_stop_closed:
  assumes "others_append c" "trail_ok (acSha c) (rcTrail s)" "stop_closed s"
  shows "stop_closed (recorder_run c steps s) \<and> trail_ok (acSha c) (rcTrail (recorder_run c steps s))"
  using assms(2,3)
proof (induction steps arbitrary: s)
  case (Cons step steps)
  with recorder_do_stop_closed [OF assms(1), of s step] recorder_do_keeps [OF assms(1), of s step] show ?case
    by (simp add: recorder_run_def keeps_def)
qed (simp add: recorder_run_def)

text \<open>
  C13.  Closing ends: once the loop has noticed \<^verbatim>\<open>Close\<close>, it ends after at most one iteration more than there are events in its batch, in the
  queue and in unfinished calls, whatever the service answers and whatever is still called; no retry keeps it alive.
\<close>

theorem recorder_stops:
  assumes "others_append c" "trail_ok (acSha c) db" "s = recorder_run c before (NewRecorder opts db)" "rcStopping s"
    and "backlog s < length (filter is_loop steps)"
  shows "rcDone (recorder_run c steps s)"
proof -
  have "stop_closed (NewRecorder opts db)" by (simp add: stop_closed_def NewRecorder_def with_defaults_def)
  with recorder_run_stop_closed [OF assms(1), of "NewRecorder opts db" before] assms(2,3)
  have "stop_closed s" "trail_ok (acSha c) (rcTrail s)" by (simp_all add: NewRecorder_def)
  with assms(4) show ?thesis by (intro stopping_run [OF assms(1) _ _ assms(5)]) (simp_all add: stop_closed_def stopping_def)
qed

text \<open>The first call fails and \<^verbatim>\<open>Close\<close> is noticed while waiting; the one event that is left takes at most two iterations.\<close>

definition closing_steps :: "recorder_step list" where
  "closing_steps = [RecordBegin sample_proto, RecordEnd 0, LoopStep WakeEvent False, CloseStep, LoopStep WakeTick True]"

theorem recorder_stops_witness:
  "rcStopping (recorder_run sample_client closing_steps (NewRecorder no_options empty_db))
    \<and> rcDone (recorder_run sample_client [LoopStep WakeTick False, LoopStep WakeTick False]
        (recorder_run sample_client closing_steps (NewRecorder no_options empty_db)))"
proof -
  let ?s = "recorder_run sample_client closing_steps (NewRecorder no_options empty_db)"
  have f: "call_service sample_client es s = (CallFailed, s\<lparr>rcCalls := 1\<rparr>)" if "rcCalls s = 0" for es s
    using that by (simp add: call_service_def sample_client_def Let_def split: prod.splits)
  have s: "rcStopping ?s" "backlog ?s = 1"
    by (simp_all add: closing_steps_def recorder_run_def NewRecorder_def record_begin_def record_end_def close_recorder_def loop_step_def
      after_select_def flush_def send_def f backlog_def with_defaults_def no_options_def Let_def)
  have o: "others_append sample_client" by (simp add: others_append_def sample_client_def appends_refl)
  have t: "trail_ok (acSha sample_client) empty_db" using trail_ok_empty by (simp add: sample_client_def)
  show ?thesis using s recorder_stops [OF o t refl s(1), of "[LoopStep WakeTick False, LoopStep WakeTick False]"] by simp
qed

end
