(* ===== verification/UserToken.thy ===== *)
theory UserToken
  imports Utf8 Base64
begin

text \<open>
  Access tokens of end users, after \<^verbatim>\<open>libs/go/usertoken/usertoken.go\<close>.  The JWT library and Ed25519 are parameters: \<open>sign\<close> makes a
  token of claims, \<open>jwt\<close> gives the claims of a token whose signature, issuer, audience and times it accepted, which always have an
  expiry.  Parsing a UUID gives its canonical text.  A key set is the list of its entries; its JSON text is left out, as are the files
  it and the signing key are read from.  Times are microseconds.
\<close>

record identity =
  idTenantID :: string
  idUserID :: string
  idSessionID :: string
  idTokenID :: string
  idExpiresAt :: int

record claims =
  clIssuer :: string
  clAudience :: "string list"
  clSubject :: string
  clID :: string
  clIssuedAt :: "int option"
  clExpiresAt :: int
  clTenantID :: string
  clSessionID :: string

type_synonym key_set = "(string \<times> bytes) list"

text \<open>What the parser of a verifier is configured with.\<close>

record verifier =
  vfKeys :: key_set
  vfIssuer :: string
  vfAudience :: string
  vfMaxLifetime :: int
  vfLeeway :: int

type_synonym jwt_parser = "verifier \<Rightarrow> string \<Rightarrow> claims option"

definition maxTokenBytes :: nat where "maxTokenBytes = 4096"
definition clockLeeway :: int where "clockLeeway = 30000000"

definition NewVerifier :: "key_set \<Rightarrow> string \<Rightarrow> string \<Rightarrow> int \<Rightarrow> verifier option" where
  "NewVerifier keys issuer audience maxLifetime =
     (if keys = [] then None
      else if issuer = [] \<or> audience = [] \<or> maxLifetime \<le> 0 then None
      else Some \<lparr>vfKeys = keys, vfIssuer = issuer, vfAudience = audience, vfMaxLifetime = maxLifetime, vfLeeway = clockLeeway\<rparr>)"

definition VerifyToken :: "jwt_parser \<Rightarrow> (string \<Rightarrow> string option) \<Rightarrow> verifier \<Rightarrow> string \<Rightarrow> identity option" where
  "VerifyToken jwt parseUUID v token =
     (if length token > maxTokenBytes then None
      else case jwt v token of
        None \<Rightarrow> None
      | Some c \<Rightarrow>
          if clSubject c = [] then None
          else case parseUUID (clTenantID c) of
            None \<Rightarrow> None
          | Some tenant \<Rightarrow> (case clIssuedAt c of
              None \<Rightarrow> None
            | Some iat \<Rightarrow>
                if clExpiresAt c - iat > vfMaxLifetime v then None
                else Some \<lparr>idTenantID = tenant, idUserID = clSubject c, idSessionID = clSessionID c, idTokenID = clID c,
                  idExpiresAt = clExpiresAt c\<rparr>))"

text \<open>
  \<^verbatim>\<open>strings.Cut\<close> at the first space, and \<^verbatim>\<open>strings.EqualFold\<close> with \<^verbatim>\<open>Bearer\<close>, whose letters fold to ASCII letters only.
\<close>

definition Cut :: "string \<Rightarrow> char \<Rightarrow> (string \<times> string) option" where
  "Cut s sep = (if sep \<in> set s then Some (takeWhile (\<lambda>c. c \<noteq> sep) s, drop 1 (dropWhile (\<lambda>c. c \<noteq> sep) s)) else None)"

definition fold_char :: "char \<Rightarrow> char" where
  "fold_char c = (if 65 \<le> byte c \<and> byte c \<le> 90 then char_of (byte c + 32) else c)"

definition BearerToken :: "string \<Rightarrow> string option" where
  "BearerToken authorization = (case Cut authorization (CHR '' '') of
     None \<Rightarrow> None
   | Some (scheme, token) \<Rightarrow> if map fold_char scheme \<noteq> ''bearer'' \<or> token = [] then None else Some token)"

subsection \<open>Key sets\<close>

record jwk =
  jwKty :: string
  jwCrv :: string
  jwKid :: string
  jwX :: string

fun jwks_keys :: "jwk list \<Rightarrow> key_set \<Rightarrow> key_set option" where
  "jwks_keys [] keys = Some keys"
| "jwks_keys (k # ks) keys =
     (if jwKty k \<noteq> ''OKP'' \<or> jwCrv k \<noteq> ''Ed25519'' then None
      else if jwKid k = [] then None
      else case DecodeString (jwX k) of
        None \<Rightarrow> None
      | Some raw \<Rightarrow>
          if length raw \<noteq> 32 then None
          else if map_of keys (jwKid k) \<noteq> None then None
          else jwks_keys ks (keys @ [(jwKid k, raw)]))"

definition ParseJWKS :: "jwk list \<Rightarrow> key_set option" where
  "ParseJWKS ks = (case jwks_keys ks [] of None \<Rightarrow> None | Some keys \<Rightarrow> if keys = [] then None else Some keys)"

definition PublicJWKS :: "string \<Rightarrow> bytes \<Rightarrow> jwk list option" where
  "PublicJWKS kid public =
     (if kid = [] then None else Some [\<lparr>jwKty = ''OKP'', jwCrv = ''Ed25519'', jwKid = kid, jwX = EncodeToString public\<rparr>])"

subsection \<open>Issuing\<close>

record issuer =
  isKeyID :: string
  isIssuer :: string
  isAudience :: string

definition IssueForSession :: "issuer \<Rightarrow> int \<Rightarrow> string \<Rightarrow> string \<Rightarrow> string \<Rightarrow> string \<Rightarrow> int \<Rightarrow> claims" where
  "IssueForSession i now tokenID userID tenantID sessionID ttl = \<lparr>clIssuer = isIssuer i, clAudience = [isAudience i], clSubject = userID,
     clID = tokenID, clIssuedAt = Some now, clExpiresAt = now + ttl, clTenantID = tenantID, clSessionID = sessionID\<rparr>"

subsection \<open>Lemmas\<close>

text \<open>The key a service publishes is the key its own verifier trusts.\<close>

lemma ParseJWKS_PublicJWKS:
  "kid \<noteq> [] \<Longrightarrow> length public = 32 \<Longrightarrow> \<exists>ks. PublicJWKS kid public = Some ks \<and> ParseJWKS ks = Some [(kid, public)]"
  by (simp add: PublicJWKS_def ParseJWKS_def DecodeString_EncodeToString)

lemma jwks_keys_distinct: "jwks_keys ks keys = Some keys' \<Longrightarrow> distinct (map fst keys) \<Longrightarrow> distinct (map fst keys')"
  by (induction ks arbitrary: keys) (auto simp: map_of_eq_None_iff split: if_splits option.splits)

text \<open>No token lives longer than the verifier allows, and every identity has a user and a tenant that parsed.\<close>

lemma VerifyToken_Some:
  assumes "VerifyToken jwt parseUUID v token = Some i"
  shows "idUserID i \<noteq> []" "\<exists>c. jwt v token = Some c \<and> parseUUID (clTenantID c) = Some (idTenantID i) \<and> idSessionID i = clSessionID c
    \<and> (\<exists>iat. clIssuedAt c = Some iat \<and> idExpiresAt i - iat \<le> vfMaxLifetime v)"
  using assms by (auto simp: VerifyToken_def split: if_splits option.splits)

lemma VerifyToken_issued:
  assumes "jwt v token = Some (IssueForSession i now tokenID userID tenantID sessionID ttl)" "length token \<le> maxTokenBytes" "userID \<noteq> []"
    and "parseUUID tenantID = Some tenantID" "ttl \<le> vfMaxLifetime v"
  shows "VerifyToken jwt parseUUID v token = Some \<lparr>idTenantID = tenantID, idUserID = userID, idSessionID = sessionID, idTokenID = tokenID,
    idExpiresAt = now + ttl\<rparr>"
  using assms by (simp add: VerifyToken_def IssueForSession_def)

end
