(* ===== verification/AppSecret.thy ===== *)
theory AppSecret
  imports Base64 Utf8
begin

text \<open>
  The secrets of the app API, after \<^verbatim>\<open>services/app-api/internal/secret/secret.go\<close>: pairing codes that people type,
  and refresh tokens.  \<^verbatim>\<open>crypto/rand\<close> is a parameter (the bytes it returns for a count, or its failure), and so is SHA-256.

  Above ASCII, \<^verbatim>\<open>unicode.ToUpper\<close> matters to the code only where the upper case is an ASCII letter: the dotless i
  (U+0131) and the long s (U+017F).  No other upper case of a rune above ASCII is in the alphabet, so these runes stand
  for themselves here.
\<close>

type_synonym random = "nat \<Rightarrow> bytes option"

definition alphabet :: string where "alphabet = ''0123456789ABCDEFGHJKMNPQRSTVWXYZ''"

definition CodeLength :: nat where "CodeLength = 12"

definition refreshPrefix :: string where "refreshPrefix = ''jrt_''"

fun pairing_symbols :: "nat \<Rightarrow> bytes \<Rightarrow> string" where
  "pairing_symbols i [] = []"
| "pairing_symbols i (v # raw) =
     (if i > 0 \<and> i mod 4 = 0 then [CHR ''-''] else []) @ alphabet ! (byte v mod 32) # pairing_symbols (Suc i) raw"

definition NewPairingCode :: "random \<Rightarrow> string option" where
  "NewPairingCode rand = map_option (pairing_symbols 0) (rand CodeLength)"

definition upper_rune :: "rune \<Rightarrow> rune" where
  "upper_rune r = (if 97 \<le> r \<and> r \<le> 122 then r - 32 else if r = 0x131 then 73 else if r = 0x17F then 83 else r)"

definition ToUpper :: "string \<Rightarrow> string" where
  "ToUpper s = concat (map (\<lambda>(r, _). EncodeRune (upper_rune r)) (runes s))"

definition ContainsRune :: "string \<Rightarrow> rune \<Rightarrow> bool" where
  "ContainsRune s r \<longleftrightarrow> r \<in> set (map fst (runes s))"

fun normalize_from :: "rune list \<Rightarrow> string \<Rightarrow> string option" where
  "normalize_from [] b = Some b"
| "normalize_from (r # rs) b =
     (if r = byte (CHR '' '') \<or> r = byte (CHR ''-'') \<or> r = 9 then normalize_from rs b
      else let r' = (if r = byte (CHR ''O'') then byte (CHR ''0'')
                     else if r = byte (CHR ''I'') \<or> r = byte (CHR ''L'') then byte (CHR ''1'') else r)
           in if \<not> ContainsRune alphabet r' then None else normalize_from rs (b @ EncodeRune r'))"

definition NormalizeCode :: "string \<Rightarrow> string option" where
  "NormalizeCode code = (case normalize_from (map fst (runes (ToUpper code))) [] of
     None \<Rightarrow> None
   | Some b \<Rightarrow> if length b \<noteq> CodeLength then None else Some b)"

definition NewRefreshToken :: "random \<Rightarrow> string option" where
  "NewRefreshToken rand = map_option (\<lambda>raw. refreshPrefix @ EncodeToString raw) (rand 32)"

definition CutPrefix :: "string \<Rightarrow> string \<Rightarrow> string option" where
  "CutPrefix s p = (if take (length p) s = p then Some (drop (length p) s) else None)"

text \<open>\<open>True\<close> where the code returns no error.\<close>

definition CheckRefreshToken :: "string \<Rightarrow> bool" where
  "CheckRefreshToken token = (case CutPrefix token refreshPrefix of
     None \<Rightarrow> False
   | Some raw \<Rightarrow> (case DecodeString raw of None \<Rightarrow> False | Some decoded \<Rightarrow> length decoded = 32))"

definition Hash :: "(bytes \<Rightarrow> bytes) \<Rightarrow> string \<Rightarrow> bytes" where
  "Hash sha v = sha v"

subsection \<open>What people do to codes\<close>

abbreviation ascii :: "string \<Rightarrow> bool" where "ascii s \<equiv> list_all (\<lambda>c. byte c < 128) s"

definition upper_char :: "char \<Rightarrow> char" where
  "upper_char c = char_of (upper_rune (byte c))"

definition lower_char :: "char \<Rightarrow> char" where
  "lower_char c = (if 65 \<le> byte c \<and> byte c \<le> 90 then char_of (byte c + 32) else c)"

text \<open>The symbol a character is read as; none for the separators.\<close>

definition reading :: "char \<Rightarrow> char option" where
  "reading c = (let u = upper_char c in
     if u = CHR '' '' \<or> u = CHR ''-'' \<or> u = CHR 0x09 then None
     else Some (if u = CHR ''O'' then CHR ''0'' else if u = CHR ''I'' \<or> u = CHR ''L'' then CHR ''1'' else u))"

lemma byte_eq: "byte c = byte d \<longleftrightarrow> c = d"
  by (simp add: byte_def)

lemma byte_tab: "byte c = 9 \<longleftrightarrow> c = CHR 0x09"
  using byte_eq [of c "CHR 0x09"] by (simp add: byte_def)

lemma runes_of_ascii: "ascii s \<Longrightarrow> runes s = map (\<lambda>c. (byte c, [c])) s"
  by (rule runes_ascii) (simp add: list_all_iff)

lemma EncodeRune_byte: "byte c < 128 \<Longrightarrow> EncodeRune (byte c) = [c]"
  by (simp add: EncodeRune_def valid_rune_def) (simp add: byte_def)

lemma upper_rune_ascii: "r < 128 \<Longrightarrow> upper_rune r < 128"
  by (auto simp: upper_rune_def)

lemma byte_upper_char: "byte c < 128 \<Longrightarrow> byte (upper_char c) = upper_rune (byte c)"
  using upper_rune_ascii [of "byte c"] by (simp add: upper_char_def byte_char_of)

lemma ToUpper_ascii: "ascii s \<Longrightarrow> ToUpper s = map upper_char s"
proof -
  assume a: "ascii s"
  have "EncodeRune (upper_rune (byte c)) = [upper_char c]" if "byte c < 128" for c
    using EncodeRune_byte [of "upper_char c"] that by (simp add: byte_upper_char upper_rune_ascii)
  with a have "concat (map (\<lambda>c. EncodeRune (upper_rune (byte c))) s) = map upper_char s"
    by (induction s) simp_all
  then show ?thesis using a by (simp add: ToUpper_def runes_of_ascii comp_def)
qed

lemma upper_ascii: "ascii s \<Longrightarrow> ascii (map upper_char s)"
  by (simp add: list_all_iff byte_upper_char upper_rune_ascii)

lemma alphabet_ascii: "ascii alphabet"
  by (simp add: alphabet_def byte_def)

lemma ContainsRune_alphabet: "ContainsRune alphabet (byte c) \<longleftrightarrow> c \<in> set alphabet"
  by (auto simp: ContainsRune_def runes_of_ascii [OF alphabet_ascii] byte_eq)

text \<open>One symbol at a time, the loop collects the readings.\<close>

lemma normalize_from_ascii:
  assumes "ascii s"
  shows "normalize_from (map byte (map upper_char s)) b =
    (if set (List.map_filter reading s) \<subseteq> set alphabet then Some (b @ List.map_filter reading s) else None)"
  using assms
proof (induction s arbitrary: b)
  case Nil
  then show ?case by (simp add: map_filter_simps)
next
  case (Cons c s)
  let ?u = "upper_char c"
  let ?v = "if ?u = CHR ''O'' then CHR ''0'' else if ?u = CHR ''I'' \<or> ?u = CHR ''L'' then CHR ''1'' else ?u"
  have r: "(if byte ?u = byte (CHR ''O'') then byte (CHR ''0'')
      else if byte ?u = byte (CHR ''I'') \<or> byte ?u = byte (CHR ''L'') then byte (CHR ''1'') else byte ?u) = byte ?v"
    by (simp add: byte_eq)
  from Cons.prems have v: "byte ?v < 128" using byte_upper_char [of c] upper_rune_ascii [of "byte c"] by (auto simp: byte_def)
  show ?case
  proof (cases "reading c")
    case None
    then have "byte ?u = byte (CHR '' '') \<or> byte ?u = byte (CHR ''-'') \<or> byte ?u = 9"
      by (auto simp: reading_def Let_def byte_eq byte_tab split: if_splits)
    with None Cons show ?thesis by (simp add: map_filter_simps)
  next
    case (Some w)
    then have w: "w = ?v" and n: "\<not> (byte ?u = byte (CHR '' '') \<or> byte ?u = byte (CHR ''-'') \<or> byte ?u = 9)"
      by (auto simp: reading_def Let_def byte_eq byte_tab split: if_splits)
    have "normalize_from (map byte (map upper_char (c # s))) b =
        (if \<not> ContainsRune alphabet (byte ?v) then None else normalize_from (map byte (map upper_char s)) (b @ EncodeRune (byte ?v)))"
      using n r by (simp add: Let_def)
    also have "\<dots> = (if ?v \<notin> set alphabet then None else normalize_from (map byte (map upper_char s)) (b @ [?v]))"
      by (simp only: ContainsRune_alphabet EncodeRune_byte [OF v])
    finally show ?thesis using Cons.IH [of "b @ [?v]"] Cons.prems Some w by (simp add: map_filter_simps)
  qed
qed

lemma NormalizeCode_ascii:
  assumes "ascii s"
  shows "NormalizeCode s =
    (let b = List.map_filter reading s in if set b \<subseteq> set alphabet \<and> length b = CodeLength then Some b else None)"
proof -
  have "map fst (runes (ToUpper s)) = map byte (map upper_char s)"
    by (simp add: ToUpper_ascii [OF assms] runes_of_ascii [OF upper_ascii [OF assms]] comp_def)
  then show ?thesis unfolding NormalizeCode_def by (simp only: normalize_from_ascii [OF assms] Let_def) simp
qed

lemma upper_char_capital: "byte a < 97 \<Longrightarrow> upper_char a = a" "byte a < 97 \<Longrightarrow> upper_char (lower_char a) = a"
proof -
  show up: "upper_char a = a" if "byte a < 97" for a
    using that by (simp add: upper_char_def upper_rune_def byte_def)
  show "upper_char (lower_char a) = a" if "byte a < 97"
  proof (cases "65 \<le> byte a \<and> byte a \<le> 90")
    case True
    then have "upper_char (lower_char a) = char_of (byte a)"
      by (simp add: upper_char_def lower_char_def upper_rune_def byte_char_of)
    then show ?thesis by (simp add: byte_def)
  next
    case False
    then show ?thesis using up [OF that] by (auto simp: lower_char_def)
  qed
qed

lemma byte_lower_char: "byte a < 97 \<Longrightarrow> byte (lower_char a) < 128"
  by (auto simp: lower_char_def byte_char_of)

lemma reading_capital: "byte a < 97 \<Longrightarrow> reading (lower_char a) = reading a"
  by (simp add: reading_def upper_char_capital)

lemma alphabet_capital: "list_all (\<lambda>a. byte a < 97 \<and> a \<notin> {CHR '' '', CHR ''-'', CHR 0x09, CHR ''O'', CHR ''I'', CHR ''L''}) alphabet"
  by (simp add: alphabet_def byte_def)

lemma alphabet_readings: "a \<in> set alphabet \<Longrightarrow> reading a = Some a \<and> reading (lower_char a) = Some a \<and> a \<noteq> CHR ''-''
    \<and> byte (lower_char a) < 128"
  using alphabet_capital by (simp add: list_all_iff reading_capital byte_lower_char) (auto simp: reading_def upper_char_capital Let_def)

lemma alphabet_symbol: "alphabet ! (byte v mod 32) \<in> set alphabet"
  by (rule nth_mem) (simp add: alphabet_def)

lemma symbol_readings:
  "reading (alphabet ! (byte v mod 32)) = Some (alphabet ! (byte v mod 32))"
  "reading (lower_char (alphabet ! (byte v mod 32))) = Some (alphabet ! (byte v mod 32))"
  "alphabet ! (byte v mod 32) \<noteq> CHR ''-''"
  "byte (alphabet ! (byte v mod 32)) < 128"
  "byte (lower_char (alphabet ! (byte v mod 32))) < 128"
  using alphabet_readings alphabet_ascii alphabet_symbol [of v] by (auto simp: list_all_iff)

lemma dash_readings: "reading (CHR ''-'') = None" "reading (lower_char (CHR ''-'')) = None"
    "byte (CHR ''-'') < 128" "byte (lower_char (CHR ''-'')) < 128"
proof -
  have b: "byte (CHR ''-'') < 97" by (simp add: byte_def)
  then show "reading (CHR ''-'') = None" by (simp add: reading_def upper_char_capital)
  with b show "reading (lower_char (CHR ''-'')) = None" "byte (CHR ''-'') < 128" "byte (lower_char (CHR ''-'')) < 128"
    by (simp_all add: reading_capital byte_lower_char)
qed

lemmas code_readings = symbol_readings dash_readings

lemma pairing_symbols_readings:
  "List.map_filter reading (pairing_symbols i raw) = map (\<lambda>v. alphabet ! (byte v mod 32)) raw"
  "List.map_filter reading (map lower_char (pairing_symbols i raw)) = map (\<lambda>v. alphabet ! (byte v mod 32)) raw"
  "filter (\<lambda>c. c \<noteq> CHR ''-'') (pairing_symbols i raw) = map (\<lambda>v. alphabet ! (byte v mod 32)) raw"
  "ascii (pairing_symbols i raw)" "ascii (map lower_char (pairing_symbols i raw))"
  by (induction raw arbitrary: i) (simp_all add: code_readings map_filter_simps)

lemma symbols_readings:
  "List.map_filter reading (map (\<lambda>v. alphabet ! (byte v mod 32)) raw) = map (\<lambda>v. alphabet ! (byte v mod 32)) raw"
  "ascii (map (\<lambda>v. alphabet ! (byte v mod 32)) raw)"
  "set (map (\<lambda>v. alphabet ! (byte v mod 32)) raw) \<subseteq> set alphabet"
  using alphabet_symbol by (induction raw) (auto simp: code_readings map_filter_simps)

text \<open>
  C40.  A pairing code survives being typed: the code a user is shown, the same in lower case, and the same
  without its dashes all normalize to the twelve symbols of the random bytes, the five low bits of each byte.
\<close>

theorem pairing_code_roundtrip:
  assumes "rand CodeLength = Some raw" "length raw = CodeLength"
  shows "\<exists>code. NewPairingCode rand = Some code
    \<and> NormalizeCode code = Some (map (\<lambda>v. alphabet ! (byte v mod 32)) raw)
    \<and> NormalizeCode (map lower_char code) = Some (map (\<lambda>v. alphabet ! (byte v mod 32)) raw)
    \<and> NormalizeCode (filter (\<lambda>c. c \<noteq> CHR ''-'') code) = Some (map (\<lambda>v. alphabet ! (byte v mod 32)) raw)"
  using assms symbols_readings(3) [of raw]
  by (simp add: NewPairingCode_def NormalizeCode_ascii pairing_symbols_readings symbols_readings Let_def)

theorem pairing_code_roundtrip_witness:
  "\<exists>code. NewPairingCode (\<lambda>n. Some ''correcthorse'') = Some code
    \<and> NormalizeCode code = Some ''3FJJ53M8FJK5'' \<and> NormalizeCode (map lower_char code) = Some ''3FJJ53M8FJK5''"
  using pairing_code_roundtrip [of "\<lambda>n. Some ''correcthorse''" "''correcthorse''"]
  by (auto simp: CodeLength_def byte_def alphabet_def)

text \<open>A token the service issued passes its own check, and different random bytes give different tokens.\<close>

lemma CheckRefreshToken_New:
  "rand 32 = Some raw \<Longrightarrow> length raw = 32 \<Longrightarrow> \<exists>t. NewRefreshToken rand = Some t \<and> CheckRefreshToken t"
  by (simp add: NewRefreshToken_def CheckRefreshToken_def CutPrefix_def DecodeString_EncodeToString)

lemma EncodeToString_inj: "EncodeToString a = EncodeToString b \<longleftrightarrow> a = b"
  by (metis DecodeString_EncodeToString option.inject)

lemma NewRefreshToken_inj:
  "NewRefreshToken rand = Some t \<Longrightarrow> NewRefreshToken rand' = Some t \<Longrightarrow> rand 32 = rand' 32"
  by (auto simp: NewRefreshToken_def EncodeToString_inj)

end
