(* ===== verification/AppStore.thy ===== *)
theory AppStore
  imports Prelude
begin

text \<open>
  The database of the app API, after \<^verbatim>\<open>services/app-api/internal/store/store.go\<close> and its migrations: pairing codes,
  sessions with rotating refresh tokens, and push tokens.  Times are microseconds, as PostgreSQL keeps them; \<open>now\<close> is the
  \<^verbatim>\<open>now()\<close> of the transaction.  A transaction that violates a key, a \<^verbatim>\<open>UNIQUE\<close> column, a reference or a check leaves the
  tables as they were and is \<open>AppErrConstraint\<close>; failures of the connection are added where the store is called.
\<close>

datatype app_error = AppErrNotFound | AppErrConstraint | AppErrUnavailable

definition ReasonSignedOut :: string where "ReasonSignedOut = ''signed out''"
definition ReasonRevoked :: string where "ReasonRevoked = ''revoked by the user''"
definition ReasonReused :: string where "ReasonReused = ''refresh token reused''"

subsection \<open>Tables\<close>

record Session =
  snID :: string
  snTenantID :: string
  snUserID :: string
  snDeviceName :: string
  snDeviceModel :: string
  snRefreshExpiresAt :: int
  snCreatedAt :: int
  snLastUsedAt :: int
  snRevokedAt :: "int option"

record session_row = Session +
  srRefreshHash :: bytes
  srPreviousHash :: "bytes option"
  srRotatedAt :: "int option"
  srRevokeReason :: "string option"

definition Active :: "int \<Rightarrow> 'a Session_scheme \<Rightarrow> bool" where
  "Active now s \<longleftrightarrow> snRevokedAt s = None \<and> now < snRefreshExpiresAt s"

record pairing_code =
  pcCodeHash :: bytes
  pcTenantID :: string
  pcUserID :: string
  pcExpiresAt :: int
  pcRedeemedAt :: "int option"
  pcSessionID :: "string option"

record push_token =
  ptSessionID :: string
  ptDeviceToken :: string
  ptEnvironment :: string

record app_db =
  adCodes :: "pairing_code list"
  adSessions :: "session_row list"
  adPushTokens :: "push_token list"

definition scanSession :: "session_row \<Rightarrow> Session" where
  "scanSession r = Session.truncate r"

text \<open>The unique columns of \<^verbatim>\<open>sessions\<close>; a \<^verbatim>\<open>NULL\<close> equals nothing.\<close>

definition previous_hashes :: "session_row list \<Rightarrow> bytes list" where
  "previous_hashes rows = List.map_filter srPreviousHash rows"

definition sessions_ok :: "session_row list \<Rightarrow> bool" where
  "sessions_ok rows \<longleftrightarrow> distinct (map snID rows) \<and> distinct (map srRefreshHash rows) \<and> distinct (previous_hashes rows)"

subsection \<open>Pairing\<close>

definition CreatePairingCode :: "bytes \<Rightarrow> string \<Rightarrow> string \<Rightarrow> int \<Rightarrow> app_db \<Rightarrow> (app_error, unit) result \<times> app_db" where
  "CreatePairingCode codeHash tenant user expires db =
     (if lookup pcCodeHash codeHash (adCodes db) \<noteq> None then (Inl AppErrConstraint, db)
      else (Inr (), db\<lparr>adCodes := adCodes db @ [\<lparr>pcCodeHash = codeHash, pcTenantID = tenant, pcUserID = user,
        pcExpiresAt = expires, pcRedeemedAt = None, pcSessionID = None\<rparr>]\<rparr>))"

record NewSession =
  nsID :: string
  nsDeviceName :: string
  nsDeviceModel :: string
  nsRefreshHash :: bytes
  nsRefreshExpiresAt :: int

definition redeemable :: "int \<Rightarrow> bytes \<Rightarrow> pairing_code \<Rightarrow> bool" where
  "redeemable now codeHash c \<longleftrightarrow> pcCodeHash c = codeHash \<and> pcRedeemedAt c = None \<and> pcExpiresAt c > now"

definition new_row :: "int \<Rightarrow> string \<Rightarrow> string \<Rightarrow> NewSession \<Rightarrow> session_row" where
  "new_row now tenant user n = \<lparr>snID = nsID n, snTenantID = tenant, snUserID = user, snDeviceName = nsDeviceName n,
     snDeviceModel = nsDeviceModel n, snRefreshExpiresAt = nsRefreshExpiresAt n, snCreatedAt = now, snLastUsedAt = now,
     snRevokedAt = None, srRefreshHash = nsRefreshHash n, srPreviousHash = None, srRotatedAt = None, srRevokeReason = None\<rparr>"

definition RedeemPairingCode :: "int \<Rightarrow> bytes \<Rightarrow> NewSession \<Rightarrow> app_db \<Rightarrow> (app_error, Session) result \<times> app_db" where
  "RedeemPairingCode now codeHash n db = (case query_row (redeemable now codeHash) (adCodes db) of
     None \<Rightarrow> (Inl AppErrNotFound, db)
   | Some c \<Rightarrow>
       (let row = new_row now (pcTenantID c) (pcUserID c) n; rows = adSessions db @ [row] in
        if \<not> sessions_ok rows then (Inl AppErrConstraint, db)
        else (Inr (scanSession row),
          db\<lparr>adCodes := update_where (redeemable now codeHash) (\<lambda>x. x\<lparr>pcRedeemedAt := Some now, pcSessionID := Some (nsID n)\<rparr>) (adCodes db),
             adSessions := rows\<rparr>)))"

subsection \<open>Sessions\<close>

datatype RefreshOutcome = Rotated | Retried | Reused

definition presents :: "bytes \<Rightarrow> session_row \<Rightarrow> bool" where
  "presents presented r \<longleftrightarrow> srRefreshHash r = presented \<or> srPreviousHash r = Some presented"

text \<open>\<^verbatim>\<open>UPDATE sessions SET .. WHERE id = i RETURNING ..\<close>\<close>

definition update_session :: "string \<Rightarrow> (session_row \<Rightarrow> session_row) \<Rightarrow> RefreshOutcome \<Rightarrow> app_db
    \<Rightarrow> (app_error, Session \<times> RefreshOutcome) result \<times> app_db" where
  "update_session i f outcome db =
     (let rows = update_where (\<lambda>r. snID r = i) f (adSessions db) in
      if \<not> sessions_ok rows then (Inl AppErrConstraint, db)
      else case returning (\<lambda>r. snID r = i) f (adSessions db) of
        [] \<Rightarrow> (Inl AppErrNotFound, db)
      | r # _ \<Rightarrow> (Inr (scanSession r, outcome), db\<lparr>adSessions := rows\<rparr>))"

definition rotate_token :: "int \<Rightarrow> bytes \<Rightarrow> int \<Rightarrow> session_row \<Rightarrow> session_row" where
  "rotate_token now nxt idleTTL r = r\<lparr>srPreviousHash := Some (srRefreshHash r), srRefreshHash := nxt, srRotatedAt := Some now,
     snRefreshExpiresAt := now + idleTTL, snLastUsedAt := now\<rparr>"

definition retry_token :: "int \<Rightarrow> bytes \<Rightarrow> session_row \<Rightarrow> session_row" where
  "retry_token now nxt r = r\<lparr>srRefreshHash := nxt, snLastUsedAt := now\<rparr>"

definition revoke_row :: "int \<Rightarrow> string \<Rightarrow> session_row \<Rightarrow> session_row" where
  "revoke_row now reason r = r\<lparr>snRevokedAt := Some now, srRevokeReason := Some reason\<rparr>"

definition in_grace :: "int \<Rightarrow> int \<Rightarrow> session_row \<Rightarrow> bool" where
  "in_grace now grace r = (case srRotatedAt r of None \<Rightarrow> False | Some t \<Rightarrow> t > now - grace)"

definition Refresh :: "int \<Rightarrow> bytes \<Rightarrow> bytes \<Rightarrow> int \<Rightarrow> int \<Rightarrow> app_db
    \<Rightarrow> (app_error, Session \<times> RefreshOutcome) result \<times> app_db" where
  "Refresh now presented nxt idleTTL grace db =
     (case query_row (\<lambda>r. presents presented r \<and> snRevokedAt r = None \<and> snRefreshExpiresAt r > now) (adSessions db) of
        None \<Rightarrow> (Inl AppErrNotFound, db)
      | Some r \<Rightarrow>
          if srRefreshHash r = presented then update_session (snID r) (rotate_token now nxt idleTTL) Rotated db
          else if in_grace now grace r then update_session (snID r) (retry_token now nxt) Retried db
          else update_session (snID r) (revoke_row now ReasonReused) Reused db)"

definition Session_by_id :: "string \<Rightarrow> app_db \<Rightarrow> (app_error, Session) result" where
  "Session_by_id i db = (case lookup snID i (adSessions db) of None \<Rightarrow> Inl AppErrNotFound | Some r \<Rightarrow> Inr (scanSession r))"

definition SignOut :: "int \<Rightarrow> bytes \<Rightarrow> app_db \<Rightarrow> Session option \<times> app_db" where
  "SignOut now presented db =
     (let P = (\<lambda>r. presents presented r \<and> snRevokedAt r = None); f = revoke_row now ReasonSignedOut in
      (case returning P f (adSessions db) of [] \<Rightarrow> None | r # _ \<Rightarrow> Some (scanSession r),
       db\<lparr>adSessions := update_where P f (adSessions db)\<rparr>))"

text \<open>Among sessions last used at the same time, the order of the table stands for any order.\<close>

definition Sessions :: "int \<Rightarrow> string \<Rightarrow> string \<Rightarrow> app_db \<Rightarrow> Session list" where
  "Sessions now tenant user db = map scanSession (take 100 (sort_key (\<lambda>r. - snLastUsedAt r)
     (filter (\<lambda>r. snTenantID r = tenant \<and> snUserID r = user \<and> snRevokedAt r = None \<and> snRefreshExpiresAt r > now) (adSessions db))))"

definition Revoke :: "int \<Rightarrow> string \<Rightarrow> string \<Rightarrow> string \<Rightarrow> string \<Rightarrow> app_db \<Rightarrow> bool \<times> app_db" where
  "Revoke now tenant user i reason db =
     (let P = (\<lambda>r. snID r = i \<and> snTenantID r = tenant \<and> snUserID r = user \<and> snRevokedAt r = None) in
      (affected P (adSessions db) = 1, db\<lparr>adSessions := update_where P (revoke_row now reason) (adSessions db)\<rparr>))"

definition ended_before :: "int \<Rightarrow> session_row \<Rightarrow> bool" where
  "ended_before t r \<longleftrightarrow> (case snRevokedAt r of None \<Rightarrow> snRefreshExpiresAt r | Some v \<Rightarrow> v) < t"

definition Purge :: "int \<Rightarrow> int \<Rightarrow> app_db \<Rightarrow> nat \<times> app_db" where
  "Purge now keep db =
     (let codes = (\<lambda>c. pcExpiresAt c < now - keep); ended = ended_before (now - keep);
          rows = delete_where ended (adSessions db) in
      (affected codes (adCodes db) + affected ended (adSessions db),
       db\<lparr>adCodes := delete_where codes (adCodes db), adSessions := rows,
          adPushTokens := filter (\<lambda>p. ptSessionID p \<in> snID ` set rows) (adPushTokens db)\<rparr>))"

subsection \<open>Push tokens\<close>

definition push_environments :: "string list" where
  "push_environments = [''sandbox'', ''production'']"

definition SetPushToken :: "string \<Rightarrow> string \<Rightarrow> string \<Rightarrow> app_db \<Rightarrow> (app_error, unit) result \<times> app_db" where
  "SetPushToken session token environment db =
     (let rows = delete_where (\<lambda>p. ptDeviceToken p = token \<and> ptSessionID p \<noteq> session) (adPushTokens db);
          row = \<lparr>ptSessionID = session, ptDeviceToken = token, ptEnvironment = environment\<rparr> in
      if lookup snID session (adSessions db) = None \<or> environment \<notin> set push_environments then (Inl AppErrConstraint, db)
      else (Inr (), db\<lparr>adPushTokens :=
        (if lookup ptSessionID session rows = None then rows @ [row]
         else update_where (\<lambda>p. ptSessionID p = session) (\<lambda>_. row) rows)\<rparr>))"

definition DeletePushToken :: "string \<Rightarrow> app_db \<Rightarrow> app_db" where
  "DeletePushToken session db = db\<lparr>adPushTokens := delete_where (\<lambda>p. ptSessionID p = session) (adPushTokens db)\<rparr>"

definition ForgetDeviceToken :: "string \<Rightarrow> app_db \<Rightarrow> app_db" where
  "ForgetDeviceToken token db = db\<lparr>adPushTokens := delete_where (\<lambda>p. ptDeviceToken p = token) (adPushTokens db)\<rparr>"

definition PushTokens :: "int \<Rightarrow> string \<Rightarrow> string \<Rightarrow> app_db \<Rightarrow> push_token list" where
  "PushTokens now tenant user db = filter (\<lambda>p. list_ex (\<lambda>s. snID s = ptSessionID p \<and> snTenantID s = tenant \<and> snUserID s = user
     \<and> snRevokedAt s = None \<and> snRefreshExpiresAt s > now) (adSessions db)) (adPushTokens db)"

end
