(* ===== verification/AppSessions.thy ===== *)
theory AppSessions
  imports AppStore
begin

text \<open>
  What the app API's database guarantees whatever order its operations come in: the invariant of its tables, that a
  pairing code pairs once, that a refresh token is exchanged once outside its grace period, and that an ended session
  stays ended.  A history is a list of operations, each with the time of its transaction; times need not increase, since
  transactions may commit in another order than they began.
\<close>

datatype app_op =
    OpCreatePairingCode bytes string string int
  | OpRedeemPairingCode bytes NewSession
  | OpRefresh bytes bytes int int
  | OpSignOut bytes
  | OpRevoke string string string string
  | OpPurge int
  | OpSetPushToken string string string
  | OpDeletePushToken string
  | OpForgetDeviceToken string

fun run_op :: "int \<times> app_op \<Rightarrow> app_db \<Rightarrow> app_db" where
  "run_op (now, OpCreatePairingCode h t u e) db = snd (CreatePairingCode h t u e db)"
| "run_op (now, OpRedeemPairingCode h n) db = snd (RedeemPairingCode now h n db)"
| "run_op (now, OpRefresh h h' ttl grace) db = snd (Refresh now h h' ttl grace db)"
| "run_op (now, OpSignOut h) db = snd (SignOut now h db)"
| "run_op (now, OpRevoke t u i reason) db = snd (Revoke now t u i reason db)"
| "run_op (now, OpPurge keep) db = snd (Purge now keep db)"
| "run_op (now, OpSetPushToken i tok e) db = snd (SetPushToken i tok e db)"
| "run_op (now, OpDeletePushToken i) db = DeletePushToken i db"
| "run_op (now, OpForgetDeviceToken tok) db = ForgetDeviceToken tok db"

definition run_ops :: "(int \<times> app_op) list \<Rightarrow> app_db \<Rightarrow> app_db" where
  "run_ops ops db = fold run_op ops db"

definition empty_app_db :: app_db where
  "empty_app_db = \<lparr>adCodes = [], adSessions = [], adPushTokens = []\<rparr>"

text \<open>An operation introduces a code, a token hash or a session id.\<close>

fun creates_code :: "bytes \<Rightarrow> app_op \<Rightarrow> bool" where
  "creates_code h (OpCreatePairingCode h' _ _ _) = (h' = h)"
| "creates_code h _ = False"

fun issues_hash :: "bytes \<Rightarrow> app_op \<Rightarrow> bool" where
  "issues_hash h (OpRedeemPairingCode _ n) = (nsRefreshHash n = h)"
| "issues_hash h (OpRefresh _ h' _ _) = (h' = h)"
| "issues_hash h _ = False"

fun creates_session :: "string \<Rightarrow> app_op \<Rightarrow> bool" where
  "creates_session i (OpRedeemPairingCode _ n) = (nsID n = i)"
| "creates_session i _ = False"

text \<open>Every history inherits what each operation keeps.\<close>

lemma run_ops_keeps:
  assumes "P db" "list_all (\<lambda>op. Q (snd op)) ops"
    and "\<And>now op db. P db \<Longrightarrow> Q op \<Longrightarrow> P (run_op (now, op) db)"
  shows "P (run_ops ops db)"
  using assms(1,2)
proof (induction ops arbitrary: db)
  case Nil
  then show ?case by (simp add: run_ops_def)
next
  case (Cons op ops)
  then show ?case using assms(3) [of db "snd op" "fst op"] by (simp add: run_ops_def)
qed

subsection \<open>How the operations change a row\<close>

named_theorems app_ops \<open>the store operations of the app API\<close>

lemmas [app_ops] = CreatePairingCode_def RedeemPairingCode_def SignOut_def Revoke_def Purge_def SetPushToken_def
  DeletePushToken_def ForgetDeviceToken_def Let_def

definition refresh_change :: "int \<Rightarrow> bytes \<Rightarrow> bytes \<Rightarrow> int \<Rightarrow> int \<Rightarrow> session_row \<Rightarrow> (session_row \<Rightarrow> session_row) \<Rightarrow> RefreshOutcome \<Rightarrow> bool" where
  "refresh_change now h h' ttl grace r f out \<longleftrightarrow>
     f = rotate_token now h' ttl \<and> out = Rotated \<and> srRefreshHash r = h
     \<or> f = retry_token now h' \<and> out = Retried \<and> srRefreshHash r \<noteq> h \<and> in_grace now grace r
     \<or> f = revoke_row now ReasonReused \<and> out = Reused \<and> srRefreshHash r \<noteq> h \<and> \<not> in_grace now grace r"

lemma Refresh_cases:
  obtains (none) "Refresh now h h' ttl grace db = (Inl AppErrNotFound, db)"
  | (refused) r f out where "r \<in> set (adSessions db)" "presents h r" "Active now r" "refresh_change now h h' ttl grace r f out"
      "\<not> sessions_ok (update_where (\<lambda>x. snID x = snID r) f (adSessions db))"
      "Refresh now h h' ttl grace db = (Inl AppErrConstraint, db)"
  | (changed) r f out where "r \<in> set (adSessions db)" "presents h r" "Active now r" "refresh_change now h h' ttl grace r f out"
      "sessions_ok (update_where (\<lambda>x. snID x = snID r) f (adSessions db))"
      "\<exists>s. Refresh now h h' ttl grace db =
         (Inr (s, out), db\<lparr>adSessions := update_where (\<lambda>x. snID x = snID r) f (adSessions db)\<rparr>) \<and> snID s = snID r"
proof (cases "query_row (\<lambda>r. presents h r \<and> snRevokedAt r = None \<and> snRefreshExpiresAt r > now) (adSessions db)")
  case None
  then show ?thesis by (intro none) (simp add: Refresh_def)
next
  case (Some r)
  define f where "f = (if srRefreshHash r = h then rotate_token now h' ttl else if in_grace now grace r then retry_token now h'
    else revoke_row now ReasonReused)"
  define out where "out = (if srRefreshHash r = h then Rotated else if in_grace now grace r then Retried else Reused)"
  have R: "Refresh now h h' ttl grace db = update_session (snID r) f out db"
    using Some by (simp add: Refresh_def f_def out_def)
  have r: "r \<in> set (adSessions db)" "presents h r" "Active now r"
    using query_row_Some [OF Some] by (auto simp: Active_def)
  have f: "snID (f x) = snID x" for x by (simp add: f_def rotate_token_def retry_token_def revoke_row_def)
  have c: "refresh_change now h h' ttl grace r f out" by (simp add: refresh_change_def f_def out_def)
  show ?thesis
  proof (cases "sessions_ok (update_where (\<lambda>x. snID x = snID r) f (adSessions db))")
    case False
    then show ?thesis using R by (intro refused [OF r c]) (simp_all add: update_session_def Let_def)
  next
    case True
    obtain x xs where x: "filter (\<lambda>x. snID x = snID r) (adSessions db) = x # xs"
      using r(1) by (metis (mono_tags, lifting) filter_empty_conv neq_Nil_conv)
    then have "x \<in> set (filter (\<lambda>x. snID x = snID r) (adSessions db))" by simp
    then have "snID (scanSession (f x)) = snID r" by (simp add: f scanSession_def Session.defs)
    with R True x have ex: "\<exists>s. Refresh now h h' ttl grace db =
        (Inr (s, out), db\<lparr>adSessions := update_where (\<lambda>x. snID x = snID r) f (adSessions db)\<rparr>) \<and> snID s = snID r"
      by (simp add: update_session_def Let_def returning_def)
    show ?thesis by (rule changed [OF r c True ex])
  qed
qed
subsection \<open>The invariant of the tables\<close>

definition app_inv :: "app_db \<Rightarrow> bool" where
  "app_inv db \<longleftrightarrow> distinct (map pcCodeHash (adCodes db)) \<and> sessions_ok (adSessions db)
     \<and> distinct (map ptSessionID (adPushTokens db)) \<and> distinct (map ptDeviceToken (adPushTokens db))
     \<and> (\<forall>p \<in> set (adPushTokens db). ptSessionID p \<in> snID ` set (adSessions db) \<and> ptEnvironment p \<in> set push_environments)"

lemma previous_hashes_update:
  "(\<And>r. P r \<Longrightarrow> srPreviousHash (f r) = srPreviousHash r) \<Longrightarrow> previous_hashes (update_where P f rows) = previous_hashes rows"
  by (induction rows) (auto simp: previous_hashes_def map_filter_simps split: option.splits)

lemma distinct_map_filter_filter: "distinct (List.map_filter f xs) \<Longrightarrow> distinct (List.map_filter f (filter P xs))"
proof (induction xs)
  case (Cons x xs)
  have "set (List.map_filter f (filter P xs)) \<subseteq> set (List.map_filter f xs)"
    by (induction xs) (auto simp: map_filter_simps split: option.splits)
  with Cons show ?case by (auto simp: map_filter_simps split: option.splits if_splits)
qed (simp add: map_filter_simps)

lemma distinct_map_filter_eq:
  "distinct (List.map_filter f xs) \<Longrightarrow> x \<in> set xs \<Longrightarrow> y \<in> set xs \<Longrightarrow> f x = Some v \<Longrightarrow> f y = Some v \<Longrightarrow> x = y"
proof (induction xs)
  case (Cons a xs)
  have m: "v \<in> set (List.map_filter f xs)" if "z \<in> set xs" "f z = Some v" for z
    using that by (induction xs) (auto simp: map_filter_simps split: option.splits)
  from Cons m show ?case by (auto simp: map_filter_simps split: option.splits)
qed simp

lemma sessions_ok_revoke: "sessions_ok (update_where P (revoke_row now reason) rows) = sessions_ok rows"
  by (simp add: sessions_ok_def map_update_where previous_hashes_update revoke_row_def)

lemma sessions_ok_delete: "sessions_ok rows \<Longrightarrow> sessions_ok (delete_where P rows)"
  unfolding sessions_ok_def previous_hashes_def
  by (simp add: distinct_delete_where) (simp add: delete_where_def distinct_map_filter_filter)

lemma keys_update_where:
  "(\<And>r. P r \<Longrightarrow> key (f r) = key r) \<Longrightarrow> key ` set (update_where P f rows) = key ` set rows"
  using map_update_where [of rows P key f] by (metis set_map)

lemma session_ids_revoke: "snID ` set (update_where P (revoke_row now reason) rows) = snID ` set rows"
  by (rule keys_update_where) (simp add: revoke_row_def)

text \<open>Setting a unique column of the row with key \<open>i\<close> to a value no other row has keeps the column unique.\<close>

lemma distinct_update_unique:
  "distinct (map key rows) \<Longrightarrow> distinct (map val rows) \<Longrightarrow> \<forall>p \<in> set rows. val p = val row \<longrightarrow> key p = i \<Longrightarrow>
   distinct (map val (update_where (\<lambda>p. key p = i) (\<lambda>_. row) rows))"
proof (induction rows)
  case (Cons a rows)
  then have "update_where (\<lambda>p. key p = i) (\<lambda>_. row) rows = rows" if "key a = i"
    using that Cons.prems by (intro update_where_none) (auto simp: image_iff)
  with Cons show ?case by (auto simp: set_update_where image_iff)
qed simp

lemma Refresh_inv: "app_inv db \<Longrightarrow> app_inv (snd (Refresh now h h' ttl grace db))"
proof (cases rule: Refresh_cases [of now h h' ttl grace db])
  case (changed r f out)
  assume inv: "app_inv db"
  from changed(4) have "snID (f x) = snID x" for x by (auto simp: refresh_change_def rotate_token_def retry_token_def revoke_row_def)
  then have "snID ` set (update_where (\<lambda>x. snID x = snID r) f (adSessions db)) = snID ` set (adSessions db)"
    by (rule keys_update_where)
  with inv changed(5,6) show ?thesis by (auto simp: app_inv_def)
qed simp_all

lemma SetPushToken_inv: "app_inv db \<Longrightarrow> app_inv (snd (SetPushToken i tok e db))"
proof -
  assume inv: "app_inv db"
  define rows where "rows = delete_where (\<lambda>p. ptDeviceToken p = tok \<and> ptSessionID p \<noteq> i) (adPushTokens db)"
  define row where "row = \<lparr>ptSessionID = i, ptDeviceToken = tok, ptEnvironment = e\<rparr>"
  have d: "distinct (map ptSessionID rows)" "distinct (map ptDeviceToken rows)"
    and s: "set rows = {p \<in> set (adPushTokens db). \<not> (ptDeviceToken p = tok \<and> ptSessionID p \<noteq> i)}"
    using inv by (simp_all add: app_inv_def rows_def distinct_delete_where set_delete_where)
  have upd: "distinct (map ptDeviceToken (update_where (\<lambda>p. ptSessionID p = i) (\<lambda>_. row) rows))"
    using d s by (intro distinct_update_unique) (auto simp: row_def)
  show ?thesis
  proof (cases "lookup snID i (adSessions db) = None \<or> e \<notin> set push_environments")
    case True
    then show ?thesis using inv by (auto simp: SetPushToken_def)
  next
    case False
    then have i: "i \<in> snID ` set (adSessions db)" "e \<in> set push_environments" by (auto simp: lookup_None)
    define rows' where "rows' = (if lookup ptSessionID i rows = None then rows @ [row]
      else update_where (\<lambda>p. ptSessionID p = i) (\<lambda>_. row) rows)"
    have R: "snd (SetPushToken i tok e db) = db\<lparr>adPushTokens := rows'\<rparr>"
      unfolding SetPushToken_def rows'_def rows_def [symmetric] row_def [symmetric] Let_def using False by auto
    have "distinct (map ptSessionID rows')"
      using d(1) map_update_where [of rows "\<lambda>p. ptSessionID p = i" ptSessionID "\<lambda>_. row"]
      by (auto simp: rows'_def lookup_None row_def)
    moreover have "distinct (map ptDeviceToken rows')"
      using d upd s by (auto simp: rows'_def lookup_None row_def)
    moreover have "set rows' \<subseteq> insert row (set (adPushTokens db))"
      using s by (auto simp: rows'_def set_update_where)
    ultimately show ?thesis using R inv i by (auto simp: app_inv_def row_def)
  qed
qed

lemma run_op_inv: "app_inv db \<Longrightarrow> app_inv (run_op (now, op) db)"
proof (cases op)
  case (OpRefresh h h' ttl grace)
  assume "app_inv db"
  with OpRefresh show ?thesis using Refresh_inv by simp
next
  case (OpSetPushToken i tok e)
  assume "app_inv db"
  with OpSetPushToken show ?thesis using SetPushToken_inv by simp
next
  case (OpPurge keep)
  assume "app_inv db"
  with OpPurge show ?thesis by (auto simp: app_inv_def app_ops distinct_delete_where sessions_ok_delete distinct_map_filter)
next
  case (OpRedeemPairingCode h n)
  assume "app_inv db"
  with OpRedeemPairingCode show ?thesis by (auto simp: app_inv_def app_ops map_update_where split: option.splits)
next
  case (OpCreatePairingCode h t u e)
  assume "app_inv db"
  with OpCreatePairingCode show ?thesis by (auto simp: app_inv_def app_ops lookup_None)
qed (auto simp: app_inv_def app_ops distinct_delete_where set_delete_where sessions_ok_revoke session_ids_revoke)

lemma run_ops_inv: "app_inv db \<Longrightarrow> app_inv (run_ops ops db)"
  by (rule run_ops_keeps [of app_inv db "\<lambda>_. True"]) (simp_all add: run_op_inv list_all_iff)
subsection \<open>How a session changes\<close>

inductive row_step :: "int \<Rightarrow> app_op \<Rightarrow> session_row \<Rightarrow> session_row \<Rightarrow> bool" where
  same: "row_step now op r r"
| rotates: "srRefreshHash r = h \<Longrightarrow> Active now r \<Longrightarrow> row_step now (OpRefresh h h' ttl grace) r (rotate_token now h' ttl r)"
| retries: "srPreviousHash r = Some h \<Longrightarrow> in_grace now grace r \<Longrightarrow> Active now r \<Longrightarrow>
    row_step now (OpRefresh h h' ttl grace) r (retry_token now h' r)"
| revokes: "snRevokedAt r = None \<Longrightarrow> row_step now op r (revoke_row now reason r)"

lemma row_step_id: "row_step now op r0 r \<Longrightarrow> snID r = snID r0"
  by (induction rule: row_step.induct) (simp_all add: rotate_token_def retry_token_def revoke_row_def)

lemma session_unique: "app_inv db \<Longrightarrow> r \<in> set (adSessions db) \<Longrightarrow> r' \<in> set (adSessions db) \<Longrightarrow> snID r = snID r' \<Longrightarrow> r = r'"
  by (auto simp: app_inv_def sessions_ok_def intro: key_unique)

lemma Refresh_row:
  assumes "app_inv db" "r \<in> set (adSessions (snd (Refresh now h h' ttl grace db)))"
  shows "\<exists>r0 \<in> set (adSessions db). row_step now (OpRefresh h h' ttl grace) r0 r"
proof (cases rule: Refresh_cases [of now h h' ttl grace db])
  case (changed q f out)
  with assms(2) have "r \<in> set (update_where (\<lambda>x. snID x = snID q) f (adSessions db))" by auto
  then obtain r0 where r0: "r0 \<in> set (adSessions db)" "r = (if snID r0 = snID q then f r0 else r0)" by (rule in_update_whereE)
  show ?thesis
  proof (cases "r0 = q")
    case True
    with changed r0(2) have "row_step now (OpRefresh h h' ttl grace) q r"
      by (auto simp: refresh_change_def presents_def Active_def intro: row_step.intros)
    with True r0(1) show ?thesis by blast
  next
    case False
    with session_unique [OF assms(1) r0(1) changed(1)] r0 show ?thesis by (auto intro: row_step.same)
  qed
qed (use assms(2) in \<open>auto intro: row_step.same\<close>)

text \<open>Every row of a session comes from its earlier row by such a change, or is the row of a session just paired.\<close>

lemma run_op_row:
  assumes "app_inv db" "r \<in> set (adSessions (run_op (now, op) db))"
  shows "(\<exists>r0 \<in> set (adSessions db). row_step now op r0 r) \<or> (\<exists>h n t u. op = OpRedeemPairingCode h n \<and> r = new_row now t u n)"
proof (cases op)
  case (OpRefresh h h' ttl grace)
  with assms Refresh_row show ?thesis by fastforce
next
  case (OpRedeemPairingCode h n)
  with assms(2) show ?thesis by (auto simp: app_ops split: option.splits if_splits intro: row_step.same)
next
  case (OpSignOut h)
  with assms(2) show ?thesis by (auto simp: app_ops set_update_where intro: row_step.intros)
next
  case (OpRevoke t u i reason)
  with assms(2) show ?thesis by (auto simp: app_ops set_update_where intro: row_step.intros)
qed (use assms(2) in \<open>auto simp: app_ops set_delete_where intro: row_step.same split: if_splits\<close>)

text \<open>A property of rows that the changes keep and new rows have holds in every later database.\<close>

lemma rows_always:
  assumes "app_inv db" "list_all (\<lambda>op. Q (snd op)) ops" "\<forall>r \<in> set (adSessions db). P r"
    and step: "\<And>now op r0 r. Q op \<Longrightarrow> P r0 \<Longrightarrow> row_step now op r0 r \<Longrightarrow> P r"
    and new: "\<And>now h n t u. Q (OpRedeemPairingCode h n) \<Longrightarrow> P (new_row now t u n)"
  shows "\<forall>r \<in> set (adSessions (run_ops ops db)). P r"
proof -
  have "app_inv (run_ops ops db) \<and> (\<forall>r \<in> set (adSessions (run_ops ops db)). P r)"
  proof (rule run_ops_keeps [of "\<lambda>db. app_inv db \<and> (\<forall>r \<in> set (adSessions db). P r)" db Q])
    fix now op db
    assume a: "app_inv db \<and> (\<forall>r \<in> set (adSessions db). P r)" "Q op"
    have "P r" if "r \<in> set (adSessions (run_op (now, op) db))" for r
      using run_op_row [OF _ that] a step new by blast
    with a run_op_inv show "app_inv (run_op (now, op) db) \<and> (\<forall>r \<in> set (adSessions (run_op (now, op) db)). P r)" by blast
  qed (use assms(1,2,3) in auto)
  then show ?thesis ..
qed
subsection \<open>Properties\<close>


definition spent_code :: "bytes \<Rightarrow> app_db \<Rightarrow> bool" where
  "spent_code h db \<longleftrightarrow> (\<forall>c \<in> set (adCodes db). pcCodeHash c = h \<longrightarrow> pcRedeemedAt c \<noteq> None)"

lemma Redeem_spent: "spent_code h db \<Longrightarrow> spent_code h (snd (RedeemPairingCode now h1 n db))"
  unfolding spent_code_def RedeemPairingCode_def Let_def
  by (auto simp: set_update_where split: option.splits)

lemma run_op_spent: "spent_code h db \<Longrightarrow> \<not> creates_code h op \<Longrightarrow> spent_code h (run_op (now, op) db)"
proof (cases op)
  case (OpRedeemPairingCode h1 n)
  assume "spent_code h db"
  with OpRedeemPairingCode Redeem_spent show ?thesis by simp
next
  case (OpRefresh h1 h2 ttl grace)
  assume "spent_code h db"
  then show ?thesis using OpRefresh by (cases rule: Refresh_cases [of now h1 h2 ttl grace db]) (auto simp: spent_code_def)
qed (auto simp: spent_code_def app_ops set_update_where set_delete_where split: option.splits)

text \<open>
  C12.  A pairing code pairs once: redeeming it took an unexpired code that was not redeemed before, the session belongs to the
  tenant and user the code was made for, and whatever happens later the code is not found again at any time.
\<close>

theorem pairing_code_once:
  assumes "app_inv db" "RedeemPairingCode t h n db = (Inr s, db')" "list_all (\<lambda>op. \<not> creates_code h (snd op)) ops"
  shows "(\<exists>c. lookup pcCodeHash h (adCodes db) = Some c \<and> pcRedeemedAt c = None \<and> t < pcExpiresAt c
      \<and> snTenantID s = pcTenantID c \<and> snUserID s = pcUserID c)
    \<and> fst (RedeemPairingCode now h n' (run_ops ops db')) = Inl AppErrNotFound"
proof -
  from assms(2) obtain c where q: "query_row (redeemable t h) (adCodes db) = Some c"
    and s: "s = scanSession (new_row t (pcTenantID c) (pcUserID c) n)"
    and db': "adCodes db' = update_where (redeemable t h) (\<lambda>x. x\<lparr>pcRedeemedAt := Some t, pcSessionID := Some (nsID n)\<rparr>) (adCodes db)"
    by (auto simp: RedeemPairingCode_def Let_def split: option.splits if_splits)
  from query_row_Some [OF q] have c: "c \<in> set (adCodes db)" "redeemable t h c" by auto
  have keys: "distinct (map pcCodeHash (adCodes db))" using assms(1) by (simp add: app_inv_def)
  have "spent_code h db'"
    unfolding spent_code_def db'
  proof (intro ballI impI, erule in_update_whereE)
    fix x x0
    assume x: "pcCodeHash x = h" "x0 \<in> set (adCodes db)"
      "x = (if redeemable t h x0 then x0\<lparr>pcRedeemedAt := Some t, pcSessionID := Some (nsID n)\<rparr> else x0)"
    then have "pcCodeHash x0 = pcCodeHash c" using c(2) by (auto simp: redeemable_def split: if_splits)
    with key_unique [OF keys x(2) c(1)] c(2) x(3) show "pcRedeemedAt x \<noteq> None" by simp
  qed
  then have "spent_code h (run_ops ops db')"
    using assms(3) by (rule run_ops_keeps) (rule run_op_spent)
  then have "query_row (redeemable now h) (adCodes (run_ops ops db')) = None"
    by (auto simp: query_row_None spent_code_def redeemable_def)
  with c s lookup_unique [OF keys c(1)] show ?thesis
    by (auto simp: RedeemPairingCode_def redeemable_def scanSession_def new_row_def Session.defs)
qed
text \<open>A user pairs a phone with a code that lasts a minute.\<close>

definition sample_session :: NewSession where
  "sample_session = \<lparr>nsID = ''s1'', nsDeviceName = ''phone'', nsDeviceModel = ''iPhone'', nsRefreshHash = ''H1'', nsRefreshExpiresAt = 1000000000\<rparr>"

definition paired_db :: app_db where
  "paired_db = run_ops [(0, OpCreatePairingCode ''C1'' ''acme'' ''ann'' 60000000), (1, OpRedeemPairingCode ''C1'' sample_session)] empty_app_db"

lemmas app_eval = run_ops_def empty_app_db_def app_ops Refresh_def update_session_def Let_def sample_session_def redeemable_def
  new_row_def scanSession_def Session.defs sessions_ok_def previous_hashes_def map_filter_simps presents_def rotate_token_def
  retry_token_def revoke_row_def in_grace_def returning_def affected_def delete_where_def app_inv_def

lemma run_ops_simps: "run_ops [] db = db" "run_ops (op # ops) db = run_ops ops (run_op op db)"
  by (simp_all add: run_ops_def)

lemma paired_db_eq: "paired_db = \<lparr>adCodes = [\<lparr>pcCodeHash = ''C1'', pcTenantID = ''acme'', pcUserID = ''ann'', pcExpiresAt = 60000000,
      pcRedeemedAt = Some 1, pcSessionID = Some ''s1''\<rparr>],
    adSessions = [\<lparr>snID = ''s1'', snTenantID = ''acme'', snUserID = ''ann'', snDeviceName = ''phone'', snDeviceModel = ''iPhone'',
      snRefreshExpiresAt = 1000000000, snCreatedAt = 1, snLastUsedAt = 1, snRevokedAt = None, srRefreshHash = ''H1'',
      srPreviousHash = None, srRotatedAt = None, srRevokeReason = None\<rparr>],
    adPushTokens = []\<rparr>"
  by (simp add: paired_db_def app_eval)

lemma paired_db_inv: "app_inv paired_db"
  by (simp add: paired_db_eq app_eval)

theorem pairing_code_once_witness:
  "\<exists>db s db'. app_inv db \<and> RedeemPairingCode 1 ''C1'' sample_session db = (Inr s, db')
    \<and> fst (RedeemPairingCode 2 ''C1'' sample_session (run_ops [(1, OpRevoke ''acme'' ''ann'' ''s1'' ReasonRevoked)] db')) = Inl AppErrNotFound"
proof -
  let ?db = "run_ops [(0, OpCreatePairingCode ''C1'' ''acme'' ''ann'' 60000000)] empty_app_db"
  have inv: "app_inv ?db" by (simp add: app_eval)
  obtain s db' where r: "RedeemPairingCode 1 ''C1'' sample_session ?db = (Inr s, db')" by (simp add: app_eval)
  show ?thesis
    using inv r pairing_code_once [OF inv r, of "[(1, OpRevoke ''acme'' ''ann'' ''s1'' ReasonRevoked)]" 2 sample_session] by auto
qed

definition exchanged :: "bytes \<Rightarrow> string \<Rightarrow> int \<Rightarrow> session_row \<Rightarrow> bool" where
  "exchanged h i t r \<longleftrightarrow> srRefreshHash r \<noteq> h \<and> (srPreviousHash r = Some h \<longrightarrow> snID r = i \<and> srRotatedAt r = Some t)"

lemma exchanged_step: "row_step now op r0 r \<Longrightarrow> \<not> issues_hash h op \<Longrightarrow> exchanged h i t r0 \<Longrightarrow> exchanged h i t r"
  by (induction rule: row_step.induct) (auto simp: exchanged_def rotate_token_def retry_token_def revoke_row_def)

lemma rotated_exchanged:
  assumes "app_inv db" "Refresh t h h' ttl grace db = (Inr (s, Rotated), db')" "h' \<noteq> h"
  shows "\<forall>r \<in> set (adSessions db'). exchanged h (snID s) t r"
proof (cases rule: Refresh_cases [of t h h' ttl grace db])
  case (changed q f out)
  then have f: "f = rotate_token t h' ttl" "srRefreshHash q = h" and i: "snID s = snID q"
    and rows: "adSessions db' = update_where (\<lambda>x. snID x = snID q) f (adSessions db)"
    using assms(2) by (auto simp: refresh_change_def)
  have ok: "sessions_ok (adSessions db')" using changed(5) rows by simp
  have q': "f q \<in> set (adSessions db')" using changed(1) by (auto simp: rows set_update_where)
  have prev: "x = y" if "x \<in> set (adSessions db')" "y \<in> set (adSessions db')" "srPreviousHash x = Some p" "srPreviousHash y = Some p" for x y p
    using ok that unfolding sessions_ok_def previous_hashes_def by (meson distinct_map_filter_eq)
  show ?thesis
  proof
    fix r assume r: "r \<in> set (adSessions db')"
    then obtain r0 where r0: "r0 \<in> set (adSessions db)" "r = (if snID r0 = snID q then f r0 else r0)"
      unfolding rows by (rule in_update_whereE)
    have "srRefreshHash r \<noteq> h"
    proof (cases "snID r0 = snID q")
      case True
      with r0 assms(3) f show ?thesis by (simp add: rotate_token_def)
    next
      case False
      with r0 changed(1) f(2) assms(1) show ?thesis
        by (auto simp: app_inv_def sessions_ok_def dest: key_unique [of srRefreshHash])
    qed
    moreover have "r = f q" if "srPreviousHash r = Some h"
      using prev [OF r q' that] f by (simp add: rotate_token_def)
    ultimately show "exchanged h (snID s) t r" using f i by (auto simp: exchanged_def rotate_token_def)
  qed
qed (use assms(2) in auto)
text \<open>
  C5.  A refresh token is good for one exchange and its retries within the grace period.  Once a token was rotated and the
  grace period is over, presenting it never yields a token again, whatever happened in between: the database does not know it,
  or the session it belonged to is ended on the spot.  (The token is not issued again: tokens are 256 random bits.)
\<close>

theorem token_exchanged_once:
  assumes "app_inv db" "Refresh t h h' ttl grace db = (Inr (s, Rotated), db')" "h' \<noteq> h"
    and "list_all (\<lambda>op. \<not> issues_hash h (snd op)) ops" "t + grace \<le> now"
  shows "fst (Refresh now h h'' ttl grace (run_ops ops db')) = Inl AppErrNotFound
    \<or> (\<exists>s'. fst (Refresh now h h'' ttl grace (run_ops ops db')) = Inr (s', Reused) \<and> snID s' = snID s \<and>
         (\<forall>r \<in> set (adSessions (snd (Refresh now h h'' ttl grace (run_ops ops db')))). snID r = snID s \<longrightarrow> snRevokedAt r = Some now))"
proof -
  let ?db = "run_ops ops db'"
  have inv': "app_inv db'" using Refresh_inv [OF assms(1), of t h h' ttl grace] assms(2) by simp
  have "\<forall>r \<in> set (adSessions ?db). exchanged h (snID s) t r"
    using inv' assms(4) rotated_exchanged [OF assms(1,2,3)]
    by (rule rows_always) (use exchanged_step in blast, simp add: exchanged_def new_row_def)
  then have ex: "exchanged h (snID s) t r" if "r \<in> set (adSessions ?db)" for r using that by blast
  have ok: "sessions_ok (adSessions ?db)" using run_ops_inv [OF inv'] by (simp add: app_inv_def)
  have late: "out = Reused \<and> snID q = snID s \<and> f = revoke_row now ReasonReused"
    if "q \<in> set (adSessions ?db)" "presents h q" "refresh_change now h h'' ttl grace q f out" for q f out
    using ex [OF that(1)] that(2,3) assms(5) by (auto simp: exchanged_def presents_def in_grace_def refresh_change_def)
  show ?thesis
  proof (cases rule: Refresh_cases [of now h h'' ttl grace ?db])
    case (refused q f out)
    with late [OF refused(1,2,4)] ok show ?thesis by (simp add: sessions_ok_revoke)
  next
    case (changed q f out)
    with late [OF changed(1,2,4)] show ?thesis by (auto simp: set_update_where revoke_row_def)
  qed simp
qed

theorem token_exchanged_once_witness:
  "\<exists>db'. Refresh 5 ''H1'' ''H2'' 1000 60 paired_db = (Inr (scanSession (hd (adSessions db')), Rotated), db')
    \<and> fst (Refresh 70 ''H1'' ''H4'' 1000 60 (run_ops [(20, OpRefresh ''H1'' ''H3'' 1000 60)] db')) \<noteq> Inl AppErrNotFound
    \<and> (fst (Refresh 70 ''H1'' ''H4'' 1000 60 (run_ops [(20, OpRefresh ''H1'' ''H3'' 1000 60)] db')) = Inl AppErrNotFound
       \<or> (\<exists>s'. fst (Refresh 70 ''H1'' ''H4'' 1000 60 (run_ops [(20, OpRefresh ''H1'' ''H3'' 1000 60)] db')) = Inr (s', Reused) \<and> snID s' = ''s1''))"
proof -
  let ?db = "snd (Refresh 5 ''H1'' ''H2'' 1000 60 paired_db)"
  let ?s = "scanSession (hd (adSessions ?db))"
  have r: "Refresh 5 ''H1'' ''H2'' 1000 60 paired_db = (Inr (?s, Rotated), ?db)"
    by (simp add: paired_db_eq app_eval)
  have i: "snID ?s = ''s1''" by (simp add: paired_db_eq app_eval)
  have n: "fst (Refresh 70 ''H1'' ''H4'' 1000 60 (run_ops [(20, OpRefresh ''H1'' ''H3'' 1000 60)] ?db)) \<noteq> Inl AppErrNotFound"
    by (simp add: paired_db_eq app_eval)
  show ?thesis
    using r n i token_exchanged_once [OF paired_db_inv r, of "[(20, OpRefresh ''H1'' ''H3'' 1000 60)]" 70 "''H4''"] by auto
qed

lemma revoked_rows:
  assumes "app_inv db" "x \<in> set (adSessions db)" "P x" "r \<in> set (update_where P (revoke_row t reason) (adSessions db))" "snID r = snID x"
  shows "snRevokedAt r = Some t"
proof -
  from assms(4) obtain r0 where r0: "r0 \<in> set (adSessions db)" "r = (if P r0 then revoke_row t reason r0 else r0)"
    by (rule in_update_whereE)
  with assms(5) have "snID r0 = snID x" by (auto simp: revoke_row_def split: if_splits)
  with session_unique [OF assms(1) r0(1) assms(2)] r0(2) assms(3) show ?thesis by (simp add: revoke_row_def)
qed

lemma Revoke_ends:
  assumes "app_inv db" "fst (Revoke t tenant user i reason db)" "r \<in> set (adSessions (snd (Revoke t tenant user i reason db)))" "snID r = i"
  shows "snRevokedAt r = Some t"
proof -
  let ?P = "\<lambda>r. snID r = i \<and> snTenantID r = tenant \<and> snUserID r = user \<and> snRevokedAt r = None"
  from assms(2) obtain x where "filter ?P (adSessions db) = [x]" by (auto simp: Revoke_def affected_def Let_def length_Suc_conv)
  then have "x \<in> set (filter ?P (adSessions db))" by simp
  with revoked_rows [OF assms(1), of x ?P r] assms(3,4) show ?thesis by (simp add: Revoke_def Let_def)
qed

lemma SignOut_ends:
  assumes "app_inv db" "SignOut t h db = (Some s, db')" "r \<in> set (adSessions db')" "snID r = snID s"
  shows "snRevokedAt r = Some t"
proof -
  let ?P = "\<lambda>r. presents h r \<and> snRevokedAt r = None"
  from assms(2) obtain x xs where x: "filter ?P (adSessions db) = x # xs" "s = scanSession (revoke_row t ReasonSignedOut x)"
    and db': "adSessions db' = update_where ?P (revoke_row t ReasonSignedOut) (adSessions db)"
    by (auto simp: SignOut_def Let_def returning_def split: list.splits)
  from x(1) have "x \<in> set (filter ?P (adSessions db))" by simp
  with revoked_rows [OF assms(1), of x ?P r] assms(3,4) x(2) db' show ?thesis
    by (simp add: scanSession_def Session.defs revoke_row_def)
qed

lemma Reused_ends:
  assumes "app_inv db" "Refresh t h h' ttl grace db = (Inr (s, Reused), db')" "r \<in> set (adSessions db')" "snID r = snID s"
  shows "snRevokedAt r = Some t"
proof (cases rule: Refresh_cases [of t h h' ttl grace db])
  case (changed q f out)
  with assms revoked_rows [OF assms(1) changed(1), of "\<lambda>x. snID x = snID q" r t ReasonReused] show ?thesis
    by (auto simp: refresh_change_def)
qed (use assms(2) in auto)

text \<open>The three ways a session ends before its time, and what they leave behind.\<close>

definition ends_session :: "int \<Rightarrow> string \<Rightarrow> app_db \<Rightarrow> app_db \<Rightarrow> bool" where
  "ends_session t i db db' \<longleftrightarrow>
     (\<exists>tenant user reason. fst (Revoke t tenant user i reason db) \<and> db' = snd (Revoke t tenant user i reason db))
     \<or> (\<exists>h s. SignOut t h db = (Some s, db') \<and> snID s = i)
     \<or> (\<exists>h h' ttl grace s. Refresh t h h' ttl grace db = (Inr (s, Reused), db') \<and> snID s = i)"

lemma ended_rows:
  assumes "app_inv db" "list_all (\<lambda>op. \<not> creates_session i (snd op)) ops" "ends_session t i db db'"
  shows "\<forall>r \<in> set (adSessions (run_ops ops db')). snID r = i \<longrightarrow> snRevokedAt r \<noteq> None"
proof -
  have ended: "\<forall>r \<in> set (adSessions db'). snID r = i \<longrightarrow> snRevokedAt r \<noteq> None"
    using assms(3) Revoke_ends [OF assms(1)] SignOut_ends [OF assms(1)] Reused_ends [OF assms(1)]
    unfolding ends_session_def by fastforce
  have "\<exists>op. db' = run_op (t, op) db"
    using assms(3) unfolding ends_session_def by (metis run_op.simps(3,4,5) snd_conv)
  then have inv': "app_inv db'" using run_op_inv [OF assms(1)] by blast
  show ?thesis
  proof (rule rows_always [OF inv' assms(2) ended])
    show "snID r = i \<longrightarrow> snRevokedAt r \<noteq> None" if "snID r0 = i \<longrightarrow> snRevokedAt r0 \<noteq> None" "row_step now op r0 r" for now op r0 r
      using that(2,1) by (induction rule: row_step.induct) (auto simp: rotate_token_def retry_token_def revoke_row_def)
  qed (simp add: new_row_def)
qed

text \<open>
  C11.  An ended session stays ended.  After a session was revoked, signed out or ended because of a reused token, no later
  operation makes it active again, gives it a token or returns its push token, at any time.
\<close>

theorem ended_session_stays_ended:
  assumes "app_inv db" "list_all (\<lambda>op. \<not> creates_session i (snd op)) ops" "ends_session t i db db'"
  shows "(case Session_by_id i (run_ops ops db') of Inl e \<Rightarrow> e = AppErrNotFound | Inr s \<Rightarrow> \<not> Active now s)
    \<and> (case fst (Refresh now presented nxt ttl' grace' (run_ops ops db')) of Inl _ \<Rightarrow> True | Inr (s, _) \<Rightarrow> snID s \<noteq> i)
    \<and> i \<notin> ptSessionID ` set (PushTokens now tenant' user' (run_ops ops db'))"
proof -
  note all = ended_rows [OF assms]
  have "case Session_by_id i (run_ops ops db') of Inl e \<Rightarrow> e = AppErrNotFound | Inr s \<Rightarrow> \<not> Active now s"
    using all by (auto simp: Session_by_id_def Active_def scanSession_def Session.defs split: option.splits dest: lookup_Some)
  moreover have "case fst (Refresh now presented nxt ttl' grace' (run_ops ops db')) of Inl _ \<Rightarrow> True | Inr (s, _) \<Rightarrow> snID s \<noteq> i"
  proof (cases rule: Refresh_cases [of now presented nxt ttl' grace' "run_ops ops db'"])
    case (changed q f out)
    with all have "snID q \<noteq> i" by (auto simp: Active_def)
    with changed(6) show ?thesis by auto
  qed simp_all
  moreover have "i \<notin> ptSessionID ` set (PushTokens now tenant' user' (run_ops ops db'))"
    using all by (auto simp: PushTokens_def list_ex_iff)
  ultimately show ?thesis by blast
qed
definition sample_ended :: "app_db \<Rightarrow> bool" where
  "sample_ended db \<longleftrightarrow> (case Session_by_id ''s1'' db of Inl e \<Rightarrow> e = AppErrNotFound | Inr s \<Rightarrow> \<not> Active 8 s)
    \<and> (case fst (Refresh 8 ''H2'' ''H3'' 1000 60 db) of Inl _ \<Rightarrow> True | Inr (s, _) \<Rightarrow> snID s \<noteq> ''s1'')
    \<and> ''s1'' \<notin> ptSessionID ` set (PushTokens 8 ''acme'' ''ann'' db)"

theorem ended_session_stays_ended_witness:
  "fst (Revoke 5 ''acme'' ''ann'' ''s1'' ReasonRevoked paired_db)
    \<and> sample_ended (run_ops [(6, OpRefresh ''H1'' ''H2'' 1000 60), (7, OpSetPushToken ''s1'' ''ab'' ''sandbox'')]
        (snd (Revoke 5 ''acme'' ''ann'' ''s1'' ReasonRevoked paired_db)))"
proof -
  have r: "fst (Revoke 5 ''acme'' ''ann'' ''s1'' ReasonRevoked paired_db)" by (simp add: paired_db_eq app_eval)
  then have e: "ends_session 5 ''s1'' paired_db (snd (Revoke 5 ''acme'' ''ann'' ''s1'' ReasonRevoked paired_db))"
    unfolding ends_session_def by blast
  show ?thesis
    using r ended_session_stays_ended [OF paired_db_inv _ e, of "[(6, OpRefresh ''H1'' ''H2'' 1000 60), (7, OpSetPushToken ''s1'' ''ab'' ''sandbox'')]"]
    by (simp add: sample_ended_def)
qed

end
