(* ===== verification/AppLimiter.thy ===== *)
theory AppLimiter
  imports Complex_Main Prelude
begin

text \<open>
  The limiter of anonymous calls, after \<^verbatim>\<open>services/app-api/internal/ratelimit/ratelimit.go\<close>: a token bucket per client
  address.  Times are nanoseconds; the \<^verbatim>\<open>float64\<close> token counts are rational numbers here, without rounding.  The map of buckets is an
  association list with one entry per address.
\<close>

record bucket =
  bkTokens :: rat
  bkLast :: int

record limiter =
  lmBuckets :: "(string \<times> bucket) list"
  lmBurst :: rat
  lmPerSecond :: rat

definition maxAddresses :: nat where "maxAddresses = 100000"

definition Seconds :: "int \<Rightarrow> rat" where
  "Seconds d = of_int d / 1000000000"

definition NewLimiter :: "int \<Rightarrow> rat \<Rightarrow> limiter" where
  "NewLimiter burst perMinute = \<lparr>lmBuckets = [], lmBurst = of_int burst, lmPerSecond = perMinute / 60\<rparr>"

definition sweep :: "int \<Rightarrow> limiter \<Rightarrow> limiter" where
  "sweep now l =
     (let kept = filter (\<lambda>(_, b). \<not> bkTokens b + Seconds (now - bkLast b) * lmPerSecond l \<ge> lmBurst l) (lmBuckets l) in
      l\<lparr>lmBuckets := if length kept \<ge> maxAddresses then [] else kept\<rparr>)"

definition set_bucket :: "string \<Rightarrow> bucket \<Rightarrow> limiter \<Rightarrow> limiter" where
  "set_bucket address b l = l\<lparr>lmBuckets :=
     (if map_of (lmBuckets l) address = None then lmBuckets l @ [(address, b)]
      else map (\<lambda>(a, b'). if a = address then (a, b) else (a, b')) (lmBuckets l))\<rparr>"

definition ensure_bucket :: "int \<Rightarrow> string \<Rightarrow> limiter \<Rightarrow> limiter" where
  "ensure_bucket now address l = (case map_of (lmBuckets l) address of
     Some _ \<Rightarrow> l
   | None \<Rightarrow> set_bucket address \<lparr>bkTokens = lmBurst l, bkLast = now\<rparr>
       (if length (lmBuckets l) \<ge> maxAddresses then sweep now l else l))"

definition Allow :: "int \<Rightarrow> string \<Rightarrow> limiter \<Rightarrow> bool \<times> limiter" where
  "Allow now address l0 =
     (let l = ensure_bucket now address l0; b = the (map_of (lmBuckets l) address);
          tokens = min (lmBurst l) (bkTokens b + Seconds (now - bkLast b) * lmPerSecond l)
      in if tokens < 1 then (False, set_bucket address \<lparr>bkTokens = tokens, bkLast = now\<rparr> l)
         else (True, set_bucket address \<lparr>bkTokens = tokens - 1, bkLast = now\<rparr> l))"

text \<open>A sequence of requests (time and address), with the answers.\<close>

fun Allow_all :: "(int \<times> string) list \<Rightarrow> limiter \<Rightarrow> (string \<times> bool) list \<times> limiter" where
  "Allow_all [] l = ([], l)"
| "Allow_all ((now, a) # reqs) l =
     (case Allow now a l of (ok, l1) \<Rightarrow> (case Allow_all reqs l1 of (oks, l2) \<Rightarrow> ((a, ok) # oks, l2)))"

definition allowed_of :: "string \<Rightarrow> (string \<times> bool) list \<Rightarrow> nat" where
  "allowed_of a answers = length (filter (\<lambda>p. p = (a, True)) answers)"

subsection \<open>The tokens of an address\<close>

definition available :: "int \<Rightarrow> string \<Rightarrow> limiter \<Rightarrow> rat" where
  "available now a l = (case map_of (lmBuckets l) a of
     None \<Rightarrow> lmBurst l
   | Some b \<Rightarrow> min (lmBurst l) (bkTokens b + Seconds (now - bkLast b) * lmPerSecond l))"

lemma map_of_set_bucket: "map_of (lmBuckets (set_bucket a b l)) = (map_of (lmBuckets l))(a \<mapsto> b)"
proof -
  have "map_of (map (\<lambda>(a', b'). if a' = a then (a', b) else (a', b')) bs) x =
      (if x = a then map_option (\<lambda>_. b) (map_of bs a) else map_of bs x)" for bs x
    by (induction bs) auto
  then show ?thesis by (auto simp: set_bucket_def map_of_append map_add_def fun_eq_iff split: option.splits)
qed

lemma set_bucket_simps [simp]: "lmBurst (set_bucket a b l) = lmBurst l" "lmPerSecond (set_bucket a b l) = lmPerSecond l"
  by (simp_all add: set_bucket_def)

lemma keys_set_bucket: "fst ` set (lmBuckets (set_bucket a b l)) = insert a (fst ` set (lmBuckets l))"
  using map_of_set_bucket [of a b l] by (metis dom_fun_upd dom_map_of_conv_image_fst option.distinct(1))

lemma distinct_set_bucket: "distinct (map fst (lmBuckets l)) \<Longrightarrow> distinct (map fst (lmBuckets (set_bucket a b l)))"
proof -
  assume d: "distinct (map fst (lmBuckets l))"
  have m: "map fst (map (\<lambda>(a', b'). if a' = a then (a', b) else (a', b')) bs) = map fst bs" for bs by (induction bs) auto
  from d show ?thesis by (simp add: set_bucket_def m map_of_eq_None_iff del: map_map)
qed

text \<open>As long as there is room, a request makes no other change than to its own bucket.\<close>

definition roomy :: "string set \<Rightarrow> limiter \<Rightarrow> bool" where
  "roomy A l \<longleftrightarrow> distinct (map fst (lmBuckets l)) \<and> fst ` set (lmBuckets l) \<subseteq> A \<and> finite A \<and> card A \<le> maxAddresses"

lemma Allow_roomy:
  assumes "roomy A l" "a \<in> A"
  shows "fst (Allow now a l) = (available now a l \<ge> 1)" "roomy A (snd (Allow now a l))"
    "lmBurst (snd (Allow now a l)) = lmBurst l" "lmPerSecond (snd (Allow now a l)) = lmPerSecond l"
    "available now a (snd (Allow now a l)) = (if available now a l \<ge> 1 then available now a l - 1 else available now a l)"
    "x \<noteq> a \<Longrightarrow> available t x (snd (Allow now a l)) = available t x l"
proof -
  have e: "ensure_bucket now a l = (case map_of (lmBuckets l) a of Some _ \<Rightarrow> l | None \<Rightarrow> set_bucket a \<lparr>bkTokens = lmBurst l, bkLast = now\<rparr> l)"
  proof (cases "map_of (lmBuckets l) a")
    case None
    then have "a \<notin> fst ` set (lmBuckets l)" by (simp add: map_of_eq_None_iff)
    with assms have "card (fst ` set (lmBuckets l)) < card A"
      unfolding roomy_def by (intro psubset_card_mono) auto
    moreover have "card (fst ` set (lmBuckets l)) = length (lmBuckets l)"
      using assms(1) unfolding roomy_def by (metis distinct_card length_map list.set_map)
    ultimately have "length (lmBuckets l) < maxAddresses" using assms(1) by (simp add: roomy_def)
    with None show ?thesis by (simp add: ensure_bucket_def)
  qed (simp add: ensure_bucket_def)
  have t: "min (lmBurst l) (bkTokens b + Seconds (now - bkLast b) * lmPerSecond l) = available now a l"
    if "the (map_of (lmBuckets (ensure_bucket now a l)) a) = b" for b
    using that by (auto simp: e available_def map_of_set_bucket Seconds_def split: option.splits)
  have s: "lmBurst (ensure_bucket now a l) = lmBurst l" "lmPerSecond (ensure_bucket now a l) = lmPerSecond l"
    by (simp_all add: e split: option.splits)
  have A: "Allow now a l = (available now a l \<ge> 1, set_bucket a \<lparr>bkTokens = (if available now a l \<ge> 1 then available now a l - 1
      else available now a l), bkLast = now\<rparr> (ensure_bucket now a l))"
    unfolding Allow_def Let_def s t [OF refl] by auto
  show "fst (Allow now a l) = (available now a l \<ge> 1)" by (simp add: A)
  show "lmBurst (snd (Allow now a l)) = lmBurst l" "lmPerSecond (snd (Allow now a l)) = lmPerSecond l" by (simp_all add: A s)
  have "available now a l \<le> lmBurst l" by (auto simp: available_def split: option.splits)
  then show "available now a (snd (Allow now a l)) = (if available now a l \<ge> 1 then available now a l - 1 else available now a l)"
    by (simp add: A available_def [of now a "set_bucket _ _ _"] map_of_set_bucket s Seconds_def)
  show "available t x (snd (Allow now a l)) = available t x l" if "x \<noteq> a"
    using that by (simp add: A available_def map_of_set_bucket s) (simp add: e map_of_set_bucket split: option.splits)
  have "roomy A (ensure_bucket now a l)"
    using assms by (auto simp: e roomy_def distinct_set_bucket keys_set_bucket split: option.splits)
  then show "roomy A (snd (Allow now a l))" using assms(2) by (simp add: A roomy_def distinct_set_bucket keys_set_bucket)
qed
lemma available_later:
  assumes "0 \<le> lmPerSecond l" "t \<le> t'"
  shows "available t' a l \<le> available t a l + Seconds (t' - t) * lmPerSecond l"
proof (cases "map_of (lmBuckets l) a")
  case None
  have "0 \<le> Seconds (t' - t) * lmPerSecond l" using assms by (simp add: Seconds_def)
  with None show ?thesis by (simp add: available_def)
next
  case (Some b)
  have "Seconds (t' - bkLast b) = Seconds (t - bkLast b) + Seconds (t' - t)" by (simp add: Seconds_def diff_divide_distrib)
  moreover have "0 \<le> Seconds (t' - t) * lmPerSecond l" using assms by (simp add: Seconds_def)
  ultimately show ?thesis using Some by (simp add: available_def distrib_right min_def)
qed

lemma allowed_of_Cons: "allowed_of a ((b, ok) # answers) = (if b = a \<and> ok then Suc (allowed_of a answers) else allowed_of a answers)"
  by (auto simp: allowed_of_def)

lemma allowed_bound:
  assumes "roomy A l" "snd ` set reqs \<subseteq> A" "sorted (t0 # map fst reqs)" "\<forall>r \<in> set reqs. fst r \<le> t1" "0 \<le> lmPerSecond l"
  shows "allowed_of a (fst (Allow_all reqs l)) = 0
    \<or> of_nat (allowed_of a (fst (Allow_all reqs l))) \<le> available t0 a l + Seconds (t1 - t0) * lmPerSecond l"
  using assms
proof (induction reqs arbitrary: l t0)
  case Nil
  then show ?case by (simp add: allowed_of_def)
next
  case (Cons r reqs)
  obtain now b where r: "r = (now, b)" by (cases r)
  obtain ok l1 where A: "Allow now b l = (ok, l1)" by (cases "Allow now b l")
  from Cons.prems r have b: "b \<in> A" and t: "t0 \<le> now" "now \<le> t1" by auto
  note R = Allow_roomy [OF Cons.prems(1) b, where now = now, unfolded A fst_conv snd_conv]
  let ?n = "allowed_of a (fst (Allow_all reqs l1))"
  have IH: "?n = 0 \<or> of_nat ?n \<le> available now a l1 + Seconds (t1 - now) * lmPerSecond l"
    using Cons.IH [of l1 now] Cons.prems r R(2,4) by auto
  have later: "available now a l \<le> available t0 a l + Seconds (now - t0) * lmPerSecond l"
    using available_later [OF Cons.prems(5) t(1)] .
  have split: "Seconds (t1 - t0) * lmPerSecond l = Seconds (now - t0) * lmPerSecond l + Seconds (t1 - now) * lmPerSecond l"
    by (simp add: Seconds_def field_simps)
  have pos: "0 \<le> Seconds (t1 - now) * lmPerSecond l" using Cons.prems(5) t(2) by (simp add: Seconds_def)
  have n: "allowed_of a (fst (Allow_all (r # reqs) l)) = (if b = a \<and> ok then Suc ?n else ?n)"
    by (simp add: r A allowed_of_Cons split: prod.splits)
  show ?case
  proof (cases "b = a \<and> ok")
    case True
    with R(1,5) have "1 \<le> available now a l" "available now a l1 = available now a l - 1" by auto
    with IH later split pos n True show ?thesis by auto
  next
    case False
    with R(1,5,6) have "available now a l1 = available now a l" by (cases "b = a") auto
    with IH later split n False show ?thesis by auto
  qed
qed



end
