(* ===== verification/AppApi.thy ===== *)
theory AppApi
  imports UserToken AppSecret AppSessions AppLimiter OrchApi
begin

text \<open>
  The app API's public side, after \<^verbatim>\<open>services/app-api/internal/api\<close> (\<^verbatim>\<open>service.go\<close>, \<^verbatim>\<open>tokens.go\<close>, \<^verbatim>\<open>errors.go\<close>,
  \<^verbatim>\<open>interceptors.go\<close>).  A handler is a program in the state monad over \<open>app_world\<close>: the app API's database, its limiter, the
  orchestrator behind it (the \<open>world\<close> of its engine, driven through the handlers of \<^theory_text>\<open>OrchServer\<close>), the requests sent to it and the
  audit events recorded.

  \<open>app_env\<close> holds what the handlers do not compute: the clock, new UUIDs, random bytes, what other requests do to the database before each
  statement, which statements fail, and which calls of the orchestrator do not arrive or lose their answer.  Times are microseconds.
  Logging and metrics are left out.
\<close>

datatype orch_link = LinkWorks | LinkFails code | LinkLosesAnswer code

record minter =
  miAccess :: issuer
  miVoice :: issuer
  miVerifier :: verifier
  miTTL :: int

record app_env =
  avClock :: "nat \<Rightarrow> int"
  avUUID :: "nat \<Rightarrow> string"
  avRandom :: "nat \<Rightarrow> random"
  avFault :: "nat \<Rightarrow> fault"
  avOthers :: "nat \<Rightarrow> app_db \<Rightarrow> app_db"
  avLink :: "nat \<Rightarrow> orch_link"
  avSha :: "bytes \<Rightarrow> bytes"
  avParseUUID :: "string \<Rightarrow> string option"
  avSign :: "nat \<Rightarrow> issuer \<Rightarrow> claims \<Rightarrow> string option"
  avJwt :: "nat \<Rightarrow> jwt_parser"
  avMinter :: minter
  avVoiceURL :: string
  avRefreshTTL :: int
  avOrchestrator :: service

record app_world =
  apDb :: app_db
  apLimiter :: limiter
  apOrch :: world
  apSent :: "request list"
  apAudit :: "audit_record list"
  apTick :: nat

type_synonym 'a app = "(app_world, 'a) state"

abbreviation ret_app :: "'a \<Rightarrow> 'a app" where "ret_app \<equiv> State_Monad.return"

subsection \<open>Primitive steps\<close>

definition app_tick :: "nat app" where
  "app_tick = State (\<lambda>w. (apTick w, w\<lparr>apTick := Suc (apTick w)\<rparr>))"

definition app_now :: "app_env \<Rightarrow> int app" where
  "app_now env = do {k \<leftarrow> app_tick; ret_app (avClock env k)}"

definition app_uuid :: "app_env \<Rightarrow> string app" where
  "app_uuid env = do {k \<leftarrow> app_tick; ret_app (avUUID env k)}"

definition app_random :: "app_env \<Rightarrow> random app" where
  "app_random env = do {k \<leftarrow> app_tick; ret_app (avRandom env k)}"

definition app_sql :: "app_env \<Rightarrow> (int \<Rightarrow> app_db \<Rightarrow> (app_error, 'a) result \<times> app_db) \<Rightarrow> (app_error, 'a) result app" where
  "app_sql env f = State (\<lambda>w.
     let k = apTick w; db = avOthers env k (apDb w); w1 = w\<lparr>apTick := Suc k, apDb := db\<rparr>; (r, db') = f (avClock env k) db
     in case avFault env k of
          Works \<Rightarrow> (r, w1\<lparr>apDb := db'\<rparr>)
        | Fails \<Rightarrow> (Inl AppErrUnavailable, w1)
        | AnswerLost \<Rightarrow> (Inl AppErrUnavailable, w1\<lparr>apDb := db'\<rparr>))"

definition app_audit :: "audit_record \<Rightarrow> unit app" where
  "app_audit a = State (\<lambda>w. ((), w\<lparr>apAudit := apAudit w @ [a]\<rparr>))"

text \<open>A call of the orchestrator, with the caller's request id; \<open>m\<close> is what its handler does with the request.\<close>

definition link_error :: "code \<Rightarrow> api_error" where
  "link_error c = \<lparr>aeCode = c, aeMessage = [], aeReason = []\<rparr>"

definition orch_call :: "app_env \<Rightarrow> string \<Rightarrow> request \<Rightarrow> (service \<Rightarrow> (api_error, 'a) result eng) \<Rightarrow> (api_error, 'a) result app" where
  "orch_call env requestID req m = State (\<lambda>w.
     let k = apTick w; w1 = w\<lparr>apTick := Suc k, apSent := apSent w @ [req]\<rparr>; s = avOrchestrator env;
         (r, ow) = run_state (m (s\<lparr>svEnv := (svEnv s)\<lparr>eRequestID := requestID\<rparr>\<rparr>)) (apOrch w)
     in case avLink env k of
          LinkWorks \<Rightarrow> (r, w1\<lparr>apOrch := ow\<rparr>)
        | LinkFails c \<Rightarrow> (Inl (link_error c), w1)
        | LinkLosesAnswer c \<Rightarrow> (Inl (link_error c), w1\<lparr>apOrch := ow\<rparr>))"

subsection \<open>Errors\<close>

definition reasoned :: "code \<Rightarrow> string \<Rightarrow> string \<Rightarrow> api_error" where
  "reasoned c reason message = \<lparr>aeCode = c, aeMessage = message, aeReason = reason\<rparr>"

definition app_invalid :: "string \<Rightarrow> api_error" where
  "app_invalid message = \<lparr>aeCode = InvalidArgument, aeMessage = message, aeReason = []\<rparr>"

definition unauthenticated :: api_error where
  "unauthenticated = \<lparr>aeCode = Unauthenticated, aeMessage = ''a valid access token is required'', aeReason = []\<rparr>"

definition sessionEnded :: api_error where
  "sessionEnded = reasoned Unauthenticated ''ERROR_REASON_SESSION_ENDED'' ''the session has ended; pair the app again''"

definition pairingInvalid :: api_error where
  "pairingInvalid = reasoned Unauthenticated ''ERROR_REASON_PAIRING_CODE_INVALID'' ''the pairing code is not valid; ask for a new one''"

definition app_internal :: "string \<Rightarrow> api_error" where
  "app_internal requestID = \<lparr>aeCode = Internal, aeMessage = ''internal error (request '' @ requestID @ '')'', aeReason = []\<rparr>"

definition fromOrchestrator :: "string \<Rightarrow> api_error \<Rightarrow> api_error" where
  "fromOrchestrator requestID e =
     (if aeCode e = Unavailable \<or> aeCode e = DeadlineExceeded
      then \<lparr>aeCode = Unavailable, aeMessage = ''the service is temporarily unavailable; try again'', aeReason = []\<rparr>
      else if aeCode e = Canceled then \<lparr>aeCode = Canceled, aeMessage = ''cancelled'', aeReason = []\<rparr>
      else app_internal requestID)"

subsection \<open>Tokens\<close>

definition AccessAudience :: string where "AccessAudience = ''jarvis-app-api''"
definition VoiceAudience :: string where "VoiceAudience = ''jarvis-voice-gateway''"

definition NewMinter :: "bytes \<Rightarrow> string \<Rightarrow> string \<Rightarrow> int \<Rightarrow> minter option" where
  "NewMinter public kid iss ttl = (case PublicJWKS kid public of
     None \<Rightarrow> None
   | Some jwks \<Rightarrow> (case ParseJWKS jwks of
       None \<Rightarrow> None
     | Some keys \<Rightarrow> (case NewVerifier keys iss AccessAudience ttl of
         None \<Rightarrow> None
       | Some v \<Rightarrow> Some \<lparr>miAccess = \<lparr>isKeyID = kid, isIssuer = iss, isAudience = AccessAudience\<rparr>,
           miVoice = \<lparr>isKeyID = kid, isIssuer = iss, isAudience = VoiceAudience\<rparr>, miVerifier = v, miTTL = ttl\<rparr>)))"

definition issue :: "app_env \<Rightarrow> issuer \<Rightarrow> Session \<Rightarrow> string option app" where
  "issue env i s = do {
     now \<leftarrow> app_now env;
     tokenID \<leftarrow> app_uuid env;
     k \<leftarrow> app_tick;
     ret_app (avSign env k i (IssueForSession i now tokenID (snUserID s) (snTenantID s) (snID s) (miTTL (avMinter env))))
   }"

definition Mint :: "app_env \<Rightarrow> Session \<Rightarrow> (string \<times> string \<times> int) option app" where
  "Mint env s = do {
     now \<leftarrow> app_now env;
     access \<leftarrow> issue env (miAccess (avMinter env)) s;
     (case access of
        None \<Rightarrow> ret_app None
      | Some a \<Rightarrow> do {
          voice \<leftarrow> issue env (miVoice (avMinter env)) s;
          ret_app (map_option (\<lambda>v. (a, v, now + miTTL (avMinter env))) voice)
        })
   }"

subsection \<open>Messages\<close>

record session_proto =
  spSessionId :: string
  spTenantId :: string
  spUserId :: string
  spAccessToken :: string
  spAccessTokenExpireTime :: int
  spVoiceToken :: string
  spVoiceUrl :: string
  spRefreshToken :: string
  spRefreshTokenExpireTime :: int

record approval_proto =
  aqApprovalId :: string
  aqTaskId :: string
  aqTaskGoal :: string
  aqDeviceName :: string
  aqPayload :: bytes
  aqExpireTime :: int

record app_task =
  atTaskId :: string
  atGoal :: string
  atState :: task_state
  atResult :: string
  atSteps :: int
  atCreateTime :: int
  atUpdateTime :: int
  atPendingApproval :: "approval_proto option"

definition approvalProto :: "task_proto \<Rightarrow> string \<times> string \<times> bytes \<times> int \<Rightarrow> approval_proto" where
  "approvalProto t a = (case a of (approvalID, device, payload, expires) \<Rightarrow>
     \<lparr>aqApprovalId = approvalID, aqTaskId = tpTaskId t, aqTaskGoal = tpGoal t, aqDeviceName = device, aqPayload = payload,
      aqExpireTime = expires\<rparr>)"

text \<open>The two services name the same seven states.\<close>

definition taskProto :: "task_view \<Rightarrow> app_task" where
  "taskProto v = (case v of (t, a) \<Rightarrow>
     \<lparr>atTaskId = tpTaskId t, atGoal = tpGoal t, atState = tpState t, atResult = tpResult t, atSteps = tpSteps t,
      atCreateTime = tpCreateTime t, atUpdateTime = tpUpdateTime t,
      atPendingApproval = (if tpState t = TaskAwaitingApproval then map_option (approvalProto t) a else None)\<rparr>)"

record app_caller =
  cmTenantID :: string
  cmUserID :: string
  cmSessionID :: string

definition phone :: "string \<Rightarrow> actor" where
  "phone session = DeviceActor (''app-session:'' @ session)"
subsection \<open>Sessions\<close>

definition displayText :: "string \<Rightarrow> nat \<Rightarrow> bool" where
  "displayText s mx \<longleftrightarrow> \<not> (s = [] \<or> \<not> ValidString s \<or> RuneCountInString s > mx) \<and> \<not> list_ex (\<lambda>(r, _). IsControl r) (runes s)"

definition session_audit :: "string \<Rightarrow> Session \<Rightarrow> string \<Rightarrow> outcome \<Rightarrow> string \<Rightarrow> (string \<times> string) list \<Rightarrow> audit_record" where
  "session_audit requestID s act out reason details = \<lparr>auTenantID = snTenantID s, auActor = phone (snID s), auOnBehalfOf = snUserID s,
     auAction = act, auTargetType = ''app_session'', auTargetID = snID s, auOutcome = out, auReason = reason, auRequestID = requestID,
     auDetails = details\<rparr>"

definition session_answer :: "app_env \<Rightarrow> Session \<Rightarrow> string \<Rightarrow> session_proto option app" where
  "session_answer env s refresh = do {
     m \<leftarrow> Mint env s;
     ret_app (map_option (\<lambda>(access, voice, expires). \<lparr>spSessionId = snID s, spTenantId = snTenantID s, spUserId = snUserID s,
       spAccessToken = access, spAccessTokenExpireTime = expires, spVoiceToken = voice, spVoiceUrl = avVoiceURL env,
       spRefreshToken = refresh, spRefreshTokenExpireTime = snRefreshExpiresAt s\<rparr>) m)
   }"

definition App_RedeemPairingCode :: "app_env \<Rightarrow> string \<Rightarrow> string \<Rightarrow> string \<Rightarrow> string \<Rightarrow> (api_error, session_proto) result app" where
  "App_RedeemPairingCode env requestID code deviceName deviceModel =
     (let name = TrimSpace deviceName; model = TrimSpace deviceModel in
      if \<not> displayText name 64 then ret_app (Inl (app_invalid ''device_name must be 1 to 64 printable characters''))
      else if \<not> displayText model 64 then ret_app (Inl (app_invalid ''device_model must be 1 to 64 printable characters''))
      else case NormalizeCode code of
        None \<Rightarrow> ret_app (Inl pairingInvalid)
      | Some c \<Rightarrow> do {
          rnd \<leftarrow> app_random env;
          (case NewRefreshToken rnd of
             None \<Rightarrow> ret_app (Inl (app_internal requestID))
           | Some refresh \<Rightarrow> do {
               i \<leftarrow> app_uuid env;
               now \<leftarrow> app_now env;
               r \<leftarrow> app_sql env (\<lambda>t db. RedeemPairingCode t (Hash (avSha env) c) \<lparr>nsID = i, nsDeviceName = name, nsDeviceModel = model,
                      nsRefreshHash = Hash (avSha env) refresh, nsRefreshExpiresAt = now + avRefreshTTL env\<rparr> db);
               (case r of
                  Inl AppErrNotFound \<Rightarrow> ret_app (Inl pairingInvalid)
                | Inl _ \<Rightarrow> ret_app (Inl (app_internal requestID))
                | Inr s \<Rightarrow> do {
                    out \<leftarrow> session_answer env s refresh;
                    (case out of
                       None \<Rightarrow> ret_app (Inl (app_internal requestID))
                     | Some p \<Rightarrow> do {
                         app_audit (session_audit requestID s ''device.paired'' Success [] [(''device_name'', name), (''device_model'', model)]);
                         ret_app (Inr p)
                       })
                  })
             })
        })"

definition RefreshGrace :: int where "RefreshGrace = 60000000"

definition RefreshSession :: "app_env \<Rightarrow> string \<Rightarrow> string \<Rightarrow> (api_error, session_proto) result app" where
  "RefreshSession env requestID presented =
     (if \<not> CheckRefreshToken presented then ret_app (Inl sessionEnded)
      else do {
        rnd \<leftarrow> app_random env;
        (case NewRefreshToken rnd of
           None \<Rightarrow> ret_app (Inl (app_internal requestID))
         | Some nxt \<Rightarrow> do {
             r \<leftarrow> app_sql env (\<lambda>t db. Refresh t (Hash (avSha env) presented) (Hash (avSha env) nxt) (avRefreshTTL env) RefreshGrace db);
             (case r of
                Inl AppErrNotFound \<Rightarrow> ret_app (Inl sessionEnded)
              | Inl _ \<Rightarrow> ret_app (Inl (app_internal requestID))
              | Inr (s, outcome) \<Rightarrow>
                  if outcome = Reused then do {
                    app_audit (session_audit requestID s ''device.token_reused'' Denied ''refresh_token_reused''
                      [(''device_name'', snDeviceName s), (''effect'', ''session ended'')]);
                    ret_app (Inl sessionEnded)
                  }
                  else do {
                    out \<leftarrow> session_answer env s nxt;
                    ret_app (case out of None \<Rightarrow> Inl (app_internal requestID) | Some p \<Rightarrow> Inr p)
                  })
           })
      })"

definition App_SignOut :: "app_env \<Rightarrow> string \<Rightarrow> string \<Rightarrow> (api_error, unit) result app" where
  "App_SignOut env requestID token =
     (if \<not> CheckRefreshToken token then ret_app (Inr ())
      else do {
        r \<leftarrow> app_sql env (\<lambda>t db. case SignOut t (Hash (avSha env) token) db of (s, db') \<Rightarrow> (Inr s, db'));
        (case r of
           Inl _ \<Rightarrow> ret_app (Inl (app_internal requestID))
         | Inr None \<Rightarrow> ret_app (Inr ())
         | Inr (Some s) \<Rightarrow> do {
             app_audit (session_audit requestID s ''device.signed_out'' Success [] [(''device_name'', snDeviceName s)]);
             ret_app (Inr ())
           })
      })"

subsection \<open>Tasks and approvals\<close>

definition App_ListTasks :: "app_env \<Rightarrow> string \<Rightarrow> app_caller \<Rightarrow> int \<Rightarrow> (api_error, app_task list) result app" where
  "App_ListTasks env requestID c limit0 =
     (if limit0 < 0 \<or> limit0 > 100 then ret_app (Inl (app_invalid ''limit must be 0 to 100''))
      else let limit = (if limit0 = 0 then 20 else limit0) in do {
        r \<leftarrow> orch_call env requestID (ListTasksRequest (cmTenantID c) (cmUserID c) limit)
               (\<lambda>s. ListTasks s (cmTenantID c) (cmUserID c) limit);
        ret_app (case r of Inl e \<Rightarrow> Inl (fromOrchestrator requestID e) | Inr ts \<Rightarrow> Inr (map taskProto ts))
      })"

definition App_CancelTask :: "app_env \<Rightarrow> string \<Rightarrow> app_caller \<Rightarrow> string \<Rightarrow> (api_error, app_task) result app" where
  "App_CancelTask env requestID c taskID =
     (if avParseUUID env taskID = None then ret_app (Inl (app_invalid ''task_id must be a UUID''))
      else do {
        r \<leftarrow> orch_call env requestID (CancelTaskRequest (cmTenantID c) (cmUserID c) taskID)
               (\<lambda>s. Server_CancelTask s (cmTenantID c) (cmUserID c) taskID);
        (case r of
           Inl e \<Rightarrow> ret_app (Inl (if aeCode e = NotFound then reasoned NotFound ''ERROR_REASON_TASK_NOT_FOUND'' ''no such task''
             else fromOrchestrator requestID e))
         | Inr t \<Rightarrow> do {
             app_audit \<lparr>auTenantID = cmTenantID c, auActor = phone (cmSessionID c), auOnBehalfOf = cmUserID c, auAction = ''task.cancelled'',
               auTargetType = ''task'', auTargetID = taskID, auOutcome = Success, auReason = [], auRequestID = requestID, auDetails = []\<rparr>;
             ret_app (Inr (taskProto (t, None)))
           })
      })"

text \<open>\<^verbatim>\<open>slices.SortFunc\<close> by expiry; among equal times any order may come out, the list's order stands for it.\<close>

definition waiting_approvals :: "int \<Rightarrow> task_view list \<Rightarrow> approval_proto list" where
  "waiting_approvals now ts = sort_key aqExpireTime (List.map_filter (\<lambda>(t, a). case a of
     None \<Rightarrow> None
   | Some (i, d, p, expires) \<Rightarrow>
       if tpState t \<noteq> TaskAwaitingApproval \<or> \<not> expires > now then None else Some (approvalProto t (i, d, p, expires))) ts)"

definition App_ListApprovals :: "app_env \<Rightarrow> string \<Rightarrow> app_caller \<Rightarrow> (api_error, approval_proto list) result app" where
  "App_ListApprovals env requestID c = do {
     r \<leftarrow> orch_call env requestID (ListTasksRequest (cmTenantID c) (cmUserID c) 100) (\<lambda>s. ListTasks s (cmTenantID c) (cmUserID c) 100);
     (case r of
        Inl e \<Rightarrow> ret_app (Inl (fromOrchestrator requestID e))
      | Inr ts \<Rightarrow> do {
          now \<leftarrow> app_now env;
          ret_app (Inr (waiting_approvals now ts))
        })
   }"

definition approverPattern :: "string \<Rightarrow> bool" where
  "approverPattern s \<longleftrightarrow> 1 \<le> length s \<and> length s \<le> 64
     \<and> list_all (\<lambda>c. ascii_letter c \<or> ascii_digit c \<or> c \<in> {CHR ''.'', CHR ''_'', CHR ''-''}) s"

definition App_SubmitApproval :: "app_env \<Rightarrow> string \<Rightarrow> app_caller \<Rightarrow> string \<Rightarrow> string \<Rightarrow> bytes \<Rightarrow> (api_error, string) result app" where
  "App_SubmitApproval env requestID c approvalID approverID sig =
     (if approvalID = [] \<or> length approvalID > 128 then ret_app (Inl (app_invalid ''approval_id must be 1 to 128 characters''))
      else if \<not> approverPattern approverID then ret_app (Inl (app_invalid ''approver_id must be 1 to 64 of A-Z a-z 0-9 . _ -''))
      else if length sig \<noteq> 64 then ret_app (Inl (app_invalid ''signature must be a raw 64-byte P-256 signature (r||s)''))
      else let record = \<lparr>auTenantID = cmTenantID c, auActor = phone (cmSessionID c), auOnBehalfOf = cmUserID c,
               auAction = ''command.approval_submitted'', auTargetType = ''approval'', auTargetID = approvalID, auOutcome = Success,
               auReason = [], auRequestID = requestID, auDetails = [(''approver_id'', approverID)]\<rparr> in do {
        r \<leftarrow> orch_call env requestID (SubmitDeviceApprovalRequest (cmTenantID c) (cmUserID c) approvalID approverID sig)
               (\<lambda>s. SubmitDeviceApproval s (cmTenantID c) (cmUserID c) approvalID approverID sig);
        (case r of
           Inl e \<Rightarrow>
             if aeCode e = NotFound
             then ret_app (Inl (reasoned NotFound ''ERROR_REASON_APPROVAL_NOT_FOUND'' ''the approval is unknown or has expired''))
             else if aeCode e = PermissionDenied then do {
               app_audit (record\<lparr>auOutcome := Denied, auReason := ''rejected_by_computer''\<rparr>);
               ret_app (Inl (reasoned PermissionDenied ''ERROR_REASON_APPROVAL_REJECTED''
                 ''the computer did not accept this approval; check that this phone is one of its approvers''))
             }
             else ret_app (Inl (fromOrchestrator requestID e))
         | Inr out \<Rightarrow> do {app_audit record; ret_app (Inr out)})
      })"
subsection \<open>Push notifications\<close>

text \<open>
  \<^verbatim>\<open>strings.ToLower\<close>: no rune above ASCII has a hexadecimal digit as its lower case, so these runes stand for themselves here.
\<close>

definition lower_rune :: "rune \<Rightarrow> rune" where
  "lower_rune r = (if 65 \<le> r \<and> r \<le> 90 then r + 32 else r)"

definition ToLower :: "string \<Rightarrow> string" where
  "ToLower s = concat (map (\<lambda>(r, _). EncodeRune (lower_rune r)) (runes s))"

definition deviceTokenPattern :: "string \<Rightarrow> bool" where
  "deviceTokenPattern s \<longleftrightarrow> even (length s) \<and> 64 \<le> length s \<and> length s \<le> 400
     \<and> list_all (\<lambda>c. ascii_digit c \<or> CHR ''a'' \<le> c \<and> c \<le> CHR ''f'') s"

definition pushEnvironments :: "(int \<times> string) list" where
  "pushEnvironments = [(1, ''sandbox''), (2, ''production'')]"

definition RegisterPushToken :: "app_env \<Rightarrow> string \<Rightarrow> app_caller \<Rightarrow> string \<Rightarrow> int \<Rightarrow> (api_error, unit) result app" where
  "RegisterPushToken env requestID c deviceToken environment =
     (let token = ToLower deviceToken; done = (\<lambda>r. case r of Inl _ \<Rightarrow> Inl (app_internal requestID) | Inr _ \<Rightarrow> Inr ()) in
      if token = [] then do {
        r \<leftarrow> app_sql env (\<lambda>_ db. (Inr (), DeletePushToken (cmSessionID c) db));
        ret_app (done r)
      }
      else if \<not> deviceTokenPattern token then ret_app (Inl (app_invalid ''device_token must be the APNs device token in hex''))
      else case map_of pushEnvironments environment of
        None \<Rightarrow> ret_app (Inl (app_invalid ''environment must be SANDBOX or PRODUCTION''))
      | Some name \<Rightarrow> do {
          r \<leftarrow> app_sql env (\<lambda>_ db. SetPushToken (cmSessionID c) token name db);
          ret_app (done r)
        })"

subsection \<open>Interceptors\<close>

datatype app_request =
    RedeemPairingCodeReq string string string
  | RefreshSessionReq string
  | SignOutReq string
  | ListTasksReq int
  | CancelTaskReq string
  | ListApprovalsReq
  | SubmitApprovalReq string string bytes
  | RegisterPushTokenReq string int

datatype app_response =
    SessionResp session_proto
  | TasksResp "app_task list"
  | TaskResp app_task
  | ApprovalsResp "approval_proto list"
  | OutputResp string
  | EmptyResp

fun anonymous :: "app_request \<Rightarrow> bool" where
  "anonymous (RedeemPairingCodeReq _ _ _) = True"
| "anonymous (RefreshSessionReq _) = True"
| "anonymous (SignOutReq _) = True"
| "anonymous _ = False"

definition answer :: "('a \<Rightarrow> app_response) \<Rightarrow> (api_error, 'a) result app \<Rightarrow> (api_error, app_response) result app" where
  "answer f m = do {r \<leftarrow> m; ret_app (case r of Inl e \<Rightarrow> Inl e | Inr x \<Rightarrow> Inr (f x))}"

fun handle :: "app_env \<Rightarrow> string \<Rightarrow> app_caller \<Rightarrow> app_request \<Rightarrow> (api_error, app_response) result app" where
  "handle env rid c (RedeemPairingCodeReq code deviceName deviceModel) =
     answer SessionResp (App_RedeemPairingCode env rid code deviceName deviceModel)"
| "handle env rid c (RefreshSessionReq token) = answer SessionResp (RefreshSession env rid token)"
| "handle env rid c (SignOutReq token) = answer (\<lambda>_. EmptyResp) (App_SignOut env rid token)"
| "handle env rid c (ListTasksReq limit) = answer TasksResp (App_ListTasks env rid c limit)"
| "handle env rid c (CancelTaskReq taskID) = answer TaskResp (App_CancelTask env rid c taskID)"
| "handle env rid c ListApprovalsReq = answer ApprovalsResp (App_ListApprovals env rid c)"
| "handle env rid c (SubmitApprovalReq approvalID approverID sig) = answer OutputResp (App_SubmitApproval env rid c approvalID approverID sig)"
| "handle env rid c (RegisterPushTokenReq token environment) = answer (\<lambda>_. EmptyResp) (RegisterPushToken env rid c token environment)"

text \<open>The id of a request: the header's if it has the form of one, otherwise a new one.\<close>

definition request_id_ok :: "string \<Rightarrow> bool" where
  "request_id_ok s \<longleftrightarrow> 1 \<le> length s \<and> length s \<le> 128
     \<and> list_all (\<lambda>c. ascii_letter c \<or> ascii_digit c \<or> c \<in> {CHR ''.'', CHR ''_'', CHR '':'', CHR ''-''}) s"

definition Logging :: "app_env \<Rightarrow> string \<Rightarrow> string app" where
  "Logging env header = (if request_id_ok header then ret_app header else app_uuid env)"

definition clientAddress :: "string \<Rightarrow> string" where
  "clientAddress addr = (case SplitHostPort addr of Some (host, _) \<Rightarrow> host | None \<Rightarrow> addr)"

definition RateLimit :: "app_env \<Rightarrow> string \<Rightarrow> app_request \<Rightarrow> bool app" where
  "RateLimit env peer req =
     (if \<not> anonymous req then ret_app True
      else do {
        now \<leftarrow> app_now env;
        State (\<lambda>w. case Allow (now * 1000) (clientAddress peer) (apLimiter w) of (ok, l) \<Rightarrow> (ok, w\<lparr>apLimiter := l\<rparr>))
      })"

definition no_caller :: app_caller where
  "no_caller = \<lparr>cmTenantID = uuid_Nil, cmUserID = [], cmSessionID = uuid_Nil\<rparr>"

definition Auth :: "app_env \<Rightarrow> string \<Rightarrow> string \<Rightarrow> app_request \<Rightarrow> (api_error, app_caller) result app" where
  "Auth env requestID authorization req =
     (if anonymous req then ret_app (Inr no_caller)
      else case BearerToken authorization of
        None \<Rightarrow> ret_app (Inl unauthenticated)
      | Some token \<Rightarrow> do {
          k \<leftarrow> app_tick;
          (case VerifyToken (avJwt env k) (avParseUUID env) (miVerifier (avMinter env)) token of
             None \<Rightarrow> ret_app (Inl unauthenticated)
           | Some identity \<Rightarrow> (case avParseUUID env (idSessionID identity) of
               None \<Rightarrow> ret_app (Inl unauthenticated)
             | Some sessionID \<Rightarrow> do {
                 r \<leftarrow> app_sql env (\<lambda>_ db. (Session_by_id sessionID db, db));
                 (case r of
                    Inl AppErrNotFound \<Rightarrow> ret_app (Inl sessionEnded)
                  | Inl _ \<Rightarrow> ret_app (Inl (app_internal requestID))
                  | Inr s \<Rightarrow> do {
                      now \<leftarrow> app_now env;
                      ret_app (if \<not> Active now s \<or> snTenantID s \<noteq> idTenantID identity \<or> snUserID s \<noteq> idUserID identity
                        then Inl sessionEnded
                        else Inr \<lparr>cmTenantID = snTenantID s, cmUserID = snUserID s, cmSessionID = snID s\<rparr>)
                    })
               }))
        })"

text \<open>A request from \<open>peer\<close> with its two headers, through the interceptors in their order.\<close>

definition app_serve :: "app_env \<Rightarrow> string \<Rightarrow> string \<Rightarrow> string \<Rightarrow> app_request \<Rightarrow> (api_error, app_response) result app" where
  "app_serve env peer xRequestID authorization req = do {
     rid \<leftarrow> Logging env xRequestID;
     allowed \<leftarrow> RateLimit env peer req;
     if \<not> allowed then ret_app (Inl \<lparr>aeCode = ResourceExhausted, aeMessage = ''too many attempts; wait a minute'', aeReason = []\<rparr>)
     else do {
       c \<leftarrow> Auth env rid authorization req;
       (case c of Inl e \<Rightarrow> ret_app (Inl e) | Inr caller \<Rightarrow> handle env rid caller req)
     }
   }"
subsection \<open>Who the orchestrator is asked for\<close>

fun request_owner :: "request \<Rightarrow> (string \<times> string) option" where
  "request_owner (OpenConversationRequest tenant user _ _ _) = Some (tenant, user)"
| "request_owner (GetTaskRequest tenant user _) = Some (tenant, user)"
| "request_owner (ListTasksRequest tenant user _) = Some (tenant, user)"
| "request_owner (CancelTaskRequest tenant user _) = Some (tenant, user)"
| "request_owner (RegisterDeviceRequest tenant user _) = Some (tenant, user)"
| "request_owner (ListDevicesRequest tenant user) = Some (tenant, user)"
| "request_owner (RemoveDeviceRequest tenant user _) = Some (tenant, user)"
| "request_owner (SubmitDeviceApprovalRequest tenant user _ _ _) = Some (tenant, user)"
| "request_owner _ = None"

text \<open>\<open>sends P m\<close>: the program sends only requests with \<open>P\<close>, and without one the orchestrator stays as it is.\<close>

definition sent :: "(request \<Rightarrow> bool) \<Rightarrow> app_world \<Rightarrow> app_world \<Rightarrow> bool" where
  "sent P w w' \<longleftrightarrow> (\<exists>new. apSent w' = apSent w @ new \<and> list_all P new \<and> (new = [] \<longrightarrow> apOrch w' = apOrch w))"

definition sends :: "(request \<Rightarrow> bool) \<Rightarrow> 'a app \<Rightarrow> bool" where
  "sends P m \<longleftrightarrow> (\<forall>w. sent P w (snd (run_state m w)))"

named_theorems sending \<open>rules for the requests a program sends\<close>

lemma sent_same: "apSent w' = apSent w \<Longrightarrow> apOrch w' = apOrch w \<Longrightarrow> sent P w w'"
  by (simp add: sent_def)

lemma sent_trans: "sent P w w1 \<Longrightarrow> sent P w1 w2 \<Longrightarrow> sent P w w2"
  by (fastforce simp: sent_def)

lemma sends_ret [sending]: "sends P (ret_app x)"
  by (simp add: sends_def sent_same)

lemma sends_bind [sending]: "sends P m \<Longrightarrow> (\<And>x. sends P (f x)) \<Longrightarrow> sends P (State_Monad.bind m f)"
  unfolding sends_def by (auto split: prod.splits) (metis sent_trans snd_conv)

lemma sends_tick [sending]: "sends P app_tick"
  by (simp add: sends_def app_tick_def sent_same)

lemma sends_sql [sending]: "sends P (app_sql env f)"
  by (auto simp: sends_def app_sql_def Let_def intro: sent_same split: prod.splits fault.splits)

lemma sends_audit [sending]: "sends P (app_audit a)"
  by (simp add: sends_def app_audit_def sent_same)

lemma sends_orch [sending]: "P req \<Longrightarrow> sends P (orch_call env rid req m)"
  by (auto simp: sends_def orch_call_def Let_def sent_def split: prod.splits orch_link.splits)

lemma sends_if [sending]: "sends P m \<Longrightarrow> sends P n \<Longrightarrow> sends P (if b then m else n)"
  by simp

lemma sends_let [sending]: "(\<And>x. sends P (f x)) \<Longrightarrow> sends P (let x = t in f x)"
  by simp

lemma sends_option [sending]: "sends P m \<Longrightarrow> (\<And>y. sends P (g y)) \<Longrightarrow> sends P (case x of None \<Rightarrow> m | Some y \<Rightarrow> g y)"
  by (cases x) auto

lemma sends_sum [sending]: "(\<And>y. sends P (f y)) \<Longrightarrow> (\<And>y. sends P (g y)) \<Longrightarrow> sends P (case x of Inl y \<Rightarrow> f y | Inr y \<Rightarrow> g y)"
  by (cases x) auto

lemma sends_prod [sending]: "(\<And>y z. sends P (f y z)) \<Longrightarrow> sends P (case x of (y, z) \<Rightarrow> f y z)"
  by (cases x) auto

lemma sends_error [sending]:
  "sends P l \<Longrightarrow> sends P m \<Longrightarrow> sends P n \<Longrightarrow> sends P (case x of AppErrNotFound \<Rightarrow> l | AppErrConstraint \<Rightarrow> m | AppErrUnavailable \<Rightarrow> n)"
  by (cases x) auto

lemma sends_clocks [sending]: "sends P (app_now env)" "sends P (app_uuid env)" "sends P (app_random env)"
  unfolding app_now_def app_uuid_def app_random_def by (intro sending)+

lemma sends_Mint [sending]: "sends P (session_answer env s refresh)"
  unfolding session_answer_def Mint_def issue_def by (intro sending)+

lemma sends_session_handlers [sending]:
  "sends P (App_RedeemPairingCode env rid code n m)" "sends P (RefreshSession env rid token)" "sends P (App_SignOut env rid token)"
  "sends P (RegisterPushToken env rid c token environment)"
  unfolding App_RedeemPairingCode_def RefreshSession_def App_SignOut_def RegisterPushToken_def by (intro sending)+

lemma sends_task_handlers [sending]:
  assumes "\<And>r. request_owner r = Some (cmTenantID c, cmUserID c) \<Longrightarrow> P r"
  shows "sends P (App_ListTasks env rid c limit)" "sends P (App_CancelTask env rid c taskID)" "sends P (App_ListApprovals env rid c)"
    "sends P (App_SubmitApproval env rid c approvalID approverID sig)"
  unfolding App_ListTasks_def App_CancelTask_def App_ListApprovals_def App_SubmitApproval_def
  by (intro sending assms; simp)+

lemma sends_handle:
  assumes "\<And>r. request_owner r = Some (cmTenantID c, cmUserID c) \<Longrightarrow> P r"
  shows "sends P (handle env rid c req)"
  by (cases req) (simp_all add: answer_def sends_bind sends_ret sends_session_handlers sends_task_handlers assms)

lemma sends_handle_anonymous: "anonymous req \<Longrightarrow> sends P (handle env rid c req)"
  by (cases req) (simp_all add: answer_def sends_bind sends_ret sends_session_handlers)

lemma sends_interceptors [sending]:
  "sends P (Logging env header)" "sends P (RateLimit env peer req)" "sends P (Auth env rid authorization req)"
proof -
  have "sends P (State (\<lambda>w. case Allow t a (apLimiter w) of (ok, l) \<Rightarrow> (ok, w\<lparr>apLimiter := l\<rparr>)))" for t a
    by (auto simp: sends_def intro: sent_same split: prod.splits)
  then show "sends P (RateLimit env peer req)" unfolding RateLimit_def by (intro sending)
  show "sends P (Logging env header)" "sends P (Auth env rid authorization req)"
    unfolding Logging_def Auth_def by (intro sending)+
qed
text \<open>A valid access token of a stored, active session, checked against the database at the time.\<close>

definition authenticated :: "app_env \<Rightarrow> nat \<Rightarrow> app_db \<Rightarrow> string \<Rightarrow> Session \<Rightarrow> bool" where
  "authenticated env k db authorization s \<longleftrightarrow> (\<exists>token identity. BearerToken authorization = Some token
     \<and> VerifyToken (avJwt env k) (avParseUUID env) (miVerifier (avMinter env)) token = Some identity
     \<and> avParseUUID env (idSessionID identity) = Some (snID s) \<and> Session_by_id (snID s) db = Inr s \<and> Active (avClock env (k + 2)) s
     \<and> idTenantID identity = snTenantID s \<and> idUserID identity = snUserID s)"

lemma Session_by_id_id: "Session_by_id i db = Inr s \<Longrightarrow> snID s = i"
  by (auto simp: Session_by_id_def scanSession_def Session.defs split: option.splits dest: lookup_Some)

lemma app_sql_run:
  assumes "run_state (app_sql env (\<lambda>_ db. (f db, db))) w = (Inr x, w')"
  shows "f (avOthers env (apTick w) (apDb w)) = Inr x \<and> apTick w' = Suc (apTick w)"
  using assms by (auto simp: app_sql_def Let_def split: fault.splits)

lemma Auth_ok:
  assumes "\<not> anonymous req" "run_state (Auth env rid authorization req) w = (Inr c, w')"
  shows "\<exists>s. authenticated env (apTick w) (avOthers env (Suc (apTick w)) (apDb w)) authorization s
    \<and> c = \<lparr>cmTenantID = snTenantID s, cmUserID = snUserID s, cmSessionID = snID s\<rparr>"
proof -
  obtain token where b: "BearerToken authorization = Some token"
    using assms by (auto simp: Auth_def split: option.splits)
  obtain identity where v: "VerifyToken (avJwt env (apTick w)) (avParseUUID env) (miVerifier (avMinter env)) token = Some identity"
    using assms b by (auto simp: Auth_def app_tick_def split: option.splits)
  obtain sid where i: "avParseUUID env (idSessionID identity) = Some sid"
    using assms b v by (auto simp: Auth_def app_tick_def split: option.splits)
  let ?w = "w\<lparr>apTick := Suc (apTick w)\<rparr>"
  obtain r w1 where q: "run_state (app_sql env (\<lambda>_ db. (Session_by_id sid db, db))) ?w = (r, w1)" by fastforce
  then obtain s where r: "r = Inr s"
    using assms b v i by (auto simp: Auth_def app_tick_def split: sum.splits app_error.splits)
  note Q = app_sql_run [OF q [unfolded r]]
  have "(if \<not> Active (avClock env (apTick w + 2)) s \<or> snTenantID s \<noteq> idTenantID identity \<or> snUserID s \<noteq> idUserID identity
      then Inl sessionEnded else Inr \<lparr>cmTenantID = snTenantID s, cmUserID = snUserID s, cmSessionID = snID s\<rparr>) = Inr c"
    using assms b v i q r Q by (simp add: Auth_def app_tick_def app_now_def)
  with b v i Q Session_by_id_id [of sid] show ?thesis
    by (intro exI [of _ s]) (auto simp: authenticated_def split: if_splits)
qed

lemma Logging_effect: "apDb (snd (run_state (Logging env header) w)) = apDb w"
  by (simp add: Logging_def app_uuid_def app_tick_def)

lemma app_serve_sends:
  "\<exists>new. apSent (snd (run_state (app_serve env peer header authorization req) w)) = apSent w @ new \<and>
     (new = [] \<and> apOrch (snd (run_state (app_serve env peer header authorization req) w)) = apOrch w
      \<or> (\<exists>k s. authenticated env k (avOthers env (Suc k) (apDb w)) authorization s
           \<and> list_all (\<lambda>r. request_owner r = Some (snTenantID s, snUserID s)) new))"
proof -
  let ?w' = "snd (run_state (app_serve env peer header authorization req) w)"
  obtain rid w1 where L: "run_state (Logging env header) w = (rid, w1)" by fastforce
  obtain ok w2 where R: "run_state (RateLimit env peer req) w1 = (ok, w2)" by fastforce
  obtain a w3 where A: "run_state (Auth env rid authorization req) w2 = (a, w3)" by fastforce
  have quiet: "sent (\<lambda>_. False) w w1" "sent (\<lambda>_. False) w1 w2" "sent (\<lambda>_. False) w2 w3"
    using sends_interceptors [of "\<lambda>_. False" env] L R A unfolding sends_def by (metis snd_conv)+
  have none: "\<exists>new. apSent x = apSent w @ new \<and> new = [] \<and> apOrch x = apOrch w" if "sent (\<lambda>_. False) w x" for x
    using that by (auto simp: sent_def list_all_iff)
  have W: "?w' = (if \<not> ok then w2 else case a of Inl _ \<Rightarrow> w3 | Inr c \<Rightarrow> snd (run_state (handle env rid c req) w3))"
    using L R A by (simp add: app_serve_def split: sum.splits)
  note w23 = quiet(1,2) sent_trans [OF quiet(1,2)] sent_trans [OF sent_trans [OF quiet(1,2)] quiet(3)]
  show ?thesis
  proof (cases "\<exists>c. ok \<and> a = Inr c \<and> \<not> anonymous req")
    case False
    have "sent (\<lambda>_. False) w ?w'"
      using W w23 False sends_handle_anonymous [of req "\<lambda>_. False" env rid]
      by (auto simp: sends_def split: sum.splits intro: sent_trans)
    from none [OF this] show ?thesis by blast
  next
    case True
    then obtain c where c: "ok" "a = Inr c" "\<not> anonymous req" by blast
    from R c(3) have w2: "w2 = w1" by (simp add: RateLimit_def)
    from Auth_ok [OF c(3) A [unfolded c(2)]] obtain s where
      s: "authenticated env (apTick w2) (avOthers env (Suc (apTick w2)) (apDb w2)) authorization s"
        "c = \<lparr>cmTenantID = snTenantID s, cmUserID = snUserID s, cmSessionID = snID s\<rparr>" by blast
    have db: "apDb w2 = apDb w" using Logging_effect [of env header w] L w2 by simp
    let ?P = "\<lambda>r. request_owner r = Some (snTenantID s, snUserID s)"
    have "sent ?P w3 ?w'" using W c s(2) sends_handle [of c ?P env rid req] by (simp add: sends_def)
    moreover obtain "apSent w3 = apSent w" "apOrch w3 = apOrch w" using none [OF w23(4)] by auto
    ultimately show ?thesis using s(1) db by (auto simp: sent_def)
  qed
qed

text \<open>
  C4.  The orchestrator is asked only for authenticated phones, and only in their own name: a request to the app API that reached the orchestrator
  came with a valid access token of a session that was stored and active when it was looked up, and everything sent was for the
  tenant and user of that session, whatever the request said.  Any other request leaves the orchestrator untouched.
\<close>

theorem app_calls_authenticated:
  "\<exists>new. apSent (snd (run_state (app_serve env peer header authorization req) w)) = apSent w @ new \<and>
     (new = [] \<and> apOrch (snd (run_state (app_serve env peer header authorization req) w)) = apOrch w
      \<or> (\<exists>k s. authenticated env k (avOthers env (Suc k) (apDb w)) authorization s
           \<and> list_all (\<lambda>r. request_owner r = Some (snTenantID s, snUserID s)) new))"
  by (rule app_serve_sends)

end
