(* ===== verification/AppAdmin.thy ===== *)
theory AppAdmin
  imports AppApi
begin

text \<open>
  The app API's internal side, after \<^verbatim>\<open>services/app-api/internal/admin/admin.go\<close>, for the dashboard's backend: pairing codes and
  sessions of signed-in users.  And the notifier, after \<^verbatim>\<open>services/app-api/internal/push/push.go\<close>, which claims the
  orchestrator's notifications and sends them to phones; Apple's push service is a parameter.
\<close>

subsection \<open>Admin service\<close>

definition userPattern :: "string \<Rightarrow> bool" where
  "userPattern s \<longleftrightarrow> 1 \<le> length s \<and> length s \<le> 128 \<and> list_all (\<lambda>c. 0x21 \<le> byte c \<and> byte c \<le> 0x7E) s"

definition owner :: "app_env \<Rightarrow> string \<Rightarrow> string \<Rightarrow> (api_error, string) result" where
  "owner env tenantID userID = (case avParseUUID env tenantID of
     None \<Rightarrow> Inl (app_invalid ''tenant_id must be a UUID'')
   | Some tenant \<Rightarrow> if \<not> userPattern userID then Inl (app_invalid ''user_id must be 1 to 128 printable ASCII characters'') else Inr tenant)"

text \<open>\<^verbatim>\<open>url.QueryEscape\<close> of a byte and of a text, and the link the dashboard shows as a QR code (values in the order of their keys).\<close>

definition hex_digit :: "nat \<Rightarrow> char" where
  "hex_digit n = (if n < 10 then char_of (48 + n) else char_of (55 + n))"

definition escape_byte :: "char \<Rightarrow> string" where
  "escape_byte c = (if ascii_letter c \<or> ascii_digit c \<or> c \<in> {CHR ''-'', CHR ''_'', CHR ''.'', CHR ''~''} then [c]
     else if c = CHR '' '' then ''+'' else [CHR ''%'', hex_digit (byte c div 16), hex_digit (byte c mod 16)])"

definition QueryEscape :: "string \<Rightarrow> string" where
  "QueryEscape s = concat (map escape_byte s)"

definition pairing_url :: "string \<Rightarrow> string \<Rightarrow> string" where
  "pairing_url publicURL code = ''jarvis://pair?code='' @ QueryEscape code @ ''&server='' @ QueryEscape publicURL"

record admin_service =
  asPublicURL :: string
  asPairingTTL :: int

definition Admin_CreatePairingCode :: "app_env \<Rightarrow> admin_service \<Rightarrow> string \<Rightarrow> string \<Rightarrow> string \<Rightarrow> (api_error, string \<times> string \<times> int) result app" where
  "Admin_CreatePairingCode env a requestID tenantID userID = (case owner env tenantID userID of
     Inl e \<Rightarrow> ret_app (Inl e)
   | Inr tenant \<Rightarrow> do {
       rnd \<leftarrow> app_random env;
       (case NewPairingCode rnd of
          None \<Rightarrow> ret_app (Inl (app_internal requestID))
        | Some code \<Rightarrow> (case NormalizeCode code of
            None \<Rightarrow> ret_app (Inl (app_internal requestID))
          | Some normalized \<Rightarrow> do {
              now \<leftarrow> app_now env;
              let expires = now + asPairingTTL a;
              r \<leftarrow> app_sql env (\<lambda>_ db. CreatePairingCode (Hash (avSha env) normalized) tenant userID expires db);
              ret_app (case r of
                Inl _ \<Rightarrow> Inl (app_internal requestID)
              | Inr _ \<Rightarrow> Inr (code, pairing_url (asPublicURL a) code, expires))
            }))
     })"

record admin_session =
  adSessionId :: string
  adDeviceName :: string
  adDeviceModel :: string
  adCreateTime :: int
  adLastUseTime :: int

definition ListSessions :: "app_env \<Rightarrow> string \<Rightarrow> string \<Rightarrow> string \<Rightarrow> (api_error, admin_session list) result app" where
  "ListSessions env requestID tenantID userID = (case owner env tenantID userID of
     Inl e \<Rightarrow> ret_app (Inl e)
   | Inr tenant \<Rightarrow> do {
       r \<leftarrow> app_sql env (\<lambda>now db. (Inr (Sessions now tenant userID db), db));
       ret_app (case r of
         Inl _ \<Rightarrow> Inl (app_internal requestID)
       | Inr ss \<Rightarrow> Inr (map (\<lambda>s. \<lparr>adSessionId = snID s, adDeviceName = snDeviceName s, adDeviceModel = snDeviceModel s,
           adCreateTime = snCreatedAt s, adLastUseTime = snLastUsedAt s\<rparr>) ss))
     })"

definition RevokeSession :: "app_env \<Rightarrow> string \<Rightarrow> string \<Rightarrow> string \<Rightarrow> string \<Rightarrow> (api_error, unit) result app" where
  "RevokeSession env requestID tenantID userID sessionID = (case owner env tenantID userID of
     Inl e \<Rightarrow> ret_app (Inl e)
   | Inr tenant \<Rightarrow> (case avParseUUID env sessionID of
       None \<Rightarrow> ret_app (Inl (app_invalid ''session_id must be a UUID''))
     | Some i \<Rightarrow> do {
         r \<leftarrow> app_sql env (\<lambda>now db. case Revoke now tenant userID i ReasonRevoked db of (ok, db') \<Rightarrow> (Inr ok, db'));
         ret_app (case r of Inl _ \<Rightarrow> Inl (app_internal requestID) | Inr _ \<Rightarrow> Inr ())
       }))"

subsection \<open>The notifier\<close>

record alert =
  alTitle :: string
  alBody :: string
  alThread :: string
  alCollapseID :: string
  alTimeSensitive :: bool
  alExpires :: int
  alData :: "(string \<times> string) list"

definition kindLabel :: "notification_kind_proto \<Rightarrow> string" where
  "kindLabel k = (case k of APPROVAL_NEEDED \<Rightarrow> ''approval_needed'' | CONFIRMATION_NEEDED \<Rightarrow> ''confirmation_needed''
     | TASK_FINISHED \<Rightarrow> ''task_finished'')"

definition approvalExpiry :: int where "approvalExpiry = 300000000"
definition otherExpiry :: int where "otherExpiry = 3600000000"

text \<open>The clock is read once or twice; \<open>now\<close> stands for the reading that is used.\<close>

definition alertFor :: "int \<Rightarrow> notification_proto \<Rightarrow> alert" where
  "alertFor now n =
     (let kind = kindLabel (npKind n);
          a = \<lparr>alTitle = [], alBody = [], alThread = ''tasks'', alCollapseID = kind @ ''-'' @ npTaskId n, alTimeSensitive = False,
            alExpires = now + otherExpiry, alData = [(''kind'', kind), (''task_id'', npTaskId n)]\<rparr>
      in case npKind n of
           APPROVAL_NEEDED \<Rightarrow> a\<lparr>alTitle := ''Approval needed'',
             alBody := ''A command on one of your computers is waiting for your approval.'', alThread := ''approvals'',
             alTimeSensitive := True, alExpires := now + approvalExpiry\<rparr>
         | CONFIRMATION_NEEDED \<Rightarrow> a\<lparr>alTitle := ''Jarvis needs your OK'',
             alBody := ''A background task is waiting for you to confirm an action. Open Jarvis to answer.''\<rparr>
         | TASK_FINISHED \<Rightarrow>
             if npTaskState n = TaskSucceeded then a\<lparr>alTitle := ''Task done'', alBody := ''Jarvis finished a background task.''\<rparr>
             else a\<lparr>alTitle := ''Task not done'', alBody := ''A background task could not finish.''\<rparr>)"

datatype send_answer = Sent | Unregistered | SendFailed

text \<open>Apple's answers, by the step, and the log of what was sent.\<close>

type_synonym apns = "nat \<Rightarrow> string \<Rightarrow> string \<Rightarrow> alert \<Rightarrow> send_answer"

fun send_tokens :: "app_env \<Rightarrow> apns \<Rightarrow> alert \<Rightarrow> push_token list \<Rightarrow> bool \<Rightarrow> bool app" where
  "send_tokens env push a [] sentOne = ret_app sentOne"
| "send_tokens env push a (t # ts) sentOne = do {
     k \<leftarrow> app_tick;
     (case push k (ptEnvironment t) (ptDeviceToken t) a of
        Sent \<Rightarrow> send_tokens env push a ts True
      | Unregistered \<Rightarrow> do {
          r \<leftarrow> app_sql env (\<lambda>_ db. (Inr (), ForgetDeviceToken (ptDeviceToken t) db));
          send_tokens env push a ts sentOne
        }
      | SendFailed \<Rightarrow> send_tokens env push a ts sentOne)
   }"

definition deliver :: "app_env \<Rightarrow> apns \<Rightarrow> notification_proto \<Rightarrow> bool app" where
  "deliver env push n = (case avParseUUID env (npTenantId n) of
     None \<Rightarrow> ret_app True
   | Some tenant \<Rightarrow> do {
       r \<leftarrow> app_sql env (\<lambda>now db. (Inr (PushTokens now tenant (npUserId n) db), db));
       (case r of
          Inl _ \<Rightarrow> ret_app False
        | Inr tokens \<Rightarrow>
            if tokens = [] then ret_app True
            else do {
              now \<leftarrow> app_now env;
              sentOne \<leftarrow> send_tokens env push (alertFor now n) tokens False;
              if sentOne then ret_app True
              else do {
                live \<leftarrow> app_sql env (\<lambda>now db. (Inr (PushTokens now tenant (npUserId n) db), db));
                ret_app (live = Inr [])
              }
            })
     })"

fun deliver_all :: "app_env \<Rightarrow> apns \<Rightarrow> notification_proto list \<Rightarrow> int list app" where
  "deliver_all env push [] = ret_app []"
| "deliver_all env push (n # ns) = do {
     ok \<leftarrow> deliver env push n;
     rest \<leftarrow> deliver_all env push ns;
     ret_app (if ok then npNotificationId n # rest else rest)
   }"

definition claimMax :: int where "claimMax = 50"
definition claimWait :: int where "claimWait = 25000000"
definition backoffMin :: int where "backoffMin = 1000000"
definition backoffMax :: int where "backoffMax = 30000000"

text \<open>
  One round of the notifier, with the backoff it leaves: \<open>rounds\<close> bounds how long the orchestrator waits for notifications, \<open>None\<close>
  is a call that is still waiting then, which the deadline of the call ends.  (The second call carries no request id; its handler uses none.)
\<close>

definition notifier_round :: "nat \<Rightarrow> app_env \<Rightarrow> apns \<Rightarrow> string \<Rightarrow> int \<Rightarrow> int app" where
  "notifier_round rounds env push consumer backoff = do {
     i \<leftarrow> app_uuid env;
     r \<leftarrow> orch_call env (''push-'' @ i) (ClaimNotificationsRequest rounds consumer claimMax claimWait)
            (\<lambda>s. do {x \<leftarrow> Server_ClaimNotifications rounds s consumer claimMax claimWait;
                     ret (case x of None \<Rightarrow> Inl (link_error DeadlineExceeded) | Some y \<Rightarrow> y)});
     (case r of
        Inl _ \<Rightarrow> ret_app (min (2 * backoff) backoffMax)
      | Inr ns \<Rightarrow> do {
          ids \<leftarrow> deliver_all env push ns;
          if ids = [] then ret_app backoffMin
          else do {
            _ \<leftarrow> orch_call env [] (CompleteNotificationsRequest ids) (\<lambda>s. Server_CompleteNotifications s ids);
            ret_app backoffMin
          }
        })
   }"

end
