(* ===== verification/McpNetguard.thy ===== *)
theory McpNetguard
  imports NetAddr
begin

text \<open>
  The guard of the MCP router's outgoing HTTP, after \<^verbatim>\<open>services/mcp-router/internal/netguard/netguard.go\<close>: which
  addresses a connection may be made to, which URLs are accepted, and the checks the HTTP client runs before it connects and
  before it follows a redirect.  \<^verbatim>\<open>net/netip\<close>'s classes of addresses are written out; a URL is taken as \<^verbatim>\<open>net/url\<close> parsed it.
\<close>

subsection \<open>Classes of addresses (net/netip)\<close>

definition IsPrivate :: "addr \<Rightarrow> bool" where
  "IsPrivate a = (case a of
     IPv4 x \<Rightarrow> drop_bit 24 x = 10 \<or> drop_bit 20 x = 0xAC1 \<or> drop_bit 16 x = 0xC0A8
   | IPv6 x _ \<Rightarrow> drop_bit 121 x = 0x7E)"

text \<open>\<^verbatim>\<open>IsUnspecified\<close> compares with \<^verbatim>\<open>0.0.0.0\<close> and \<^verbatim>\<open>::\<close>, which have no zone.\<close>

definition IsUnspecified :: "addr \<Rightarrow> bool" where
  "IsUnspecified a \<longleftrightarrow> a = IPv4 0 \<or> a = IPv6 0 []"

definition IsMulticast :: "addr \<Rightarrow> bool" where
  "IsMulticast a = (case a of IPv4 x \<Rightarrow> drop_bit 28 x = 14 | IPv6 x _ \<Rightarrow> drop_bit 120 x = 0xFF)"

definition IsLinkLocalUnicast :: "addr \<Rightarrow> bool" where
  "IsLinkLocalUnicast a = (case a of IPv4 x \<Rightarrow> drop_bit 16 x = 0xA9FE | IPv6 x _ \<Rightarrow> drop_bit 118 x = 0x3FA)"

definition IsLinkLocalMulticast :: "addr \<Rightarrow> bool" where
  "IsLinkLocalMulticast a = (case a of IPv4 x \<Rightarrow> drop_bit 8 x = 0xE00000 | IPv6 x _ \<Rightarrow> drop_bit 112 x AND 0xFF0F = 0xFF02)"

definition IsInterfaceLocalMulticast :: "addr \<Rightarrow> bool" where
  "IsInterfaceLocalMulticast a = (case a of IPv4 _ \<Rightarrow> False | IPv6 x _ \<Rightarrow> drop_bit 112 x AND 0xFF0F = 0xFF01)"

subsection \<open>The guard\<close>

definition blockedPrefixes :: "prefix list" where
  "blockedPrefixes =
     [(IPv4 0, 8), (IPv4 0x64400000, 10), (IPv4 0xC0000000, 24), (IPv4 0xC0000200, 24), (IPv4 0xC6120000, 15),
      (IPv4 0xC6336400, 24), (IPv4 0xCB007100, 24), (IPv4 0xF0000000, 4),
      (IPv6 0x0064FF9B000000000000000000000000 [], 96), (IPv6 0x0064FF9B000100000000000000000000 [], 48),
      (IPv6 0x20010DB8000000000000000000000000 [], 32)]"

text \<open>The address a caller has is valid: \<^verbatim>\<open>ParseAddr\<close> gave it.\<close>

definition AllowedAddr :: "bool \<Rightarrow> addr \<Rightarrow> bool" where
  "AllowedAddr allowLoopback addr0 =
     (let addr = Unmap addr0 in
      if IsLoopback addr then allowLoopback
      else if IsPrivate addr \<or> IsUnspecified addr \<or> IsMulticast addr \<or> IsLinkLocalUnicast addr \<or> IsLinkLocalMulticast addr
        \<or> IsInterfaceLocalMulticast addr then False
      else \<not> list_ex (\<lambda>p. Contains p addr) blockedPrefixes)"

record url =
  urScheme :: string
  urOpaque :: string
  urHasUser :: bool
  urHost :: string
  urHostname :: string

datatype url_error = NotAbsolute | HasCredentials | AddressNotAllowed string | MustUseHttps

text \<open>Whether the host of a URL is this machine; none for a literal address that is not allowed.\<close>

definition loopbackHost :: "bool \<Rightarrow> string \<Rightarrow> bool option" where
  "loopbackHost allowLoopback host = (case ParseAddr host of
     Some a \<Rightarrow> if AllowedAddr allowLoopback a then Some (IsLoopback (Unmap a)) else None
   | None \<Rightarrow> Some (host = ''localhost''))"

definition CheckURL :: "bool \<Rightarrow> url option \<Rightarrow> (url_error, url) result" where
  "CheckURL allowLoopback parsed = (case parsed of
     None \<Rightarrow> Inl NotAbsolute
   | Some u \<Rightarrow>
       if urHost u = [] \<or> urOpaque u \<noteq> [] then Inl NotAbsolute
       else if urHasUser u then Inl HasCredentials
       else case loopbackHost allowLoopback (urHostname u) of
         None \<Rightarrow> Inl (AddressNotAllowed (urHostname u))
       | Some lo \<Rightarrow>
           if \<not> (urScheme u = ''https'' \<or> urScheme u = ''http'' \<and> allowLoopback \<and> lo) then Inl MustUseHttps
           else if lo \<and> \<not> allowLoopback then Inl (AddressNotAllowed (urHostname u))
           else Inr u)"

text \<open>
  What the HTTP client runs: \<open>guard_control\<close> on every address right before it connects, \<open>CheckRedirect\<close> before it follows a
  redirect after \<open>via\<close> requests.  \<open>True\<close> is no error.
\<close>

definition maxRedirects :: nat where "maxRedirects = 5"

definition guard_control :: "bool \<Rightarrow> string \<Rightarrow> bool" where
  "guard_control allowLoopback address = (case SplitHostPort address of
     None \<Rightarrow> False
   | Some (host, _) \<Rightarrow> (case ParseAddr host of None \<Rightarrow> False | Some a \<Rightarrow> AllowedAddr allowLoopback a))"

definition CheckRedirect :: "bool \<Rightarrow> url option \<Rightarrow> nat \<Rightarrow> bool" where
  "CheckRedirect allowLoopback u via =
     (if via \<ge> maxRedirects then False else case CheckURL allowLoopback u of Inl _ \<Rightarrow> False | Inr _ \<Rightarrow> True)"

subsection \<open>The allowed addresses as ranges\<close>

text \<open>
  The ranges nothing connects to: "this" network, private, shared, link-local, protocol assignments, documentation,
  benchmarking, multicast and reserved addresses; for IPv6 unique local, link-local and multicast, and, for addresses without a
  zone, the unspecified address, NAT64 and documentation.
\<close>

definition closed4 :: "(nat \<times> nat) list" where
  "closed4 = [(0x00000000, 0x00FFFFFF), (0x0A000000, 0x0AFFFFFF), (0x64400000, 0x647FFFFF), (0xA9FE0000, 0xA9FEFFFF),
     (0xAC100000, 0xAC1FFFFF), (0xC0000000, 0xC00000FF), (0xC0000200, 0xC00002FF), (0xC0A80000, 0xC0A8FFFF),
     (0xC6120000, 0xC613FFFF), (0xC6336400, 0xC63364FF), (0xCB007100, 0xCB0071FF), (0xE0000000, 0xFFFFFFFF)]"

definition closed6 :: "(nat \<times> nat) list" where
  "closed6 = [(0xFC000000000000000000000000000000, 0xFDFFFFFFFFFFFFFFFFFFFFFFFFFFFFFF),
     (0xFE800000000000000000000000000000, 0xFEBFFFFFFFFFFFFFFFFFFFFFFFFFFFFF),
     (0xFF000000000000000000000000000000, 0xFFFFFFFFFFFFFFFFFFFFFFFFFFFFFFFF)]"

definition closed6_unzoned :: "(nat \<times> nat) list" where
  "closed6_unzoned = [(0, 0), (0x0064FF9B000000000000000000000000, 0x0064FF9B0000000000000000FFFFFFFF),
     (0x0064FF9B000100000000000000000000, 0x0064FF9B0001FFFFFFFFFFFFFFFFFFFF),
     (0x20010DB8000000000000000000000000, 0x20010DB8FFFFFFFFFFFFFFFFFFFFFFFF)]"

definition within :: "nat \<Rightarrow> nat \<Rightarrow> nat \<Rightarrow> bool" where
  "within n lo hi \<longleftrightarrow> lo \<le> n \<and> n \<le> hi"

definition outside :: "(nat \<times> nat) list \<Rightarrow> nat \<Rightarrow> bool" where
  "outside ranges n = list_all (\<lambda>(lo, hi). \<not> within n lo hi) ranges"

lemma drop_bit_eq_iff: "drop_bit k x = c \<longleftrightarrow> unat x div 2 ^ k = unat c" for x c :: "'a::len word"
proof -
  have "drop_bit k x = c \<longleftrightarrow> unat (drop_bit k x) = unat c" by (simp only: word_unat_eq_iff)
  also have "unat (drop_bit k x) = drop_bit k (unat x)" by (rule unat_drop_bit_eq)
  also have "drop_bit k (unat x) = unat x div 2 ^ k" by (rule drop_bit_eq_div)
  finally show ?thesis .
qed

lemma div_range: "n div d = c \<longleftrightarrow> c * d \<le> n \<and> n < c * d + d" if "0 < d" for n d c :: nat
proof
  assume "n div d = c"
  then show "c * d \<le> n \<and> n < c * d + d" using that by (metis div_mult_mod_eq le_add1 mod_less_divisor nat_add_left_cancel_less mult.commute)
next
  assume "c * d \<le> n \<and> n < c * d + d"
  then show "n div d = c" using that
    by (metis add.commute div_less_iff_less_mult le_antisym less_Suc_eq_le less_eq_div_iff_mult_less_eq mult_Suc)
qed

lemma unat_less4: "unat x < 4294967296" for x :: "32 word"
  using unsigned_less [of x, where ?'a = nat] by simp

lemma unat_less6: "unat x < 340282366920938463463374607431768211456" for x :: "128 word"
  using unsigned_less [of x, where ?'a = nat] by simp

lemma classes4:
  fixes x :: "32 word"
  defines "n \<equiv> unat x"
  shows "IsLoopback (IPv4 x) \<longleftrightarrow> within n 0x7F000000 0x7FFFFFFF"
    "IsPrivate (IPv4 x) \<longleftrightarrow> within n 0x0A000000 0x0AFFFFFF \<or> within n 0xAC100000 0xAC1FFFFF \<or> within n 0xC0A80000 0xC0A8FFFF"
    "IsUnspecified (IPv4 x) \<longleftrightarrow> n = 0"
    "IsMulticast (IPv4 x) \<longleftrightarrow> within n 0xE0000000 0xEFFFFFFF"
    "IsLinkLocalUnicast (IPv4 x) \<longleftrightarrow> within n 0xA9FE0000 0xA9FEFFFF"
    "IsLinkLocalMulticast (IPv4 x) \<longleftrightarrow> within n 0xE0000000 0xE00000FF"
    "IsInterfaceLocalMulticast (IPv4 x) \<longleftrightarrow> False"
proof -
  show "IsLoopback (IPv4 x) \<longleftrightarrow> within n 0x7F000000 0x7FFFFFFF"
    by (simp only: IsLoopback_def Unmap_def addr.case drop_bit_eq_iff) (auto simp: div_range n_def within_def)
  show "IsPrivate (IPv4 x) \<longleftrightarrow> within n 0x0A000000 0x0AFFFFFF \<or> within n 0xAC100000 0xAC1FFFFF \<or> within n 0xC0A80000 0xC0A8FFFF"
    by (simp only: IsPrivate_def addr.case drop_bit_eq_iff) (auto simp: div_range n_def within_def)
  show "IsUnspecified (IPv4 x) \<longleftrightarrow> n = 0" by (simp add: IsUnspecified_def n_def word_unat_eq_iff)
  show "IsMulticast (IPv4 x) \<longleftrightarrow> within n 0xE0000000 0xEFFFFFFF"
    by (simp only: IsMulticast_def addr.case drop_bit_eq_iff) (auto simp: div_range n_def within_def)
  show "IsLinkLocalUnicast (IPv4 x) \<longleftrightarrow> within n 0xA9FE0000 0xA9FEFFFF"
    by (simp only: IsLinkLocalUnicast_def addr.case drop_bit_eq_iff) (auto simp: div_range n_def within_def)
  show "IsLinkLocalMulticast (IPv4 x) \<longleftrightarrow> within n 0xE0000000 0xE00000FF"
    by (simp only: IsLinkLocalMulticast_def addr.case drop_bit_eq_iff) (auto simp: div_range n_def within_def)
  show "IsInterfaceLocalMulticast (IPv4 x) \<longleftrightarrow> False" by (simp add: IsInterfaceLocalMulticast_def)
qed
lemma blocked4:
  "list_ex (\<lambda>p. Contains p (IPv4 x)) blockedPrefixes \<longleftrightarrow>
     within (unat x) 0 0x00FFFFFF \<or> within (unat x) 0x64400000 0x647FFFFF \<or> within (unat x) 0xC0000000 0xC00000FF
     \<or> within (unat x) 0xC0000200 0xC00002FF \<or> within (unat x) 0xC6120000 0xC613FFFF
     \<or> within (unat x) 0xC6336400 0xC63364FF \<or> within (unat x) 0xCB007100 0xCB0071FF
     \<or> within (unat x) 0xF0000000 0xFFFFFFFF"
proof -
  have p: "Contains (IPv4 y, n) (IPv4 x) \<longleftrightarrow> unat x div 2 ^ (32 - n) = unat y div 2 ^ (32 - n)" for y n
    by (simp add: Contains_IPv4)
  have q: "\<not> Contains (IPv6 y z, n) (IPv4 x)" for y z n by (simp add: Contains_def)
  have ranges:
    "n div 2 ^ 24 = 0 \<longleftrightarrow> within n 0 0x00FFFFFF" "n div 2 ^ 22 = 0x191 \<longleftrightarrow> within n 0x64400000 0x647FFFFF"
    "n div 2 ^ 8 = 0xC00000 \<longleftrightarrow> within n 0xC0000000 0xC00000FF" "n div 2 ^ 8 = 0xC00002 \<longleftrightarrow> within n 0xC0000200 0xC00002FF"
    "n div 2 ^ 17 = 0x6309 \<longleftrightarrow> within n 0xC6120000 0xC613FFFF" "n div 2 ^ 8 = 0xC63364 \<longleftrightarrow> within n 0xC6336400 0xC63364FF"
    "n div 2 ^ 8 = 0xCB0071 \<longleftrightarrow> within n 0xCB007100 0xCB0071FF" "n div 2 ^ 28 = 15 \<longleftrightarrow> within n 0xF0000000 0xFFFFFFFF" for n :: nat
    by (auto simp: div_range within_def)
  have "list_ex (\<lambda>p. Contains p (IPv4 x)) blockedPrefixes \<longleftrightarrow>
      unat x div 2 ^ 24 = 0 \<or> unat x div 2 ^ 22 = 0x191 \<or> unat x div 2 ^ 8 = 0xC00000 \<or> unat x div 2 ^ 8 = 0xC00002
      \<or> unat x div 2 ^ 17 = 0x6309 \<or> unat x div 2 ^ 8 = 0xC63364 \<or> unat x div 2 ^ 8 = 0xCB0071 \<or> unat x div 2 ^ 28 = 15"
    by (simp add: blockedPrefixes_def p q)
  also have "\<dots> \<longleftrightarrow> within (unat x) 0 0x00FFFFFF \<or> within (unat x) 0x64400000 0x647FFFFF \<or> within (unat x) 0xC0000000 0xC00000FF
     \<or> within (unat x) 0xC0000200 0xC00002FF \<or> within (unat x) 0xC6120000 0xC613FFFF
     \<or> within (unat x) 0xC6336400 0xC63364FF \<or> within (unat x) 0xCB007100 0xCB0071FF
     \<or> within (unat x) 0xF0000000 0xFFFFFFFF"
    by (simp only: ranges)
  finally show ?thesis .
qed

lemma AllowedAddr_IPv4:
  "AllowedAddr lb (IPv4 x) \<longleftrightarrow> (if within (unat x) 0x7F000000 0x7FFFFFFF then lb else outside closed4 (unat x))"
proof -
  have u: "Unmap (IPv4 x) = IPv4 x" by (simp add: Unmap_def)
  have m: "within (unat x) 0xE0000000 0xFFFFFFFF \<longleftrightarrow> within (unat x) 0xE0000000 0xEFFFFFFF \<or> within (unat x) 0xF0000000 0xFFFFFFFF"
    "within (unat x) 0xE0000000 0xE00000FF \<Longrightarrow> within (unat x) 0xE0000000 0xEFFFFFFF"
    "unat x = 0 \<Longrightarrow> within (unat x) 0 0x00FFFFFF"
    by (auto simp: within_def)
  show ?thesis
    unfolding AllowedAddr_def Let_def u classes4 blocked4 outside_def closed4_def list.pred_inject prod.case m(1)
    using m(2,3) by auto
qed

lemma classes6:
  fixes x :: "128 word"
  defines "n \<equiv> unat x"
  shows "IsPrivate (IPv6 x z) \<longleftrightarrow> within n 0xFC000000000000000000000000000000 0xFDFFFFFFFFFFFFFFFFFFFFFFFFFFFFFF"
    "IsUnspecified (IPv6 x z) \<longleftrightarrow> n = 0 \<and> z = []"
    "IsMulticast (IPv6 x z) \<longleftrightarrow> within n 0xFF000000000000000000000000000000 0xFFFFFFFFFFFFFFFFFFFFFFFFFFFFFFFF"
    "IsLinkLocalUnicast (IPv6 x z) \<longleftrightarrow> within n 0xFE800000000000000000000000000000 0xFEBFFFFFFFFFFFFFFFFFFFFFFFFFFFFF"
    "IsLinkLocalMulticast (IPv6 x z) \<Longrightarrow> IsMulticast (IPv6 x z)"
    "IsInterfaceLocalMulticast (IPv6 x z) \<Longrightarrow> IsMulticast (IPv6 x z)"
proof -
  show "IsPrivate (IPv6 x z) \<longleftrightarrow> within n 0xFC000000000000000000000000000000 0xFDFFFFFFFFFFFFFFFFFFFFFFFFFFFFFF"
    by (simp only: IsPrivate_def addr.case drop_bit_eq_iff) (auto simp: div_range n_def within_def)
  show "IsUnspecified (IPv6 x z) \<longleftrightarrow> n = 0 \<and> z = []" by (simp add: IsUnspecified_def n_def word_unat_eq_iff)
  show "IsMulticast (IPv6 x z) \<longleftrightarrow> within n 0xFF000000000000000000000000000000 0xFFFFFFFFFFFFFFFFFFFFFFFFFFFFFFFF"
    using unat_less6 [of x] by (simp only: IsMulticast_def addr.case drop_bit_eq_iff) (auto simp: div_range n_def within_def)
  show "IsLinkLocalUnicast (IPv6 x z) \<longleftrightarrow> within n 0xFE800000000000000000000000000000 0xFEBFFFFFFFFFFFFFFFFFFFFFFFFFFFFF"
    by (simp only: IsLinkLocalUnicast_def addr.case drop_bit_eq_iff) (auto simp: div_range n_def within_def)
  have m: "drop_bit 120 x = 0xFF" if "drop_bit 112 x AND 0xFF0F = c" "drop_bit 8 c = 0xFF" for c :: "128 word"
  proof -
    have "drop_bit 8 (drop_bit 112 x AND 0xFF0F) = drop_bit 120 x AND drop_bit 8 0xFF0F" by (simp only: drop_bit_and drop_bit_drop_bit) simp
    moreover have "drop_bit 8 (0xFF0F :: 128 word) = mask 8" by (simp add: mask_eq_exp_minus_1)
    moreover have "drop_bit 120 x AND mask 8 = drop_bit 120 x"
      by (rule bit_word_eqI) (auto simp: bit_simps dest: bit_imp_le_length)
    ultimately show ?thesis using that by simp
  qed
  show "IsMulticast (IPv6 x z)" if "IsLinkLocalMulticast (IPv6 x z)"
    using m [of "0xFF02"] that by (simp add: IsMulticast_def IsLinkLocalMulticast_def)
  show "IsMulticast (IPv6 x z)" if "IsInterfaceLocalMulticast (IPv6 x z)"
    using m [of "0xFF01"] that by (simp add: IsMulticast_def IsInterfaceLocalMulticast_def)
qed
lemma blocked6:
  "list_ex (\<lambda>p. Contains p (IPv6 x z)) blockedPrefixes \<longleftrightarrow> z = [] \<and>
     (within (unat x) 0x0064FF9B000000000000000000000000 0x0064FF9B0000000000000000FFFFFFFF
      \<or> within (unat x) 0x0064FF9B000100000000000000000000 0x0064FF9B0001FFFFFFFFFFFFFFFFFFFF
      \<or> within (unat x) 0x20010DB8000000000000000000000000 0x20010DB8FFFFFFFFFFFFFFFFFFFFFFFF)"
proof -
  have p: "Contains (IPv6 y [], n) (IPv6 x z) \<longleftrightarrow> z = [] \<and> unat x div 2 ^ (128 - n) = unat y div 2 ^ (128 - n)" if "n \<le> 128" for y n
    using that by (auto simp: Contains_IPv6)
  have q: "\<not> Contains (IPv4 y, n) (IPv6 x z)" for y n by (simp add: Contains_def)
  have ranges:
    "n div 2 ^ 32 = 0x0064FF9B0000000000000000 \<longleftrightarrow> within n 0x0064FF9B000000000000000000000000 0x0064FF9B0000000000000000FFFFFFFF"
    "n div 2 ^ 80 = 0x0064FF9B0001 \<longleftrightarrow> within n 0x0064FF9B000100000000000000000000 0x0064FF9B0001FFFFFFFFFFFFFFFFFFFF"
    "n div 2 ^ 96 = 0x20010DB8 \<longleftrightarrow> within n 0x20010DB8000000000000000000000000 0x20010DB8FFFFFFFFFFFFFFFFFFFFFFFF" for n :: nat
    by (auto simp: div_range within_def)
  have "list_ex (\<lambda>p. Contains p (IPv6 x z)) blockedPrefixes \<longleftrightarrow> z = [] \<and>
      (unat x div 2 ^ 32 = 0x0064FF9B0000000000000000 \<or> unat x div 2 ^ 80 = 0x0064FF9B0001 \<or> unat x div 2 ^ 96 = 0x20010DB8)"
    by (auto simp: blockedPrefixes_def p q)
  then show ?thesis by (simp only: ranges)
qed

lemma AllowedAddr_IPv6:
  assumes "Unmap (IPv6 x z) = IPv6 x z"
  shows "AllowedAddr lb (IPv6 x z) \<longleftrightarrow>
    (if x = 1 then lb else outside closed6 (unat x) \<and> (z \<noteq> [] \<or> outside closed6_unzoned (unat x)))"
proof -
  have l: "IsLoopback (IPv6 x z) \<longleftrightarrow> x = 1" using assms by (simp add: IsLoopback_def)
  have z: "within (unat x) 0 0 \<longleftrightarrow> unat x = 0" by (auto simp: within_def)
  show ?thesis
    unfolding AllowedAddr_def Let_def assms l outside_def closed6_def closed6_unzoned_def list.pred_inject prod.case z blocked6
    using classes6 [of x z] by auto
qed

lemma AllowedAddr_Unmap: "AllowedAddr lb (Unmap a) = AllowedAddr lb a"
  by (simp add: AllowedAddr_def)

text \<open>
  C15.  Exactly the addresses outside the closed ranges are reachable, IPv4 addresses embedded in IPv6 included, and the loopback
  addresses only where the configuration allows them.  For an IPv6 address with a zone the unspecified address and the NAT64 and
  documentation prefixes are not closed: \<^verbatim>\<open>Prefix.Contains\<close> and \<^verbatim>\<open>IsUnspecified\<close> are false for every address with a zone.
\<close>

theorem AllowedAddr_ranges:
  "AllowedAddr lb a = (case Unmap a of
     IPv4 x \<Rightarrow> if within (unat x) 0x7F000000 0x7FFFFFFF then lb else outside closed4 (unat x)
   | IPv6 x z \<Rightarrow> if x = 1 then lb else outside closed6 (unat x) \<and> (z \<noteq> [] \<or> outside closed6_unzoned (unat x)))"
proof (cases "Unmap a")
  case (IPv4 x)
  then show ?thesis using AllowedAddr_IPv4 [of lb x] AllowedAddr_Unmap [of lb a] by simp
next
  case (IPv6 x z)
  with Unmap_Unmap [of a] have "Unmap (IPv6 x z) = IPv6 x z" by simp
  with IPv6 show ?thesis using AllowedAddr_IPv6 [of x z lb] AllowedAddr_Unmap [of lb a] by simp
qed

text \<open>
  One address of each kind: a public one, a private one embedded in IPv6, loopback, and an address of the NAT64 prefix without and with a zone.
\<close>

theorem AllowedAddr_ranges_witness:
  "AllowedAddr False (IPv4 0x08080808) \<and> \<not> AllowedAddr False (IPv6 0xFFFF0A000001 [])
    \<and> AllowedAddr True (IPv6 1 []) \<and> \<not> AllowedAddr False (IPv6 1 [])
    \<and> \<not> AllowedAddr False (IPv6 0x0064FF9B00000000000000000A000001 []) \<and> AllowedAddr False (IPv6 0x0064FF9B00000000000000000A000001 ''lo'')"
proof -
  have u: "Unmap (IPv4 0x08080808) = IPv4 0x08080808" "Unmap (IPv6 0xFFFF0A000001 []) = IPv4 0x0A000001" "Unmap (IPv6 1 []) = IPv6 1 []"
    "Unmap (IPv6 0x0064FF9B00000000000000000A000001 z) = IPv6 0x0064FF9B00000000000000000A000001 z" for z
    by (simp_all add: Unmap_def)
  note ranges = within_def outside_def closed4_def closed6_def closed6_unzoned_def
  show ?thesis
    using AllowedAddr_ranges [of False "IPv4 0x08080808"] AllowedAddr_ranges [of False "IPv6 0xFFFF0A000001 []"]
      AllowedAddr_ranges [of _ "IPv6 1 []"] AllowedAddr_ranges [of False "IPv6 0x0064FF9B00000000000000000A000001 _"]
    by (simp add: u ranges)
qed

text \<open>The zone of a literal address opens what the guard closes: \<^verbatim>\<open>https://[::%25lo]/\<close> is accepted, and so is the connection.\<close>

lemma parse_zoned_unspecified: "ParseAddr ''::%lo'' = Some (IPv6 0 ''lo'')"
  by (simp add: ParseAddr_def parseIPv6_def parse_groups_def word_of_bytes_def numeral_eq_Suc Let_def)

lemma zoned_unspecified_accepted:
  "CheckURL False (Some \<lparr>urScheme = ''https'', urOpaque = [], urHasUser = False, urHost = ''[::%lo]'', urHostname = ''::%lo''\<rparr>) =
     Inr \<lparr>urScheme = ''https'', urOpaque = [], urHasUser = False, urHost = ''[::%lo]'', urHostname = ''::%lo''\<rparr>"
  "guard_control False ''[::%lo]:443''" "\<not> AllowedAddr False (IPv6 0 [])"
proof -
  have u: "Unmap (IPv6 0 z) = IPv6 0 z" for z by (simp add: Unmap_def)
  have a: "AllowedAddr False (IPv6 0 ''lo'')"
    by (simp add: AllowedAddr_IPv6 u outside_def closed6_def within_def)
  show "\<not> AllowedAddr False (IPv6 0 [])" by (simp add: AllowedAddr_IPv6 u outside_def closed6_unzoned_def within_def)
  show "CheckURL False (Some \<lparr>urScheme = ''https'', urOpaque = [], urHasUser = False, urHost = ''[::%lo]'', urHostname = ''::%lo''\<rparr>) =
     Inr \<lparr>urScheme = ''https'', urOpaque = [], urHasUser = False, urHost = ''[::%lo]'', urHostname = ''::%lo''\<rparr>"
    using a by (simp add: CheckURL_def loopbackHost_def parse_zoned_unspecified IsLoopback_def u)
  have "SplitHostPort ''[::%lo]:443'' = Some (''::%lo'', ''443'')" by code_simp
  with a show "guard_control False ''[::%lo]:443''" by (simp add: guard_control_def parse_zoned_unspecified)
qed

text \<open>A URL or redirect that passes names no closed address, and is https unless it stays on an allowed loopback.\<close>

lemma CheckURL_ok:
  assumes "CheckURL lb (Some u) = Inr v"
  shows "v = u" "\<not> urHasUser u" "urScheme u = ''https'' \<or> urScheme u = ''http'' \<and> lb"
    "ParseAddr (urHostname u) = Some a \<Longrightarrow> AllowedAddr lb a" "urHostname u = ''localhost'' \<Longrightarrow> ParseAddr ''localhost'' = None \<Longrightarrow> lb"
  using assms by (auto simp: CheckURL_def loopbackHost_def split: if_splits option.splits)

lemma CheckRedirect_ok: "CheckRedirect lb (Some u) via \<Longrightarrow> via < maxRedirects \<and> CheckURL lb (Some u) = Inr u"
  using CheckURL_ok(1) [of lb u] by (auto simp: CheckRedirect_def split: if_splits sum.splits)

end
