(* ===== verification/Spec2Isabelle.thy ===== *)
theory Spec2Isabelle
  imports AuditService EngineSafety AuditLog AppAdmin McpNetguard
begin

text \<open>
  A verification development for the Go services of Project Jarvis, a voice assistant that acts for its users.

  \<^bold>\<open>The program.\<close>  A phone talks to the app API (\<^verbatim>\<open>services/app-api\<close>), which authenticates it and passes its requests to the orchestrator
  (\<^verbatim>\<open>services/orchestrator\<close>).  The orchestrator's engine keeps conversations and background tasks in its database, asks a language model
  what to do next, and runs tools: integrations behind the MCP router (\<^verbatim>\<open>services/mcp-router\<close>), commands on the user's computer, memory.  A tool that
  changes something runs only once the user has agreed.  Every service sends audit events through \<^verbatim>\<open>libs/go/auditlog\<close> to the audit
  service (\<^verbatim>\<open>services/audit\<close>), which keeps a hash chain per tenant.

  \<^bold>\<open>Conventions.\<close>  Go strings and byte slices are both \<^typ>\<open>string\<close>.  A struct is a record, an error a value of a sum type, a SQL table the list
  of its rows, a Go map an association list.  Times are integers: microseconds in the orchestrator and the app API, nanoseconds in the audit
  service, its recorder and the limiter.  Code outside the repository (SHA-256, Ed25519 and JWT, UUID parsing, PostgreSQL's connection, gRPC, Apple's
  push service, the language model) is a parameter; what Go's standard library computes is written out.

  \<^bold>\<open>Foundations.\<close>  \<^theory_text>\<open>Prelude\<close> (results, tables, the locales \<open>self_delimiting\<close> and \<open>lease_queue\<close>), \<^theory_text>\<open>Utf8\<close>, \<^theory_text>\<open>Base64\<close>,
  \<^theory_text>\<open>Json\<close> and \<^theory_text>\<open>JsonRead\<close>, \<^theory_text>\<open>GoFmt\<close>, \<^theory_text>\<open>NetAddr\<close>: the parts of \<^verbatim>\<open>strconv\<close>, \<^verbatim>\<open>unicode/utf8\<close>, \<^verbatim>\<open>encoding/base64\<close>, \<^verbatim>\<open>encoding/json\<close>, \<^verbatim>\<open>fmt\<close>, \<^verbatim>\<open>time\<close> and
  \<^verbatim>\<open>net/netip\<close> the services use.

  \<^bold>\<open>Audit service.\<close>  \<^theory_text>\<open>AuditChain\<close> is \<^verbatim>\<open>internal/chain/chain.go\<close>: the bytes that are hashed determine the event, and do not depend on the order of a map.
  \<^theory_text>\<open>AuditStore\<close> is \<^verbatim>\<open>internal/store/store.go\<close> over its two tables; \<^theory_text>\<open>AuditTrail\<close> shows that appending keeps every chain, that a repeated batch
  changes nothing, and that \<^verbatim>\<open>Verify\<close> accepts what was appended and names the first event that was changed.  \<^theory_text>\<open>AuditServer\<close> is
  \<^verbatim>\<open>internal/server/server.go\<close>; \<^theory_text>\<open>AuditService\<close> composes it with the store: what a recorded batch leaves, and that following page tokens
  reads every matching event once.  \<^theory_text>\<open>AuditLog\<close> is \<^verbatim>\<open>libs/go/auditlog/auditlog.go\<close> as a state machine in front of the audit service: every event is
  stored, logged or still on its way, and the loop ends after \<^verbatim>\<open>Close\<close>.

  \<^bold>\<open>Orchestrator.\<close>  \<^theory_text>\<open>OrchDb\<close> and \<^theory_text>\<open>OrchStore\<close> are the tables and methods of \<^verbatim>\<open>internal/store/store.go\<close>; \<^theory_text>\<open>OrchSteps\<close> makes them a step relation
  with the invariant \<open>db_ok\<close>, and \<^theory_text>\<open>OrchSafety\<close> shows what the store promises: leases exclude, finished tasks and settled questions stay, events are
  carried over.  \<^theory_text>\<open>OrchCatalog\<close> is \<^verbatim>\<open>internal/engine/catalog.go\<close>.  \<^theory_text>\<open>EngineWorld\<close> is the state the engine runs in (a state monad over its
  database and the calls it made, with everything it does not compute in \<open>env\<close>); \<^theory_text>\<open>EngineEvents\<close>, \<^theory_text>\<open>EngineTools\<close>, \<^theory_text>\<open>EngineState\<close>, \<^theory_text>\<open>EngineVoice\<close>,
  \<^theory_text>\<open>EngineTasks\<close> and \<^theory_text>\<open>EngineMemory\<close> are \<^verbatim>\<open>engine.go\<close>, \<^verbatim>\<open>execute.go\<close> with \<^verbatim>\<open>audit.go\<close>, \<^verbatim>\<open>tasks.go\<close>, \<^verbatim>\<open>voice.go\<close> and \<^verbatim>\<open>memory.go\<close> of \<^verbatim>\<open>internal/engine\<close>.  \<^theory_text>\<open>OrchClients\<close> is
  \<^verbatim>\<open>internal/clients/clients.go\<close> (devices are dialled on the tailnet only), \<^theory_text>\<open>OrchServer\<close> and \<^theory_text>\<open>OrchApi\<close> are \<^verbatim>\<open>internal/server/server.go\<close>.
  \<^theory_text>\<open>EngineGuarantee\<close>, \<^theory_text>\<open>EngineOps\<close> and \<^theory_text>\<open>EngineAsk\<close> prove by rely and guarantee (locale \<open>io_relation\<close>) what each operation does to the world
  while others interfere; \<^theory_text>\<open>EngineSafety\<close> concludes for every reachable world that the engine refines the store's steps and that
  a tool that is not read-only was used at most as often as its user confirmed it.

  \<^bold>\<open>App API.\<close>  \<^theory_text>\<open>AppSecret\<close>, \<^theory_text>\<open>AppStore\<close>, \<^theory_text>\<open>AppLimiter\<close> are \<^verbatim>\<open>internal/secret\<close>, \<^verbatim>\<open>internal/store\<close> and \<^verbatim>\<open>internal/ratelimit\<close>; \<^theory_text>\<open>AppSessions\<close> shows for every
  history of the store that a pairing code pairs once, a refresh token is exchanged once outside its grace period, and an ended session stays ended.
  \<^theory_text>\<open>UserToken\<close> is \<^verbatim>\<open>libs/go/usertoken\<close>.  \<^theory_text>\<open>AppApi\<close> is \<^verbatim>\<open>internal/api\<close> with the interceptors in the order of \<^verbatim>\<open>cmd/app-api/main.go\<close>, in front of the
  orchestrator's handlers: what reaches the orchestrator was sent for the user of an active session.  \<^theory_text>\<open>AppAdmin\<close> is \<^verbatim>\<open>internal/admin\<close> and \<^verbatim>\<open>internal/push\<close>.
  Below, the store's guarantee and the API's are put together: an ended session is locked out.

  \<^bold>\<open>MCP router.\<close>  \<^theory_text>\<open>McpNetguard\<close> is \<^verbatim>\<open>internal/netguard\<close>: exactly which addresses its HTTP client connects to.

  \<^bold>\<open>Bounds.\<close>  Loops that end are total functions (a measure where the recursion is not structural: the pages of \<^verbatim>\<open>Verify\<close>, the steps, calls and
  tries of a task).  \<^verbatim>\<open>Watch\<close> and \<^verbatim>\<open>ClaimNotifications\<close> wait for as long as their caller stays; their number of rounds is an argument and running out is \<open>None\<close>,
  and the safety results hold for every number.  Endless worker loops are modelled by one round, and any sequence of rounds is a sequence of steps.

  \<^bold>\<open>Not modelled.\<close>  Start-up, configuration, command lines, metrics and log lines; migrations; the vault client, and the rounding of \<^verbatim>\<open>float64\<close> in the limiter.
  Code with logic of its own that the development does not cover: the authorization policy and certificates of \<^verbatim>\<open>libs/go/mtls\<close> (the servers' callers are taken as
  authorized), the client of Apple's push service (\<^verbatim>\<open>internal/apns\<close>), the MCP router except its network guard (its store, catalog and limits, and its conversations
  with third-party servers through the MCP and OAuth libraries), and the voice gateway (sessions between two WebSockets, with their outbox and limiter).  The services
  in Rust and Python and the apps in TypeScript and Swift are parameters where the Go code calls them.
\<close>

subsection \<open>Ended sessions and the orchestrator\<close>

lemma run_ops_append: "run_ops (xs @ ys) db = run_ops ys (run_ops xs db)"
  by (simp add: run_ops_def)

text \<open>
  C6.  A phone that was signed out, revoked or caught with a copied token is locked out at once: however long its access tokens are still valid,
  no request with one reaches the orchestrator, whatever happened since and whatever other requests do to the database meanwhile.
\<close>

theorem ended_session_locked_out:
  assumes "app_inv db" "ends_session t i db db'" "list_all (\<lambda>op. \<not> creates_session i (snd op)) ops" "apDb w = run_ops ops db'"
    and "\<And>k x. \<exists>others. avOthers env k x = run_ops others x \<and> list_all (\<lambda>op. \<not> creates_session i (snd op)) others"
    and "\<And>k token identity. BearerToken authorization = Some token \<Longrightarrow>
      VerifyToken (avJwt env k) (avParseUUID env) (miVerifier (avMinter env)) token = Some identity \<Longrightarrow> avParseUUID env (idSessionID identity) = Some i"
  shows "apSent (snd (run_state (app_serve env peer header authorization req) w)) = apSent w
    \<and> apOrch (snd (run_state (app_serve env peer header authorization req) w)) = apOrch w"
proof -
  have "\<not> authenticated env k (avOthers env (Suc k) (apDb w)) authorization s" for k s
  proof
    assume a: "authenticated env k (avOthers env (Suc k) (apDb w)) authorization s"
    then have i: "snID s = i" using assms(6) by (auto simp: authenticated_def)
    obtain others where o: "avOthers env (Suc k) (apDb w) = run_ops (ops @ others) db'"
      "list_all (\<lambda>op. \<not> creates_session i (snd op)) (ops @ others)"
      using assms(3,4) assms(5) [of "Suc k" "apDb w"] by (auto simp: run_ops_append)
    from ended_rows [OF assms(1) o(2) assms(2)] o(1) a i show False
      by (auto simp: authenticated_def Session_by_id_def Active_def scanSession_def Session.defs split: option.splits dest!: lookup_Some)
  qed
  then show ?thesis using app_serve_sends [of env peer header authorization req w] by auto
qed

text \<open>A phone whose session was revoked asks for its tasks, with a token that is still valid.\<close>

definition phone_claims :: claims where
  "phone_claims = \<lparr>clIssuer = ''jarvis'', clAudience = [AccessAudience], clSubject = ''ann'', clID = ''j'', clIssuedAt = Some 2, clExpiresAt = 60000000,
     clTenantID = ''acme'', clSessionID = ''s1''\<rparr>"

definition phone_env :: app_env where
  "phone_env = \<lparr>avClock = (\<lambda>k. 10 + int k), avUUID = (\<lambda>_. ''u''), avRandom = (\<lambda>_ n. Some (replicate n CHR ''r'')), avFault = (\<lambda>_. Works),
     avOthers = (\<lambda>_ db. db), avLink = (\<lambda>_. LinkWorks), avSha = id, avParseUUID = Some, avSign = (\<lambda>_ _ _. Some ''token''),
     avJwt = (\<lambda>_ _ token. if token = ''token'' then Some phone_claims else None),
     avMinter = \<lparr>miAccess = \<lparr>isKeyID = ''k'', isIssuer = ''jarvis'', isAudience = AccessAudience\<rparr>,
       miVoice = \<lparr>isKeyID = ''k'', isIssuer = ''jarvis'', isAudience = VoiceAudience\<rparr>,
       miVerifier = \<lparr>vfKeys = [], vfIssuer = ''jarvis'', vfAudience = AccessAudience, vfMaxLifetime = 300000000, vfLeeway = 30000000\<rparr>,
       miTTL = 60000000\<rparr>,
     avVoiceURL = ''wss://voice'', avRefreshTTL = 1000000000, avOrchestrator = quiet_service\<rparr>"

definition phone_world :: "app_db \<Rightarrow> app_world" where
  "phone_world db = \<lparr>apDb = db, apLimiter = NewLimiter 10 20, apOrch = empty_world, apSent = [], apAudit = [], apTick = 0\<rparr>"

lemma phone_token:
  "BearerToken ''Bearer token'' = Some ''token''"
  "VerifyToken (avJwt phone_env k) (avParseUUID phone_env) (miVerifier (avMinter phone_env)) ''token'' =
     Some \<lparr>idTenantID = ''acme'', idUserID = ''ann'', idSessionID = ''s1'', idTokenID = ''j'', idExpiresAt = 60000000\<rparr>"
proof -
  show "BearerToken ''Bearer token'' = Some ''token''" by code_simp
qed (simp add: VerifyToken_def phone_env_def phone_claims_def maxTokenBytes_def)

theorem ended_session_locked_out_witness:
  "fst (Revoke 5 ''acme'' ''ann'' ''s1'' ReasonRevoked paired_db)
    \<and> apSent (snd (run_state (app_serve phone_env ''10.0.0.9:555'' [] ''Bearer token'' (ListTasksReq 10))
        (phone_world (snd (Revoke 5 ''acme'' ''ann'' ''s1'' ReasonRevoked paired_db))))) = []"
proof -
  let ?db = "snd (Revoke 5 ''acme'' ''ann'' ''s1'' ReasonRevoked paired_db)"
  have r: "fst (Revoke 5 ''acme'' ''ann'' ''s1'' ReasonRevoked paired_db)" by (simp add: paired_db_eq app_eval)
  then have e: "ends_session 5 ''s1'' paired_db ?db" unfolding ends_session_def by blast
  have "apDb (phone_world ?db) = run_ops [] ?db" by (simp add: phone_world_def run_ops_def)
  moreover have "\<exists>others. avOthers phone_env k x = run_ops others x \<and> list_all (\<lambda>op. \<not> creates_session ''s1'' (snd op)) others" for k x
    by (rule exI [of _ "[]"]) (simp add: phone_env_def run_ops_def)
  moreover have "avParseUUID phone_env (idSessionID identity) = Some ''s1''"
    if "BearerToken ''Bearer token'' = Some token"
      "VerifyToken (avJwt phone_env k) (avParseUUID phone_env) (miVerifier (avMinter phone_env)) token = Some identity" for k token identity
    using that by (auto simp: phone_token) (simp add: phone_env_def)
  ultimately have "apSent (snd (run_state (app_serve phone_env ''10.0.0.9:555'' [] ''Bearer token'' (ListTasksReq 10)) (phone_world ?db)))
      = apSent (phone_world ?db)"
    using ended_session_locked_out [OF paired_db_inv e, of "[]" "phone_world ?db" phone_env "''Bearer token''"] by simp
  with r show ?thesis by (simp add: phone_world_def)
qed

end
